theory Spec2Isabelle
  imports Main
begin

section \<open>Values, exceptions and the object store\<close>

text \<open>
  The program is Python 2 (it writes the octal literal \<^verbatim>\<open>0770\<close>): \<^verbatim>\<open>filter\<close> returns a
  list, \<^verbatim>\<open>str\<close> is the byte string type and \<^verbatim>\<open>unicode\<close> is a different type.
  Every exception the modelled functions can raise is a constructor of \<open>error\<close>; a function
  that can raise returns \<open>error + 'a\<close> with \<open>Inl\<close> for the exception.
\<close>

datatype error =
    RuntimeError string
  | OSError string
  | KeyError string
  | TypeError string
  | ValueError string
  | AssertionError string
  | AttributeError string
  | NameError string
  | ReError string
  | IndexError string
  | UnicodeEncodeError string
  | CalledProcessError

text \<open>
  The Python values that reach \<^verbatim>\<open>add_fastq_files\<close> and \<^verbatim>\<open>find_fastq_read_pairs\<close>. A
  \<^verbatim>\<open>str\<close> is a list of bytes, a \<^verbatim>\<open>unicode\<close> string the list of its code points.
\<close>

datatype pyval =
    PyNone
  | PyBool bool
  | PyInt int
  | PyStr string
  | PyUnicode "nat list"
  | PyList "pyval list"
  | PyTuple "pyval list"

text \<open>
  Objects of the hierarchy live in a store and are handed around by address, as Python
  hands around references. \<^verbatim>\<open>_subitems\<close> is a dict from names to child objects for
  \<^verbatim>\<open>NGIProject\<close> and \<^verbatim>\<open>NGISample\<close>, and a plain list for \<^verbatim>\<open>NGIFCID\<close>. A dict is an
  association list with unique keys; a new key is put at the end. The attributes
  \<^verbatim>\<open>samples\<close>, \<^verbatim>\<open>fcids\<close> and \<^verbatim>\<open>fastqs\<close> are aliases of \<^verbatim>\<open>_subitems\<close>, \<^verbatim>\<open>add_sample\<close> and
  \<^verbatim>\<open>add_fcid\<close> are aliases of \<^verbatim>\<open>_add_subitem\<close>. The attribute \<^verbatim>\<open>command_lines\<close> of a
  project is never read or written by this module and is left out.
\<close>

type_synonym addr = nat

datatype ngi_class = NGIProject | NGISample | NGIFCID

datatype subitems_val = SubDict "(string \<times> addr) list" | SubList "pyval list"

record ngi_object =
  cls :: ngi_class
  name :: string
  dirname :: string
  base_path :: "string option"
  subitem_type :: "ngi_class option"
  subitems :: subitems_val

record heap =
  cells :: "addr \<Rightarrow> ngi_object"
  next_free :: addr

definition heap_alloc :: "ngi_object \<Rightarrow> heap \<Rightarrow> addr \<times> heap" where
  "heap_alloc obj h =
     (next_free h, h\<lparr>cells := (cells h)(next_free h := obj), next_free := Suc (next_free h)\<rparr>)"

definition heap_update :: "addr \<Rightarrow> ngi_object \<Rightarrow> heap \<Rightarrow> heap" where
  "heap_update a obj h = h\<lparr>cells := (cells h)(a := obj)\<rparr>"

subsection \<open>Constructors\<close>

text \<open>
  \<^verbatim>\<open>NGIObject.__init__\<close> sets \<^verbatim>\<open>name\<close>, \<^verbatim>\<open>dirname\<close>, \<^verbatim>\<open>_subitems = {}\<close> and
  \<^verbatim>\<open>_subitem_type\<close>; \<^verbatim>\<open>NGIFCID.__init__\<close> then replaces \<^verbatim>\<open>_subitems\<close> by \<^verbatim>\<open>[]\<close>.
\<close>

definition NGIProject_init :: "string \<Rightarrow> string \<Rightarrow> string \<Rightarrow> ngi_object" where
  "NGIProject_init nm dn bp =
     \<lparr>cls = NGIProject, name = nm, dirname = dn, base_path = Some bp,
      subitem_type = Some NGISample, subitems = SubDict []\<rparr>"

definition NGISample_init :: "string \<Rightarrow> string \<Rightarrow> ngi_object" where
  "NGISample_init nm dn =
     \<lparr>cls = NGISample, name = nm, dirname = dn, base_path = None,
      subitem_type = Some NGIFCID, subitems = SubDict []\<rparr>"

definition NGIFCID_init :: "string \<Rightarrow> string \<Rightarrow> ngi_object" where
  "NGIFCID_init nm dn =
     \<lparr>cls = NGIFCID, name = nm, dirname = dn, base_path = None,
      subitem_type = None, subitems = SubList []\<rparr>"

text \<open>
  Calling \<^verbatim>\<open>self._subitem_type(name, dirname)\<close>. \<^verbatim>\<open>NGIProject\<close> needs a third argument
  and \<^verbatim>\<open>None\<close> is not callable: both calls raise \<^verbatim>\<open>TypeError\<close>.
\<close>

fun call_subitem_type :: "ngi_class option \<Rightarrow> string \<Rightarrow> string \<Rightarrow> error + ngi_object" where
  "call_subitem_type (Some NGISample) nm dn = Inr (NGISample_init nm dn)"
| "call_subitem_type (Some NGIFCID) nm dn = Inr (NGIFCID_init nm dn)"
| "call_subitem_type (Some NGIProject) nm dn =
     Inl (TypeError ''__init__() takes exactly 4 arguments (3 given)'')"
| "call_subitem_type None nm dn = Inl (TypeError ''NoneType object is not callable'')"

subsection \<open>\<^verbatim>\<open>NGIObject._add_subitem\<close>\<close>

text \<open>
  \<^verbatim>\<open>
  def _add_subitem(self, name, dirname):
      try:
          subitem = self._subitems[name]
      except KeyError:
          subitem = self._subitems[name] = self._subitem_type(name, dirname)
      return subitem
  \<close>
  On an \<^verbatim>\<open>NGIFCID\<close> the subscript is a list indexed by a string, which raises
  \<^verbatim>\<open>TypeError\<close>, and that is not caught.
\<close>

definition add_subitem :: "addr \<Rightarrow> string \<Rightarrow> string \<Rightarrow> heap \<Rightarrow> error + (addr \<times> heap)" where
  "add_subitem self nm dn h =
     (case subitems (cells h self) of
        SubList fs \<Rightarrow> Inl (TypeError ''list indices must be integers, not str'')
      | SubDict d \<Rightarrow>
          (case map_of d nm of
             Some child \<Rightarrow> Inr (child, h)
           | None \<Rightarrow>
               (case call_subitem_type (subitem_type (cells h self)) nm dn of
                  Inl e \<Rightarrow> Inl e
                | Inr obj \<Rightarrow>
                    (let (child, h1) = heap_alloc obj h;
                         h2 = heap_update self
                                ((cells h1 self)\<lparr>subitems := SubDict (d @ [(nm, child)])\<rparr>) h1
                     in Inr (child, h2)))))"

abbreviation add_sample :: "addr \<Rightarrow> string \<Rightarrow> string \<Rightarrow> heap \<Rightarrow> error + (addr \<times> heap)" where
  "add_sample \<equiv> add_subitem"

abbreviation add_fcid :: "addr \<Rightarrow> string \<Rightarrow> string \<Rightarrow> heap \<Rightarrow> error + (addr \<times> heap)" where
  "add_fcid \<equiv> add_subitem"

subsection \<open>\<^verbatim>\<open>NGIFCID.add_fastq_files\<close>\<close>

text \<open>
  \<^verbatim>\<open>
  def add_fastq_files(self, fastq):
      if type(fastq) == list:
          self._subitems.extend(fastq)
      elif type(fastq) == str:
          self._subitems.append(fastq)
      else:
          raise TypeError("Fastq files must be passed as a list or a string: " \
                          "got \"{}\"".format(fastq))
  \<close>
  The method exists on \<^verbatim>\<open>NGIFCID\<close> only, whose \<^verbatim>\<open>_subitems\<close> is a list; on any other
  object the attribute lookup fails. The message of the \<^verbatim>\<open>TypeError\<close> is built with
  \<^verbatim>\<open>str.format\<close>: for a \<^verbatim>\<open>unicode\<close> argument the formatted text is encoded as ASCII, which
  raises \<^verbatim>\<open>UnicodeEncodeError\<close> when a code point is 128 or more, before any \<^verbatim>\<open>TypeError\<close>
  exists. The other values are formatted through \<^verbatim>\<open>str\<close>, which for a tuple shows its
  elements by \<^verbatim>\<open>repr\<close>, and that text is always ASCII.
\<close>

definition is_ascii :: "nat list \<Rightarrow> bool" where
  "is_ascii cps = list_all (\<lambda>c. c < 128) cps"

definition add_fastq_files :: "addr \<Rightarrow> pyval \<Rightarrow> heap \<Rightarrow> error + heap" where
  "add_fastq_files self fastq h =
     (case subitems (cells h self) of
        SubDict d \<Rightarrow> Inl (AttributeError ''add_fastq_files'')
      | SubList fs \<Rightarrow>
          (case fastq of
             PyList xs \<Rightarrow> Inr (heap_update self ((cells h self)\<lparr>subitems := SubList (fs @ xs)\<rparr>) h)
           | PyStr s \<Rightarrow>
               Inr (heap_update self ((cells h self)\<lparr>subitems := SubList (fs @ [PyStr s])\<rparr>) h)
           | PyUnicode cps \<Rightarrow>
               (if is_ascii cps
                then Inl (TypeError ''Fastq files must be passed as a list or a string'')
                else Inl (UnicodeEncodeError ''ascii codec can't encode character''))
           | _ \<Rightarrow> Inl (TypeError ''Fastq files must be passed as a list or a string'')))"

definition fastqs :: "heap \<Rightarrow> addr \<Rightarrow> pyval list" where
  "fastqs h a = (case subitems (cells h a) of SubList fs \<Rightarrow> fs | SubDict d \<Rightarrow> [])"

definition is_run :: "heap \<Rightarrow> addr \<Rightarrow> bool" where
  "is_run h a = (case subitems (cells h a) of SubList fs \<Rightarrow> True | SubDict d \<Rightarrow> False)"



section \<open>Strings and regular expressions\<close>

definition startswith :: "string \<Rightarrow> string \<Rightarrow> bool" where
  "startswith pre s = (take (length pre) s = pre)"

definition endswith :: "string \<Rightarrow> string \<Rightarrow> bool" where
  "endswith suf s = (length suf \<le> length s \<and> drop (length s - length suf) s = suf)"

text \<open>Whether \<open>pat\<close> occurs in \<open>s\<close> as a substring.\<close>

fun occurs :: "string \<Rightarrow> string \<Rightarrow> bool" where
  "occurs pat [] = (pat = [])"
| "occurs pat (c # cs) = (startswith pat (c # cs) \<or> occurs pat cs)"

text \<open>
  \<^verbatim>\<open>s.replace(old, new)\<close> for a non-empty \<open>old\<close>: the occurrences of \<open>old\<close> are found
  scanning from the left, without overlap, and each is replaced. (The module calls it
  with \<^verbatim>\<open>"Sample_"\<close>, \<^verbatim>\<open>"Project_"\<close> and \<^verbatim>\<open>"__"\<close> only; for an empty \<open>old\<close> the model
  returns \<open>s\<close>, which is not what Python does.)
\<close>

function py_replace :: "string \<Rightarrow> string \<Rightarrow> string \<Rightarrow> string" where
  "py_replace old new [] = []"
| "py_replace old new (c # cs) =
     (if old \<noteq> [] \<and> startswith old (c # cs)
      then new @ py_replace old new (drop (length old) (c # cs))
      else c # py_replace old new cs)"
  by pat_completeness auto
termination
  by (relation "measure (\<lambda>(old, new, s). length s)") (auto simp: neq_Nil_conv)

definition is_digit :: "char \<Rightarrow> bool" where
  "is_digit c = (c \<in> set ''0123456789'')"

definition is_upper :: "char \<Rightarrow> bool" where
  "is_upper c = (c \<in> set ''ABCDEFGHIJKLMNOPQRSTUVWXYZ'')"

definition is_lower :: "char \<Rightarrow> bool" where
  "is_lower c = (c \<in> set ''abcdefghijklmnopqrstuvwxyz'')"

definition is_alnum :: "char \<Rightarrow> bool" where
  "is_alnum c = (is_digit c \<or> is_upper c \<or> is_lower c)"

text \<open>\<^verbatim>\<open>\w\<close> of a byte-string pattern compiled without flags: letters, digits, underscore.\<close>

definition is_word :: "char \<Rightarrow> bool" where
  "is_word c = (is_alnum c \<or> c = CHR ''_'')"

definition newline :: char where
  "newline = CHR 0x0A"

text \<open>
  The regular expressions of the module are written with the combinators below, one per
  construct of the pattern syntax. A matcher takes the continuation that matches the rest
  of the pattern and the text still to be read; it returns the continuation's answer for
  the first way of matching that the backtracking engine of \<^verbatim>\<open>re\<close> finds, or \<open>None\<close>.
  \<^verbatim>\<open>re.match\<close> anchors the pattern at the start of the text and lets anything follow the
  match.
\<close>

type_synonym 'r cont = "string \<Rightarrow> 'r option"

definition re_lit :: "string \<Rightarrow> 'r cont \<Rightarrow> 'r cont" where
  "re_lit lit k s = (if startswith lit s then k (drop (length lit) s) else None)"

definition re_class :: "(char \<Rightarrow> bool) \<Rightarrow> 'r cont \<Rightarrow> 'r cont" where
  "re_class P k s = (case s of [] \<Rightarrow> None | c # cs \<Rightarrow> if P c then k cs else None)"

definition re_alt :: "('r cont \<Rightarrow> 'r cont) \<Rightarrow> ('r cont \<Rightarrow> 'r cont) \<Rightarrow> 'r cont \<Rightarrow> 'r cont" where
  "re_alt m1 m2 k s = (case m1 k s of Some r \<Rightarrow> Some r | None \<Rightarrow> m2 k s)"

text \<open>\<^verbatim>\<open>(...)?\<close>, greedy: with the group first, then without.\<close>

definition re_opt :: "('r cont \<Rightarrow> 'r cont) \<Rightarrow> 'r cont \<Rightarrow> 'r cont" where
  "re_opt m k s = (case m k s of Some r \<Rightarrow> Some r | None \<Rightarrow> k s)"

text \<open>\<^verbatim>\<open>x{n}\<close>\<close>

definition re_rep :: "nat \<Rightarrow> ('r cont \<Rightarrow> 'r cont) \<Rightarrow> 'r cont \<Rightarrow> 'r cont" where
  "re_rep n m k = (m ^^ n) k"

text \<open>
  \<^verbatim>\<open>.*\<close>, greedy: the dot matches any character but a newline; the longest run is tried
  first and given back one character at a time.
\<close>

fun re_dotstar :: "'r cont \<Rightarrow> 'r cont" where
  "re_dotstar k [] = k []"
| "re_dotstar k (c # cs) =
     (if c = newline then k (c # cs)
      else (case re_dotstar k cs of Some r \<Rightarrow> Some r | None \<Rightarrow> k (c # cs)))"

text \<open>\<^verbatim>\<open>$\<close> without \<^verbatim>\<open>re.MULTILINE\<close>: at the end of the text, or before a newline that ends it.\<close>

definition re_eol :: "'r cont \<Rightarrow> 'r cont" where
  "re_eol k s = (if s = [] \<or> s = [newline] then k s else None)"

text \<open>A capturing group: the continuation also receives the text the group matched.\<close>

definition re_group :: "('r cont \<Rightarrow> 'r cont) \<Rightarrow> (string \<Rightarrow> 'r cont) \<Rightarrow> 'r cont" where
  "re_group m k s = m (\<lambda>rest. k (take (length s - length rest) s) rest) s"

text \<open>The end of the pattern: the match has succeeded with the result \<open>r\<close>.\<close>

definition re_accept :: "'r \<Rightarrow> 'r cont" where
  "re_accept r s = Some r"

section \<open>Identifier parsers\<close>

subsection \<open>\<^verbatim>\<open>parse_lane_from_filename\<close>\<close>

text \<open>
  \<^verbatim>\<open>(?P<lane>\d)_\d{6}_\w{10}_(?P<project>P\d{3})_(?P<sample>\d{3}).*\<close>; only the group
  \<^verbatim>\<open>lane\<close> is read.
\<close>

definition lane_pattern_sthlm :: "string \<Rightarrow> string option" where
  "lane_pattern_sthlm =
     re_group (re_class is_digit) (\<lambda>lane.
       (re_lit ''_'' \<circ> re_rep 6 (re_class is_digit) \<circ> re_lit ''_'' \<circ>
        re_rep 10 (re_class is_word) \<circ> re_lit ''_'' \<circ>
        re_lit ''P'' \<circ> re_rep 3 (re_class is_digit) \<circ> re_lit ''_'' \<circ>
        re_rep 3 (re_class is_digit) \<circ> re_dotstar) (re_accept lane))"

text \<open>\<^verbatim>\<open>.*_L(?P<lane>\d{3}).*\<close>\<close>

definition lane_pattern_illumina :: "string \<Rightarrow> string option" where
  "lane_pattern_illumina =
     (re_dotstar \<circ> re_lit ''_L'')
       (re_group (re_rep 3 (re_class is_digit)) (\<lambda>lane. re_dotstar (re_accept lane)))"

text \<open>
  \<^verbatim>\<open>
  match = re.match(<sthlm>, sample_basename) or re.match(<illumina>, sample_basename)
  if match:
      return match.group('lane')
  else:
      ...
      raise ValueError(error_msg)
  \<close>
\<close>

definition parse_lane_from_filename :: "string \<Rightarrow> error + string" where
  "parse_lane_from_filename sample_basename =
     (case (case lane_pattern_sthlm sample_basename of
              Some m \<Rightarrow> Some m
            | None \<Rightarrow> lane_pattern_illumina sample_basename) of
        Some lane \<Rightarrow> Inr lane
      | None \<Rightarrow>
          Inl (ValueError (''Error: filename didn't match conventions, couldn't find project id for sample ''
                           @ sample_basename)))"

subsection \<open>What the lane conventions say\<close>

text \<open>\<open>slice s i n\<close> is Python's \<^verbatim>\<open>s[i:i+n]\<close>.\<close>

definition slice :: "string \<Rightarrow> nat \<Rightarrow> nat \<Rightarrow> string" where
  "slice s i n = take n (drop i s)"

text \<open>
  The name starts with \<^verbatim>\<open><lane digit>_<6 digits>_<10 word characters>_P<3 digits>_<3 digits>\<close>;
  a word character is a letter, a digit or an underscore.
\<close>

definition sthlm_format :: "string \<Rightarrow> bool" where
  "sthlm_format s =
     (28 \<le> length s \<and> list_all is_digit (slice s 0 1) \<and> slice s 1 1 = ''_''
      \<and> list_all is_digit (slice s 2 6) \<and> slice s 8 1 = ''_''
      \<and> list_all is_word (slice s 9 10) \<and> slice s 19 1 = ''_'' \<and> slice s 20 1 = ''P''
      \<and> list_all is_digit (slice s 21 3) \<and> slice s 24 1 = ''_''
      \<and> list_all is_digit (slice s 25 3))"

text \<open>A token \<^verbatim>\<open>_L\<close> and three digits starts at offset \<open>i\<close>, with no newline before it.\<close>

definition lane_token :: "string \<Rightarrow> nat \<Rightarrow> bool" where
  "lane_token s i =
     (i + 5 \<le> length s \<and> newline \<notin> set (take i s) \<and> slice s i 2 = ''_L''
      \<and> list_all is_digit (slice s (i + 2) 3))"

text \<open>
  The two conventions as the specification words them: the run code is ten alphanumeric
  characters, and the \<^verbatim>\<open>_L###\<close> token may stand anywhere in the name.
\<close>

definition claimed_sthlm_format :: "string \<Rightarrow> bool" where
  "claimed_sthlm_format s =
     (28 \<le> length s \<and> list_all is_digit (slice s 0 1) \<and> slice s 1 1 = ''_''
      \<and> list_all is_digit (slice s 2 6) \<and> slice s 8 1 = ''_''
      \<and> list_all is_alnum (slice s 9 10) \<and> slice s 19 1 = ''_'' \<and> slice s 20 1 = ''P''
      \<and> list_all is_digit (slice s 21 3) \<and> slice s 24 1 = ''_''
      \<and> list_all is_digit (slice s 25 3))"

definition claimed_lane_token :: "string \<Rightarrow> nat \<Rightarrow> bool" where
  "claimed_lane_token s i =
     (i + 5 \<le> length s \<and> slice s i 2 = ''_L'' \<and> list_all is_digit (slice s (i + 2) 3))"

text \<open>The part of \<^verbatim>\<open>.*_L(?P<lane>\d{3}).*\<close> that follows the leading \<^verbatim>\<open>.*\<close>.\<close>

definition lane_token_k :: "string \<Rightarrow> string option" where
  "lane_token_k =
     re_lit ''_L'' (re_group (re_rep 3 (re_class is_digit)) (\<lambda>lane. re_dotstar (re_accept lane)))"

subsection \<open>\<^verbatim>\<open>get_flowcell_id_from_dirtree\<close>\<close>

text \<open>\<^verbatim>\<open>os.path.split\<close>, \<^verbatim>\<open>basename\<close>, \<^verbatim>\<open>dirname\<close> and \<^verbatim>\<open>join\<close> of \<^verbatim>\<open>posixpath\<close>.\<close>

definition path_basename :: "string \<Rightarrow> string" where
  "path_basename p = rev (takeWhile (\<lambda>c. c \<noteq> CHR ''/'') (rev p))"

definition path_split :: "string \<Rightarrow> string \<times> string" where
  "path_split p =
     (let head = rev (dropWhile (\<lambda>c. c \<noteq> CHR ''/'') (rev p));
          tail = path_basename p
      in (if head \<noteq> [] \<and> \<not> list_all (\<lambda>c. c = CHR ''/'') head
          then rev (dropWhile (\<lambda>c. c = CHR ''/'') (rev head))
          else head,
          tail))"

definition path_dirname :: "string \<Rightarrow> string" where
  "path_dirname p = fst (path_split p)"

definition path_join :: "string \<Rightarrow> string \<Rightarrow> string" where
  "path_join a b =
     (if startswith ''/'' b \<and> b \<noteq> [] then b
      else if a = [] \<or> endswith ''/'' a then a @ b
      else a @ ''/'' @ b)"

text \<open>
  The pattern of the function is \<^verbatim>\<open>\d{4,6}_(?P=<fcid>[A-Z0-9]{10})\<close>. The parser of \<^verbatim>\<open>re\<close>
  reads \<^verbatim>\<open>(?P=\<close> as a reference to a named group: the name is the text up to the next
  \<^verbatim>\<open>)\<close>, it must be an identifier, and a group of that name must have been opened before.
  \<^verbatim>\<open>(?P<name>\<close> opens a group of that name. \<open>sre_named_groups\<close> is this part of the parser:
  it walks over the pattern with the names opened so far and returns the first error.
\<close>

definition isident :: "char \<Rightarrow> bool" where
  "isident c = (is_lower c \<or> is_upper c \<or> c = CHR ''_'')"

definition isname :: "string \<Rightarrow> bool" where
  "isname nm = (case nm of [] \<Rightarrow> False
                | c # cs \<Rightarrow> isident c \<and> list_all (\<lambda>x. isident x \<or> is_digit x) cs)"

fun sre_named_groups :: "string list \<Rightarrow> string \<Rightarrow> error option" where
  "sre_named_groups names [] = None"
| "sre_named_groups names (c # cs) =
     (if startswith ''(?P='' (c # cs) then
        (let body = drop 4 (c # cs); nm = takeWhile (\<lambda>x. x \<noteq> CHR '')'') body in
         if CHR '')'' \<notin> set body then Some (ReError ''unterminated name'')
         else if nm = [] then Some (ReError ''missing group name'')
         else if \<not> isname nm then Some (ReError ''bad character in group name'')
         else if nm \<notin> set names then Some (ReError ''unknown group name'')
         else sre_named_groups names cs)
      else if startswith ''(?P<'' (c # cs) then
        (let body = drop 4 (c # cs); nm = takeWhile (\<lambda>x. x \<noteq> CHR ''>'') body in
         if CHR ''>'' \<notin> set body then Some (ReError ''unterminated name'')
         else if nm = [] then Some (ReError ''missing group name'')
         else if \<not> isname nm then Some (ReError ''bad character in group name'')
         else sre_named_groups (nm # names) cs)
      else sre_named_groups names cs)"

definition flowcell_pattern_text :: string where
  "flowcell_pattern_text = CHR 0x5C # ''d{4,6}_(?P=<fcid>[A-Z0-9]{10})''"

text \<open>
  What the pattern would match had it compiled with \<^verbatim>\<open>(?P<fcid>\<close>, which is what the
  text evidently means: four to six digits, an underscore, and a group of ten characters
  that are capital letters or digits. The branch that uses it cannot be reached.
\<close>

definition flowcell_pattern_match :: "string \<Rightarrow> string option" where
  "flowcell_pattern_match =
     (re_alt (re_rep 6 (re_class is_digit))
        (re_alt (re_rep 5 (re_class is_digit)) (re_rep 4 (re_class is_digit))) \<circ> re_lit ''_'')
       (re_group (re_rep 10 (re_class (\<lambda>c. is_upper c \<or> is_digit c))) (\<lambda>fcid. re_accept fcid))"

definition flowcell_pattern_compile :: "error + (string \<Rightarrow> string option)" where
  "flowcell_pattern_compile =
     (case sre_named_groups [] flowcell_pattern_text of
        Some e \<Rightarrow> Inl e
      | None \<Rightarrow> Inr flowcell_pattern_match)"

text \<open>
  \<^verbatim>\<open>
  flowcell_pattern = re.compile(r'\d{4,6}_(?P=<fcid>[A-Z0-9]{10})')
  try:
      path, dirname = os.path.split(path)
      return flowcell_pattern.match(dirname).groups()[0]
  except (IndexError, AttributeError):
      try:
          _, dirname = os.path.split(path)
          return flowcell_pattern.match(dirname).groups()[0]
      except (IndexError, AttributeError):
          raise ValueError("Could not determine flowcell ID from directory path.")
  \<close>
  The compilation stands outside the \<^verbatim>\<open>try\<close>. The decorator \<^verbatim>\<open>memoized\<close> caches
  results and does not change them.
\<close>

definition get_flowcell_id_from_dirtree :: "string \<Rightarrow> error + string" where
  "get_flowcell_id_from_dirtree path =
     (case flowcell_pattern_compile of
        Inl e \<Rightarrow> Inl e
      | Inr flowcell_pattern \<Rightarrow>
          (let (path1, dirname1) = path_split path in
           case flowcell_pattern dirname1 of
             Some fcid \<Rightarrow> Inr fcid
           | None \<Rightarrow>
               (let (path2, dirname2) = path_split path1 in
                case flowcell_pattern dirname2 of
                  Some fcid \<Rightarrow> Inr fcid
                | None \<Rightarrow> Inl (ValueError ''Could not determine flowcell ID from directory path.''))))"

section \<open>The file system\<close>

text \<open>
  The file system is the list of the directories and the list of the other files that
  exist, each by its absolute, normalised path. \<^verbatim>\<open>os.path.exists\<close> holds of exactly the
  listed paths. \<^verbatim>\<open>os.listdir\<close> gives the names directly below a directory and fails on
  anything else.
\<close>

record filesystem =
  fs_dirs :: "string list"
  fs_files :: "string list"

definition path_exists :: "filesystem \<Rightarrow> string \<Rightarrow> bool" where
  "path_exists fs p = (p \<in> set (fs_dirs fs) \<or> p \<in> set (fs_files fs))"

definition listdir :: "filesystem \<Rightarrow> string \<Rightarrow> string list option" where
  "listdir fs d =
     (if d \<in> set (fs_dirs fs)
      then Some (remdups (map path_basename
                   (filter (\<lambda>p. path_basename p \<noteq> [] \<and> path_join d (path_basename p) = p)
                      (fs_dirs fs @ fs_files fs))))
      else None)"

text \<open>
  Modelled from the spec: \<^verbatim>\<open>safe_makedir\<close> of \<^verbatim>\<open>ngi_pipeline.utils\<close>, which is not among
  the sources. The specification asks of directory creation that it is idempotent: no
  error if the directory already exists.
\<close>

definition safe_makedir :: "string \<Rightarrow> filesystem \<Rightarrow> filesystem" where
  "safe_makedir p fs = (if p \<in> set (fs_dirs fs) then fs else fs\<lparr>fs_dirs := fs_dirs fs @ [p]\<rparr>)"

text \<open>
  The patterns given to \<^verbatim>\<open>glob\<close> are a literal followed by a star or a star followed by a
  literal. \<^verbatim>\<open>glob1\<close> lists the directory (nothing if that fails), drops the names that
  start with a dot when the pattern does not, and keeps the names that \<^verbatim>\<open>fnmatch\<close>
  accepts. \<open>glob_in\<close> joins each directory of a list with the names that \<^verbatim>\<open>glob1\<close> finds
  in it; the directories are taken as they are written.
\<close>

datatype glob_pattern = PrefixStar string | StarSuffix string

fun fnmatch :: "glob_pattern \<Rightarrow> string \<Rightarrow> bool" where
  "fnmatch (PrefixStar pre) nm = startswith pre nm"
| "fnmatch (StarSuffix suf) nm = endswith suf nm"

fun starts_with_dot :: "glob_pattern \<Rightarrow> bool" where
  "starts_with_dot (PrefixStar pre) = startswith ''.'' pre"
| "starts_with_dot (StarSuffix suf) = False"

definition glob1 :: "filesystem \<Rightarrow> string \<Rightarrow> glob_pattern \<Rightarrow> string list" where
  "glob1 fs d pat =
     (case listdir fs d of
        None \<Rightarrow> []
      | Some names \<Rightarrow>
          filter (fnmatch pat)
            (if starts_with_dot pat then names else filter (\<lambda>x. \<not> startswith ''.'' x) names))"

definition glob_in :: "filesystem \<Rightarrow> string list \<Rightarrow> glob_pattern \<Rightarrow> string list" where
  "glob_in fs ds pat = concat (map (\<lambda>d. map (path_join d) (glob1 fs d pat)) ds)"

text \<open>
  What the module takes from outside: \<^verbatim>\<open>os.path.abspath\<close>; the run metrics parser, which
  gives the two dictionaries of \<^verbatim>\<open>parseRunInfo\<close> and \<^verbatim>\<open>parseRunParameters\<close> or raises; the
  \<^verbatim>\<open>rsync\<close> subprocess, which changes the file system or exits with an error (\<open>None\<close>);
  what \<^verbatim>\<open>glob.glob\<close> returns for a pattern whose directory part is empty or holds one of
  the characters \<^verbatim>\<open>*?[\<close>, which \<^verbatim>\<open>glob\<close> expands as a pattern of its own; and the bytes
  by which the file system names a \<^verbatim>\<open>unicode\<close> path.
\<close>

record env =
  abspath :: "string \<Rightarrow> string"
  run_metrics :: "string \<Rightarrow> error + ((string \<rightharpoonup> string) \<times> (string \<rightharpoonup> string))"
  transfer :: "string list \<Rightarrow> string \<Rightarrow> filesystem \<Rightarrow> filesystem option"
  glob_other :: "filesystem \<Rightarrow> string \<Rightarrow> glob_pattern \<Rightarrow> string list"
  fsencode :: "nat list \<Rightarrow> string"

text \<open>
  \<^verbatim>\<open>glob.glob(os.path.join(d, pattern))\<close> for one of the patterns above. \<^verbatim>\<open>glob\<close> splits
  the path into its directory part and the pattern of the last component. A directory
  part that is not empty and holds none of \<^verbatim>\<open>*?[\<close> is listed as it is written; the
  other cases are the environment's.
\<close>

fun pattern_text :: "glob_pattern \<Rightarrow> string" where
  "pattern_text (PrefixStar pre) = pre @ ''*''"
| "pattern_text (StarSuffix suf) = ''*'' @ suf"

definition has_magic :: "string \<Rightarrow> bool" where
  "has_magic s = (CHR ''*'' \<in> set s \<or> CHR ''?'' \<in> set s \<or> CHR ''['' \<in> set s)"

definition glob_glob :: "env \<Rightarrow> filesystem \<Rightarrow> string \<Rightarrow> glob_pattern \<Rightarrow> string list" where
  "glob_glob ev fs d pat =
     (let dir_part = path_dirname (path_join d (pattern_text pat)) in
      if dir_part = [] \<or> has_magic dir_part then glob_other ev fs d pat
      else glob_in fs [dir_part] pat)"

section \<open>The read-pair resolver\<close>

text \<open>\<^verbatim>\<open>".*\.(fastq|fq)(\.gz|\.gzip|\.bz2)?$"\<close>, used with \<^verbatim>\<open>match\<close> as a filter.\<close>

definition fastq_pattern_match :: "string \<Rightarrow> bool" where
  "fastq_pattern_match s =
     ((re_dotstar \<circ> re_lit ''.'' \<circ> re_alt (re_lit ''fastq'') (re_lit ''fq'') \<circ>
       re_opt (re_alt (re_lit ''.gz'') (re_alt (re_lit ''.gzip'') (re_lit ''.bz2''))) \<circ>
       re_eol) (re_accept ()) s \<noteq> None)"

text \<open>\<^verbatim>\<open>(.*)_(?:R\d|\d\.).*\<close>; the result is the first group.\<close>

definition file_format_pattern :: "string \<Rightarrow> string option" where
  "file_format_pattern =
     re_group re_dotstar (\<lambda>pair_base.
       (re_lit ''_'' \<circ> re_alt (re_lit ''R'' \<circ> re_class is_digit) (re_class is_digit \<circ> re_lit ''.'') \<circ>
        re_dotstar) (re_accept pair_base))"

definition truthy :: "pyval \<Rightarrow> bool" where
  "truthy v = (case v of PyNone \<Rightarrow> False | PyBool b \<Rightarrow> b | PyInt i \<Rightarrow> i \<noteq> 0
               | PyStr s \<Rightarrow> s \<noteq> [] | PyUnicode cps \<Rightarrow> cps \<noteq> [] | PyList xs \<Rightarrow> xs \<noteq> []
               | PyTuple xs \<Rightarrow> xs \<noteq> [])"

text \<open>\<^verbatim>\<open>matches_dict[key].append(v)\<close> on a \<^verbatim>\<open>defaultdict(list)\<close>.\<close>

fun dict_append :: "(string \<times> string list) list \<Rightarrow> string \<Rightarrow> string \<Rightarrow> (string \<times> string list) list" where
  "dict_append [] k v = [(k, [v])]"
| "dict_append ((k', vs) # d) k v =
     (if k' = k then (k', vs @ [v]) # d else (k', vs) # dict_append d k v)"

text \<open>
  The loop over the filtered files. When the pattern does not match, \<^verbatim>\<open>.groups()\<close> on
  \<^verbatim>\<open>None\<close> raises \<^verbatim>\<open>AttributeError\<close>; its handler first builds the warning from the name
  \<^verbatim>\<open>file_fullname\<close>, which is bound nowhere, so \<^verbatim>\<open>NameError\<close> leaves the function and the
  rest of the handler (the fallback key) never runs.
\<close>

fun pair_files :: "env \<Rightarrow> string list \<Rightarrow> (string \<times> string list) list
                     \<Rightarrow> error + (string \<times> string list) list" where
  "pair_files ev [] matches_dict = Inr matches_dict"
| "pair_files ev (file_pathname # rest) matches_dict =
     (case file_format_pattern (path_basename file_pathname) of
        Some pair_base \<Rightarrow>
          pair_files ev rest (dict_append matches_dict pair_base (abspath ev file_pathname))
      | None \<Rightarrow> Inl (NameError ''file_fullname''))"

text \<open>
  \<^verbatim>\<open>
  if not directory or file_list:
      raise RuntimeError("Must specify either a list of files or a directory path (in kw format.")
  if file_list and type(file_list) is not list:
      directory = file_list
      file_list = None
  if directory:
      file_list = glob.glob(os.path.join(directory, "*"))
  if file_list:
      pt = re.compile(".*\.(fastq|fq)(\.gz|\.gzip|\.bz2)?$")
      file_list = filter(pt.match, file_list)
  else:
      return {}
  ...
  \<close>
  Past the first test \<^verbatim>\<open>directory\<close> is true and \<^verbatim>\<open>file_list\<close> is false, so the second
  test fails and the file list is the one that \<^verbatim>\<open>glob\<close> gives. A \<^verbatim>\<open>unicode\<close> directory
  is the path that the file system encodes it to. A directory that is not a string makes
  \<^verbatim>\<open>os.path.join\<close> raise \<^verbatim>\<open>AttributeError\<close>.
\<close>

definition pairs_in_directory :: "env \<Rightarrow> filesystem \<Rightarrow> string \<Rightarrow> error + (string \<times> string list) list" where
  "pairs_in_directory ev fs d =
     (let globbed = glob_glob ev fs d (StarSuffix []) in
      if globbed = [] then Inr []
      else pair_files ev (filter fastq_pattern_match globbed) [])"


definition find_fastq_read_pairs :: "env \<Rightarrow> filesystem \<Rightarrow> pyval \<Rightarrow> pyval
                                       \<Rightarrow> error + (string \<times> string list) list" where
  "find_fastq_read_pairs ev fs file_list directory =
     (if \<not> truthy directory \<or> truthy file_list
      then Inl (RuntimeError ''Must specify either a list of files or a directory path (in kw format.'')
      else
        (case directory of
           PyStr d \<Rightarrow> pairs_in_directory ev fs d
         | PyUnicode cps \<Rightarrow> pairs_in_directory ev fs (fsencode ev cps)
         | _ \<Rightarrow> Inl (AttributeError ''endswith'')))"

section \<open>The source tree parser\<close>

text \<open>
  The dictionaries that \<^verbatim>\<open>parse_casava_directory\<close> builds have fixed keys and are records
  here, with the keys as field names.
\<close>

record sample_description =
  sample_dir :: string
  sample_name :: string
  files :: "string list"
  samplesheet :: string

record project_description =
  data_dir :: string
  project_dir :: string
  project_name :: string
  samples :: "sample_description list"

record run_description =
  fc_dir :: string
  fc_name :: string
  fc_date :: string
  basecall_stats_dir :: "string list"
  projects :: "project_description list"

text \<open>\<^verbatim>\<open>s.split('/')\<close> and \<^verbatim>\<open>os.path.relpath\<close> of \<^verbatim>\<open>posixpath\<close>.\<close>

fun split_sep :: "string \<Rightarrow> string list" where
  "split_sep [] = [[]]"
| "split_sep (c # cs) =
     (if c = CHR ''/'' then [] # split_sep cs
      else (case split_sep cs of [] \<Rightarrow> [[c]] | w # ws \<Rightarrow> (c # w) # ws))"

fun commonprefix :: "string list \<Rightarrow> string list \<Rightarrow> string list" where
  "commonprefix (x # xs) (y # ys) = (if x = y then x # commonprefix xs ys else [])"
| "commonprefix xs ys = []"

definition relpath :: "env \<Rightarrow> string \<Rightarrow> string \<Rightarrow> string" where
  "relpath ev path start =
     (let start_list = filter (\<lambda>x. x \<noteq> []) (split_sep (abspath ev start));
          path_list = filter (\<lambda>x. x \<noteq> []) (split_sep (abspath ev path));
          i = length (commonprefix start_list path_list);
          rel_list = replicate (length start_list - i) ''..'' @ drop i path_list
      in (case rel_list of [] \<Rightarrow> ''.'' | r # rs \<Rightarrow> foldl path_join r rs))"

text \<open>
  The name of a project or sample: the base name of the directory with every occurrence
  of the prefix text removed and then every \<^verbatim>\<open>__\<close> replaced,
  \<^verbatim>\<open>os.path.basename(d).replace("Sample_","").replace('__','.')\<close>.
\<close>

definition normalize_name :: "string \<Rightarrow> string \<Rightarrow> string" where
  "normalize_name prefix_text base = py_replace ''__'' ''.'' (py_replace prefix_text [] base)"

definition sample_dirs :: "env \<Rightarrow> filesystem \<Rightarrow> string \<Rightarrow> string list" where
  "sample_dirs ev fs project_dir_path = glob_glob ev fs project_dir_path (PrefixStar ''Sample_'')"

definition samplesheets :: "env \<Rightarrow> filesystem \<Rightarrow> string \<Rightarrow> string list" where
  "samplesheets ev fs sample_dir_path = glob_glob ev fs sample_dir_path (StarSuffix ''.csv'')"

definition unaligned_dirs :: "env \<Rightarrow> filesystem \<Rightarrow> string \<Rightarrow> string list" where
  "unaligned_dirs ev fs fc_dir_path = glob_glob ev fs fc_dir_path (PrefixStar ''Unaligned'')"

definition project_dirs :: "env \<Rightarrow> filesystem \<Rightarrow> string \<Rightarrow> string list" where
  "project_dirs ev fs fc_dir_path =
     glob_in fs (unaligned_dirs ev fs fc_dir_path) (PrefixStar ''Project_'')"

text \<open>
  Each project and sample directory is logged by its path below the parent of the
  flowcell directory,
  \<^verbatim>\<open>LOG.info("...".format(project_dir.split(os.path.split(fc_dir)[0] + "/")[1]))\<close>.
  The subscript raises \<^verbatim>\<open>IndexError\<close> when the separator, the parent directory followed
  by a slash, does not occur in the path; that is so for a flowcell directory directly
  below the root, whose separator is \<^verbatim>\<open>//\<close>. The logger itself is outside the model.
\<close>

definition log_name_ok :: "string \<Rightarrow> string \<Rightarrow> bool" where
  "log_name_ok fc_dir_path p = occurs (path_dirname fc_dir_path @ ''/'') p"

text \<open>
  The loop over the sample directories of one project:
  \<^verbatim>\<open>
  for sample_dir in glob.glob(sample_dir_pattern):
      LOG.info("...".format(sample_dir.split(os.path.split(fc_dir)[0] + "/")[1]))
      fastq_files = [os.path.basename(file) for file in glob.glob(fastq_file_pattern)]
      samplesheet = glob.glob(samplesheet_pattern)
      assert len(samplesheet) == 1, \
              "Error: could not unambiguously locate samplesheet in {}".format(sample_dir)
      sample_name = os.path.basename(sample_dir).replace("Sample_","").replace('__','.')
      project_samples.append({...})
  \<close>
\<close>

fun parse_samples :: "env \<Rightarrow> filesystem \<Rightarrow> string \<Rightarrow> string list \<Rightarrow> sample_description list
                        \<Rightarrow> error + sample_description list" where
  "parse_samples ev fs fc_dir_path [] project_samples = Inr project_samples"
| "parse_samples ev fs fc_dir_path (sample_dir_path # rest) project_samples =
     (if \<not> log_name_ok fc_dir_path sample_dir_path then Inl (IndexError ''list index out of range'')
      else
       (let fastq_files = map path_basename (glob_glob ev fs sample_dir_path (StarSuffix ''.fastq.gz''));
            sheets = samplesheets ev fs sample_dir_path
        in (case sheets of
              [sheet] \<Rightarrow>
                parse_samples ev fs fc_dir_path rest
                  (project_samples @
                    [\<lparr>sample_dir = path_basename sample_dir_path,
                      sample_name = normalize_name ''Sample_'' (path_basename sample_dir_path),
                      files = fastq_files,
                      samplesheet = path_basename sheet\<rparr>])
            | _ \<Rightarrow>
                Inl (AssertionError
                      (''Error: could not unambiguously locate samplesheet in '' @ sample_dir_path)))))"

fun parse_projects :: "env \<Rightarrow> filesystem \<Rightarrow> string \<Rightarrow> string list \<Rightarrow> project_description list
                         \<Rightarrow> error + project_description list" where
  "parse_projects ev fs fc_dir_path [] projs = Inr projs"
| "parse_projects ev fs fc_dir_path (project_dir_path # rest) projs =
     (if \<not> log_name_ok fc_dir_path project_dir_path then Inl (IndexError ''list index out of range'')
      else
       (case parse_samples ev fs fc_dir_path (sample_dirs ev fs project_dir_path) [] of
          Inl e \<Rightarrow> Inl e
        | Inr project_samples \<Rightarrow>
            parse_projects ev fs fc_dir_path rest
              (projs @
                [\<lparr>data_dir = relpath ev (path_dirname project_dir_path) fc_dir_path,
                  project_dir = path_basename project_dir_path,
                  project_name = normalize_name ''Project_'' (path_basename project_dir_path),
                  samples = project_samples\<rparr>])))"

text \<open>
  \<^verbatim>\<open>parse_casava_directory\<close>. A key missing from the run metrics is a \<^verbatim>\<open>KeyError\<close> that is
  turned into \<^verbatim>\<open>RuntimeError\<close>; whatever the metrics parser raises itself is passed on.
\<close>

definition parse_casava_directory :: "env \<Rightarrow> filesystem \<Rightarrow> string \<Rightarrow> error + run_description" where
  "parse_casava_directory ev fs fc_dir_arg =
     (let fc_dir_path = abspath ev fc_dir_arg in
      case run_metrics ev fc_dir_path of
        Inl e \<Rightarrow> Inl e
      | Inr (run_info, runparams) \<Rightarrow>
          (case (run_info ''Flowcell'', run_info ''Date'', runparams ''FCPosition'') of
             (Some flowcell, Some date, Some fc_pos) \<Rightarrow>
               (let stats = map (\<lambda>d. relpath ev d fc_dir_path)
                              (glob_in fs (unaligned_dirs ev fs fc_dir_path) (PrefixStar ''Basecall_Stats_''))
                in case parse_projects ev fs fc_dir_path (project_dirs ev fs fc_dir_path) [] of
                     Inl e \<Rightarrow> Inl e
                   | Inr projs \<Rightarrow>
                       Inr \<lparr>fc_dir = fc_dir_path, fc_name = fc_pos @ flowcell, fc_date = date,
                            basecall_stats_dir = stats, projects = projs\<rparr>)
           | _ \<Rightarrow>
               Inl (RuntimeError (''Could not parse flowcell information from Flowcell RunMetrics in flowcell ''
                                  @ fc_dir_path))))"

section \<open>The reconciler\<close>

record world =
  w_fs :: filesystem
  w_heap :: heap

text \<open>
  \<^verbatim>\<open>projects_to_analyze\<close> is a dict from destination project directories to Project
  objects on the normal path, and the list \<^verbatim>\<open>[]\<close> on the early returns.
\<close>

datatype projects_val = ProjDict "(string \<times> addr) list" | ProjList "addr list"

definition do_rsync :: "env \<Rightarrow> string list \<Rightarrow> string \<Rightarrow> filesystem \<Rightarrow> error + (string list \<times> filesystem)" where
  "do_rsync ev src_files dst_dir fs =
     (case transfer ev src_files dst_dir fs of
        None \<Rightarrow> Inl CalledProcessError
      | Some fs' \<Rightarrow> Inr (map (\<lambda>f. path_join dst_dir (path_basename f)) src_files, fs'))"

fun copy_basecall_stats :: "env \<Rightarrow> string list \<Rightarrow> string \<Rightarrow> filesystem \<Rightarrow> error + filesystem" where
  "copy_basecall_stats ev [] destination_dir fs = Inr fs"
| "copy_basecall_stats ev (source_dir # rest) destination_dir fs =
     (let dst = path_join destination_dir (path_basename source_dir);
          fs1 = safe_makedir dst fs;
          found = glob_glob ev fs1 source_dir (StarSuffix ''.htm'')
                  @ glob_glob ev fs1 source_dir (StarSuffix ''.metrics'')
                  @ glob_glob ev fs1 source_dir (StarSuffix ''.xml'')
                  @ glob_glob ev fs1 source_dir (StarSuffix ''.xsl'')
                  @ filter (path_exists fs1) [path_join source_dir ''Plots'', path_join source_dir ''css'']
      in case do_rsync ev found dst fs1 of
           Inl e \<Rightarrow> Inl e
         | Inr (copied, fs2) \<Rightarrow> copy_basecall_stats ev rest destination_dir fs2)"

definition fc_run_id :: "run_description \<Rightarrow> string" where
  "fc_run_id fcs = fc_date fcs @ ''_'' @ fc_name fcs"

definition ensure_dir :: "string \<Rightarrow> filesystem \<Rightarrow> filesystem" where
  "ensure_dir p fs = (if \<not> path_exists fs p then safe_makedir p fs else fs)"

text \<open>
  The body of the loop over the samples of a project. \<open>dst_project_dir\<close> is the local
  \<^verbatim>\<open>project_dir\<close> of the source (the destination directory of the project), \<open>project_obj\<close>
  the Project object.
\<close>

definition setup_sample :: "env \<Rightarrow> run_description \<Rightarrow> project_description \<Rightarrow> string \<Rightarrow> addr
                              \<Rightarrow> string list \<Rightarrow> sample_description \<Rightarrow> world \<Rightarrow> error + world" where
  "setup_sample ev fcs project dst_project_dir project_obj restrict_to_samples sample w =
     (let nm = py_replace ''__'' ''.'' (sample_name sample) in
      if restrict_to_samples \<noteq> [] \<and> nm \<notin> set restrict_to_samples then Inr w
      else
        (let dst_sample_dir = path_join dst_project_dir nm;
             fs1 = ensure_dir dst_sample_dir (w_fs w)
         in case add_sample project_obj nm nm (w_heap w) of
              Inl e \<Rightarrow> Inl e
            | Inr (sample_obj, h1) \<Rightarrow>
                (let dst_sample_fcid_dir = path_join dst_sample_dir (fc_run_id fcs);
                     fs2 = ensure_dir dst_sample_fcid_dir fs1
                 in case add_fcid sample_obj (fc_run_id fcs) (fc_run_id fcs) h1 of
                      Inl e \<Rightarrow> Inl e
                    | Inr (fcid_obj, h2) \<Rightarrow>
                        (let src_sample_dir =
                               path_join (path_join (path_join (fc_dir fcs) (data_dir project))
                                            (project_dir project)) (sample_dir sample)
                         in case do_rsync ev (map (path_join src_sample_dir) (files sample))
                                   dst_sample_fcid_dir fs2 of
                              Inl e \<Rightarrow> Inl e
                            | Inr (sample_files, fs3) \<Rightarrow>
                                (case add_fastq_files fcid_obj
                                        (PyList (map PyStr (filter fastq_pattern_match (files sample)))) h2 of
                                   Inl e \<Rightarrow> Inl e
                                 | Inr h3 \<Rightarrow> Inr \<lparr>w_fs = fs3, w_heap = h3\<rparr>)))))"

fun setup_samples :: "env \<Rightarrow> run_description \<Rightarrow> project_description \<Rightarrow> string \<Rightarrow> addr
                        \<Rightarrow> string list \<Rightarrow> sample_description list \<Rightarrow> world \<Rightarrow> error + world" where
  "setup_samples ev fcs project dst_project_dir project_obj rs [] w = Inr w"
| "setup_samples ev fcs project dst_project_dir project_obj rs (sample # rest) w =
     (case setup_sample ev fcs project dst_project_dir project_obj rs sample w of
        Inl e \<Rightarrow> Inl e
      | Inr w1 \<Rightarrow> setup_samples ev fcs project dst_project_dir project_obj rs rest w1)"

text \<open>
  The body of the loop over the projects. Subscripting the list \<^verbatim>\<open>[]\<close> with the
  directory name raises \<^verbatim>\<open>TypeError\<close>, which \<^verbatim>\<open>except KeyError\<close> does not catch.
\<close>

definition setup_project :: "env \<Rightarrow> run_description \<Rightarrow> string \<Rightarrow> string list \<Rightarrow> string list
                               \<Rightarrow> project_description \<Rightarrow> projects_val \<times> world
                               \<Rightarrow> error + (projects_val \<times> world)" where
  "setup_project ev fcs analysis_top_dir restrict_to_projects restrict_to_samples project st =
     (let projects_to_analyze = fst st; w = snd st in
      if restrict_to_projects \<noteq> [] \<and> project_name project \<notin> set restrict_to_projects then Inr st
      else
        (let dst_project_dir = path_join analysis_top_dir (project_name project);
             fs1 = ensure_dir dst_project_dir (w_fs w)
         in case projects_to_analyze of
              ProjList xs \<Rightarrow> Inl (TypeError ''list indices must be integers, not str'')
            | ProjDict d \<Rightarrow>
                (let (project_obj, d1, h1) =
                       (case map_of d dst_project_dir of
                          Some a \<Rightarrow> (a, d, w_heap w)
                        | None \<Rightarrow>
                            (let (a, h) = heap_alloc (NGIProject_init (project_name project)
                                                        (project_name project) analysis_top_dir) (w_heap w)
                             in (a, d @ [(dst_project_dir, a)], h)))
                 in case setup_samples ev fcs project dst_project_dir project_obj restrict_to_samples
                           (samples project) \<lparr>w_fs = fs1, w_heap = h1\<rparr> of
                      Inl e \<Rightarrow> Inl e
                    | Inr w1 \<Rightarrow> Inr (ProjDict d1, w1))))"

fun setup_projects :: "env \<Rightarrow> run_description \<Rightarrow> string \<Rightarrow> string list \<Rightarrow> string list
                         \<Rightarrow> project_description list \<Rightarrow> projects_val \<times> world
                         \<Rightarrow> error + (projects_val \<times> world)" where
  "setup_projects ev fcs analysis_top_dir rp rs [] st = Inr st"
| "setup_projects ev fcs analysis_top_dir rp rs (project # rest) st =
     (case setup_project ev fcs analysis_top_dir rp rs project st of
        Inl e \<Rightarrow> Inl e
      | Inr st1 \<Rightarrow> setup_projects ev fcs analysis_top_dir rp rs rest st1)"

text \<open>
  The part of \<^verbatim>\<open>setup_analysis_directory_structure\<close> that follows the parsing: the basecall
  statistics are copied, then the projects are gone through.
\<close>

definition reconcile :: "env \<Rightarrow> run_description \<Rightarrow> string \<Rightarrow> string list \<Rightarrow> string list
                           \<Rightarrow> projects_val \<times> world \<Rightarrow> error + (projects_val \<times> world)" where
  "reconcile ev fcs analysis_top_dir restrict_to_projects restrict_to_samples st =
     (let projects_to_analyze = fst st; w = snd st in
      case copy_basecall_stats ev (map (path_join (fc_dir fcs)) (basecall_stats_dir fcs))
             analysis_top_dir (w_fs w) of
        Inl e \<Rightarrow> Inl e
      | Inr fs1 \<Rightarrow>
          setup_projects ev fcs analysis_top_dir restrict_to_projects restrict_to_samples
            (projects fcs) (projects_to_analyze, w\<lparr>w_fs := fs1\<rparr>))"

text \<open>
  \<^verbatim>\<open>setup_analysis_directory_structure\<close>. The configuration is a dict of dicts; the two
  restrictions are lists or \<^verbatim>\<open>None\<close>. Both early returns give the list \<^verbatim>\<open>[]\<close>; an
  exception of the parser other than \<^verbatim>\<open>RuntimeError\<close> is not caught.
\<close>

definition setup_analysis_directory_structure ::
  "env \<Rightarrow> string \<Rightarrow> (string \<rightharpoonup> (string \<rightharpoonup> string)) \<Rightarrow> string list option \<Rightarrow> string list option
     \<Rightarrow> projects_val \<times> world \<Rightarrow> error + (projects_val \<times> world)" where
  "setup_analysis_directory_structure ev fc_dir_arg config restrict_to_projects restrict_to_samples st =
     (let projects_to_analyze = fst st; w = snd st;
          rp = (case restrict_to_projects of None \<Rightarrow> [] | Some l \<Rightarrow> l);
          rs = (case restrict_to_samples of None \<Rightarrow> [] | Some l \<Rightarrow> l)
      in case config ''analysis'' of
           None \<Rightarrow> Inl (KeyError ''analysis'')
         | Some analysis \<Rightarrow>
             (case analysis ''top_dir'' of
                None \<Rightarrow> Inl (KeyError ''top_dir'')
              | Some top_dir \<Rightarrow>
                  (let analysis_top_dir = abspath ev top_dir in
                   if \<not> path_exists (w_fs w) analysis_top_dir
                   then Inl (OSError (''Error: Analysis top directory '' @ analysis_top_dir @ '' does not exist''))
                   else if \<not> path_exists (w_fs w) fc_dir_arg then Inr (ProjList [], w)
                   else (case parse_casava_directory ev (w_fs w) fc_dir_arg of
                           Inl (RuntimeError msg) \<Rightarrow> Inr (ProjList [], w)
                         | Inl e \<Rightarrow> Inl e
                         | Inr fcs \<Rightarrow> reconcile ev fcs analysis_top_dir rp rs (projects_to_analyze, w)))))"

text \<open>
  The loop of \<^verbatim>\<open>main\<close> over the flowcell directories, in the order in which the set
  gives them:
  \<^verbatim>\<open>
  projects_to_analyze = dict()
  for demux_fcid_dir in demux_fcid_dirs_set:
      projects_to_analyze = setup_analysis_directory_structure(demux_fcid_dir, config,
                                projects_to_analyze, restrict_to_projects, restrict_to_samples)
  \<close>
\<close>

fun main_loop :: "env \<Rightarrow> (string \<rightharpoonup> (string \<rightharpoonup> string)) \<Rightarrow> string list option \<Rightarrow> string list option
                    \<Rightarrow> string list \<Rightarrow> projects_val \<times> world \<Rightarrow> error + (projects_val \<times> world)" where
  "main_loop ev config rp rs [] st = Inr st"
| "main_loop ev config rp rs (demux_fcid_dir # rest) st =
     (case setup_analysis_directory_structure ev demux_fcid_dir config rp rs st of
        Inl e \<Rightarrow> Inl e
      | Inr st1 \<Rightarrow> main_loop ev config rp rs rest st1)"

section \<open>What the specification says of the names\<close>

text \<open>
  The normalisation as the specification words it: the prefix is stripped, and every
  double underscore becomes a dot.
\<close>

definition claimed_normalize :: "string \<Rightarrow> string \<Rightarrow> string" where
  "claimed_normalize prefix_text base = py_replace ''__'' ''.'' (drop (length prefix_text) base)"

section \<open>Sample directories without a single samplesheet\<close>

definition bad_sample :: "env \<Rightarrow> filesystem \<Rightarrow> string \<Rightarrow> bool" where
  "bad_sample ev fs sample_dir_path = (length (samplesheets ev fs sample_dir_path) \<noteq> 1)"

definition assertion_message :: "string \<Rightarrow> string" where
  "assertion_message d = ''Error: could not unambiguously locate samplesheet in '' @ d"

text \<open>Every project and sample directory of the tree can be logged.\<close>

definition tree_loggable :: "env \<Rightarrow> filesystem \<Rightarrow> string \<Rightarrow> bool" where
  "tree_loggable ev fs fc_dir_path =
     list_all (\<lambda>pd. log_name_ok fc_dir_path pd \<and> list_all (log_name_ok fc_dir_path) (sample_dirs ev fs pd))
       (project_dirs ev fs fc_dir_path)"

section \<open>Auxiliary notions for the reconciler\<close>

text \<open>
  What the body of the sample loop does to the object store: the Sample is fetched or
  made, then the Run, then the sequence files are added to the Run.
\<close>

definition sample_heap_effect :: "addr \<Rightarrow> string \<Rightarrow> string \<Rightarrow> string list \<Rightarrow> heap \<Rightarrow> error + heap" where
  "sample_heap_effect project_obj nm run_id fl h =
     (case add_sample project_obj nm nm h of
        Inl e \<Rightarrow> Inl e
      | Inr (sample_obj, h1) \<Rightarrow>
          (case add_fcid sample_obj run_id run_id h1 of
             Inl e \<Rightarrow> Inl e
           | Inr (fcid_obj, h2) \<Rightarrow>
               add_fastq_files fcid_obj (PyList (map PyStr (filter fastq_pattern_match fl))) h2))"

text \<open>The transfer never exits with an error.\<close>

definition transfers_succeed :: "env \<Rightarrow> bool" where
  "transfers_succeed ev = (\<forall>srcs dst fs. transfer ev srcs dst fs \<noteq> None)"

text \<open>The part of the sequence file pattern that follows the leading \<^verbatim>\<open>.*\<close>.\<close>

definition fastq_tail :: "string \<Rightarrow> unit option" where
  "fastq_tail = (re_lit ''.'' \<circ> re_alt (re_lit ''fastq'') (re_lit ''fq'') \<circ>
       re_opt (re_alt (re_lit ''.gz'') (re_alt (re_lit ''.gzip'') (re_lit ''.bz2''))) \<circ>
       re_eol) (re_accept ())"

text \<open>The child that the dict of an object binds to a name, if any.\<close>

definition child_of :: "heap \<Rightarrow> addr \<Rightarrow> string \<Rightarrow> addr option" where
  "child_of h a nm = (case subitems (cells h a) of SubDict d \<Rightarrow> map_of d nm | SubList fs \<Rightarrow> None)"

text \<open>Every child that an allocated object names is itself allocated.\<close>

definition heap_closed :: "heap \<Rightarrow> bool" where
  "heap_closed h =
     list_all (\<lambda>a. case subitems (cells h a) of
                      SubDict d \<Rightarrow> list_all (\<lambda>c. c < next_free h) (map snd d)
                    | SubList fs \<Rightarrow> True)
       [0 ..< next_free h]"

text \<open>
  The store \<open>h'\<close> extends \<open>h\<close>: no allocated object is lost, and the dict or the list of
  each has only grown at its end.
\<close>

definition grown :: "subitems_val \<Rightarrow> subitems_val \<Rightarrow> bool" where
  "grown x y = (case x of
                  SubDict d \<Rightarrow> (case y of SubDict d' \<Rightarrow> take (length d) d' = d | SubList fs' \<Rightarrow> False)
                | SubList fs \<Rightarrow> (case y of SubDict d' \<Rightarrow> False | SubList fs' \<Rightarrow> take (length fs) fs' = fs))"

definition heap_ext :: "heap \<Rightarrow> heap \<Rightarrow> bool" where
  "heap_ext h h' =
     (next_free h \<le> next_free h'
      \<and> list_all (\<lambda>a. grown (subitems (cells h a)) (subitems (cells h' a))) [0 ..< next_free h])"

text \<open>
  The Sample \<open>nm\<close> is under the Project at \<open>po\<close>, the Run \<open>rid\<close> is under that Sample, and
  the file list of the Run holds every file of \<open>fl\<close>.
\<close>

definition sample_present :: "heap \<Rightarrow> addr \<Rightarrow> string \<Rightarrow> string \<Rightarrow> string list \<Rightarrow> bool" where
  "sample_present h po nm rid fl =
     (case child_of h po nm of
        None \<Rightarrow> False
      | Some so \<Rightarrow>
          (case child_of h so rid of
             None \<Rightarrow> False
           | Some fo \<Rightarrow> is_run h fo \<and> list_all (\<lambda>f. PyStr f \<in> set (fastqs h fo)) fl))"

section \<open>Example data\<close>

text \<open>The store before any object is made; a cell that was never allocated is never read.\<close>

definition empty_heap :: heap where
  "empty_heap = \<lparr>cells = (\<lambda>a. NGIFCID_init [] []), next_free = 0\<rparr>"


text \<open>A store with a Project at address 0 that owns the Sample \<open>S1\<close> at address 1.\<close>

definition example_project_heap :: heap where
  "example_project_heap =
     (case add_sample 0 ''S1'' ''S1'' (snd (heap_alloc (NGIProject_init ''A_13_02'' ''A_13_02'' ''/a'') empty_heap)) of
        Inr (child, h) \<Rightarrow> h
      | Inl e \<Rightarrow> empty_heap)"

text \<open>
  Two flowcell directories \<^verbatim>\<open>/s/r1\<close> and \<^verbatim>\<open>/s/r2\<close> with the same project and sample, sequenced
  on two dates, each with two sequence files and a samplesheet, and the analysis
  directory \<^verbatim>\<open>/a\<close>. The transfer copies every source file into the destination
  directory.
\<close>

definition example_env :: env where
  "example_env =
     \<lparr>abspath = (\<lambda>p. p),
      run_metrics =
        (\<lambda>d. if d = ''/s/r1'' then Inr ([''Flowcell'' \<mapsto> ''H8AMJADXX'', ''Date'' \<mapsto> ''140220''],
                                        [''FCPosition'' \<mapsto> ''A''])
              else if d = ''/s/r2'' then Inr ([''Flowcell'' \<mapsto> ''H8AMJADXX'', ''Date'' \<mapsto> ''140221''],
                                             [''FCPosition'' \<mapsto> ''B''])
              else if d = ''/s/r3'' then Inr ([''Flowcell'' \<mapsto> ''C2PUYACXX'', ''Date'' \<mapsto> ''131030''],
                                             [''FCPosition'' \<mapsto> ''B''])
              else Inl (RuntimeError ''no run metrics'')),
      transfer =
        (\<lambda>srcs dst fs. Some (fs\<lparr>fs_files := fs_files fs @ map (\<lambda>f. path_join dst (path_basename f)) srcs\<rparr>)),
      glob_other = (\<lambda>fs d pat. []),
      fsencode = map char_of\<rparr>"

definition example_fs :: filesystem where
  "example_fs =
     \<lparr>fs_dirs = [''/a'', ''/s'', ''/s/r1'', ''/s/r1/Unaligned'', ''/s/r1/Unaligned/Project_A_13_02'',
                 ''/s/r1/Unaligned/Project_A_13_02/Sample_S1'',
                 ''/s/r2'', ''/s/r2/Unaligned'', ''/s/r2/Unaligned/Project_A_13_02'',
                 ''/s/r2/Unaligned/Project_A_13_02/Sample_S1''],
      fs_files = [''/s/r1/Unaligned/Project_A_13_02/Sample_S1/x_1.fastq.gz'',
                  ''/s/r1/Unaligned/Project_A_13_02/Sample_S1/x_2.fastq.gz'',
                  ''/s/r1/Unaligned/Project_A_13_02/Sample_S1/S.csv'',
                  ''/s/r2/Unaligned/Project_A_13_02/Sample_S1/z_1.fastq.gz'',
                  ''/s/r2/Unaligned/Project_A_13_02/Sample_S1/z_2.fastq.gz'',
                  ''/s/r2/Unaligned/Project_A_13_02/Sample_S1/S.csv'']\<rparr>"

text \<open>
  A flowcell directory \<^verbatim>\<open>/s/r3\<close> whose project has a good sample \<^verbatim>\<open>Sample_S1\<close> and a sample
  \<^verbatim>\<open>Sample_S2\<close> without a samplesheet.
\<close>

definition example_bad_fs :: filesystem where
  "example_bad_fs =
     \<lparr>fs_dirs = [''/s'', ''/s/r3'', ''/s/r3/Unaligned'', ''/s/r3/Unaligned/Project_A'',
                 ''/s/r3/Unaligned/Project_A/Sample_S1'', ''/s/r3/Unaligned/Project_A/Sample_S2''],
      fs_files = [''/s/r3/Unaligned/Project_A/Sample_S1/v_1.fastq.gz'',
                  ''/s/r3/Unaligned/Project_A/Sample_S1/S.csv'',
                  ''/s/r3/Unaligned/Project_A/Sample_S2/y_1.fastq.gz'']\<rparr>"

definition example_config :: "string \<rightharpoonup> (string \<rightharpoonup> string)" where
  "example_config = [''analysis'' \<mapsto> [''top_dir'' \<mapsto> ''/a'']]"

definition example_world :: world where
  "example_world = \<lparr>w_fs = example_fs, w_heap = empty_heap\<rparr>"

text \<open>A directory with one sequence file whose name has no read indicator.\<close>

definition example_pair_fs :: filesystem where
  "example_pair_fs = \<lparr>fs_dirs = [''/d''], fs_files = [''/d/sample.fastq'']\<rparr>"

text \<open>
  The RunDescriptions of \<^verbatim>\<open>/s/r1\<close> and \<^verbatim>\<open>/s/r2\<close>: one project \<^verbatim>\<open>Project_A_13_02\<close> with one
  sample \<^verbatim>\<open>Sample_S1\<close>, and a project without samples.
\<close>

definition example_sample :: sample_description where
  "example_sample =
     \<lparr>sample_dir = ''Sample_S1'', sample_name = ''S1'',
      files = [''x_1.fastq.gz'', ''x_2.fastq.gz''], samplesheet = ''S.csv''\<rparr>"

definition example_project :: project_description where
  "example_project =
     \<lparr>data_dir = ''Unaligned'', project_dir = ''Project_A_13_02'', project_name = ''A_13_02'',
      samples = [example_sample]\<rparr>"

definition example_rd1 :: run_description where
  "example_rd1 =
     \<lparr>fc_dir = ''/s/r1'', fc_name = ''AH8AMJADXX'', fc_date = ''140220'', basecall_stats_dir = [],
      projects = [example_project]\<rparr>"

definition example_rd2 :: run_description where
  "example_rd2 =
     \<lparr>fc_dir = ''/s/r2'', fc_name = ''BH8AMJADXX'', fc_date = ''140221'', basecall_stats_dir = [],
      projects =
        [\<lparr>data_dir = ''Unaligned'', project_dir = ''Project_A_13_02'', project_name = ''A_13_02'',
          samples =
            [\<lparr>sample_dir = ''Sample_S1'', sample_name = ''S1'',
              files = [''z_1.fastq.gz'', ''z_2.fastq.gz''], samplesheet = ''S.csv''\<rparr>]\<rparr>]\<rparr>"

definition example_empty_project :: project_description where
  "example_empty_project =
     \<lparr>data_dir = ''Unaligned'', project_dir = ''Project_B'', project_name = ''B'', samples = []\<rparr>"

section \<open>Properties of the hierarchy\<close>




text \<open>
  C3. On every node whose children are kept in a dict (a Project, a Sample), inserting a
  child under a name that is already bound returns the address of the child bound to
  that name, and the store is the one before the call: no entry is added, and no object,
  the existing child and the file lists of its Runs included, is changed.
\<close>

theorem add_subitem_existing:
  assumes "subitems (cells h self) = SubDict d"
    and "map_of d nm = Some child"
  shows "add_subitem self nm dn h = Inr (child, h)"
  using assms by (simp add: add_subitem_def)

theorem add_subitem_existing_witness:
  "subitems (cells example_project_heap 0) = SubDict [(''S1'', 1)]
   \<and> map_of [(''S1'', 1 :: addr)] ''S1'' = Some 1
   \<and> add_sample 0 ''S1'' ''another_dirname'' example_project_heap = Inr (1, example_project_heap)"
proof -
  have d: "subitems (cells example_project_heap 0) = SubDict [(''S1'', 1)]"
    by (simp add: example_project_heap_def add_subitem_def heap_alloc_def heap_update_def
          empty_heap_def NGIProject_init_def NGISample_init_def)
  have m: "map_of [(''S1'', 1 :: addr)] ''S1'' = Some 1"
    by simp
  from add_subitem_existing [OF d m, of "''another_dirname''"] d m
  show ?thesis by simp
qed

section \<open>Properties of the regular expressions\<close>

lemma re_class_simps:
  "re_class P k [] = None"
  "re_class P k (c # cs) = (if P c then k cs else None)"
  by (simp_all add: re_class_def)

lemma re_rep_Suc: "re_rep (Suc n) m k s = m (re_rep n m k) s"
  by (simp add: re_rep_def)

lemma re_rep_class:
  "re_rep n (re_class P) k s =
     (if n \<le> length s \<and> list_all P (take n s) then k (drop n s) else None)"
proof (induction n arbitrary: s)
  case 0
  then show ?case by (simp add: re_rep_def)
next
  case (Suc n)
  show ?case
    by (cases s) (simp_all add: re_rep_Suc re_class_simps Suc.IH)
qed

lemma re_group_rep_class:
  "re_group (re_rep n (re_class P)) k s =
     (if n \<le> length s \<and> list_all P (take n s) then k (take n s) (drop n s) else None)"
  by (simp add: re_group_def re_rep_class)

lemma re_group_class:
  "re_group (re_class P) k s =
     (if 1 \<le> length s \<and> list_all P (take 1 s) then k (take 1 s) (drop 1 s) else None)"
  by (cases s) (simp_all add: re_group_def re_class_simps)

lemma re_dotstar_accept: "re_dotstar (re_accept r) s = Some r"
  by (induction s) (auto simp: re_accept_def)

lemma re_dotstar_None_iff:
  "re_dotstar k s = None \<longleftrightarrow> (\<forall>i \<le> length s. newline \<notin> set (take i s) \<longrightarrow> k (drop i s) = None)"
proof (induction s)
  case Nil
  then show ?case by simp
next
  case (Cons c cs)
  show ?case
  proof (cases "c = newline")
    case True
    then show ?thesis
      apply (auto)
      subgoal for i by (cases i) auto
      done
  next
    case False
    have "(\<forall>i \<le> length (c # cs). newline \<notin> set (take i (c # cs)) \<longrightarrow> k (drop i (c # cs)) = None)
          \<longleftrightarrow> k (c # cs) = None \<and> (\<forall>i \<le> length cs. newline \<notin> set (take i cs) \<longrightarrow> k (drop i cs) = None)"
      (is "?L \<longleftrightarrow> ?R")
    proof
      assume L: ?L
      have "k (c # cs) = None" using L[rule_format, of 0] by simp
      moreover have "\<forall>i \<le> length cs. newline \<notin> set (take i cs) \<longrightarrow> k (drop i cs) = None"
        using L[rule_format, of "Suc i" for i] False by auto
      ultimately show ?R by simp
    next
      assume R: ?R
      show ?L
      proof (intro allI impI)
        fix i assume "i \<le> length (c # cs)" "newline \<notin> set (take i (c # cs))"
        then show "k (drop i (c # cs)) = None"
          using R by (cases i) auto
      qed
    qed
    then show ?thesis using False Cons by (auto split: option.splits)
  qed
qed

lemma re_dotstar_Some_iff:
  "re_dotstar k s = Some r \<longleftrightarrow>
     (\<exists>i \<le> length s. newline \<notin> set (take i s) \<and> k (drop i s) = Some r
         \<and> (\<forall>j. i < j \<and> j \<le> length s \<and> newline \<notin> set (take j s) \<longrightarrow> k (drop j s) = None))"
proof (induction s)
  case Nil
  then show ?case by simp
next
  case (Cons c cs)
  show ?case
  proof (cases "c = newline")
    case True
    show ?thesis
    proof
      assume "re_dotstar k (c # cs) = Some r"
      then have "k (c # cs) = Some r" using True by simp
      then show "\<exists>i \<le> length (c # cs). newline \<notin> set (take i (c # cs)) \<and> k (drop i (c # cs)) = Some r
         \<and> (\<forall>j. i < j \<and> j \<le> length (c # cs) \<and> newline \<notin> set (take j (c # cs)) \<longrightarrow> k (drop j (c # cs)) = None)"
        using True by (intro exI[of _ 0]) (auto simp: take_Cons')
    next
      assume "\<exists>i \<le> length (c # cs). newline \<notin> set (take i (c # cs)) \<and> k (drop i (c # cs)) = Some r
         \<and> (\<forall>j. i < j \<and> j \<le> length (c # cs) \<and> newline \<notin> set (take j (c # cs)) \<longrightarrow> k (drop j (c # cs)) = None)"
      then obtain i where i: "newline \<notin> set (take i (c # cs))" "k (drop i (c # cs)) = Some r" by blast
      then have "i = 0" using True by (cases i) auto
      then show "re_dotstar k (c # cs) = Some r" using i True by simp
    qed
  next
    case False
    show ?thesis
    proof (cases "re_dotstar k cs")
      case None
      then have N: "\<forall>i \<le> length cs. newline \<notin> set (take i cs) \<longrightarrow> k (drop i cs) = None"
        by (simp add: re_dotstar_None_iff)
      have eq: "re_dotstar k (c # cs) = k (c # cs)" using None False by simp
      show ?thesis
      proof
        assume "re_dotstar k (c # cs) = Some r"
        then have "k (c # cs) = Some r" using eq by simp
        moreover have "\<forall>j. 0 < j \<and> j \<le> length (c # cs) \<and> newline \<notin> set (take j (c # cs)) \<longrightarrow> k (drop j (c # cs)) = None"
        proof (intro allI impI)
          fix j assume "0 < j \<and> j \<le> length (c # cs) \<and> newline \<notin> set (take j (c # cs))"
          then show "k (drop j (c # cs)) = None" using N by (cases j) auto
        qed
        ultimately show "\<exists>i \<le> length (c # cs). newline \<notin> set (take i (c # cs)) \<and> k (drop i (c # cs)) = Some r
         \<and> (\<forall>j. i < j \<and> j \<le> length (c # cs) \<and> newline \<notin> set (take j (c # cs)) \<longrightarrow> k (drop j (c # cs)) = None)"
          by (intro exI[of _ 0]) simp
      next
        assume "\<exists>i \<le> length (c # cs). newline \<notin> set (take i (c # cs)) \<and> k (drop i (c # cs)) = Some r
         \<and> (\<forall>j. i < j \<and> j \<le> length (c # cs) \<and> newline \<notin> set (take j (c # cs)) \<longrightarrow> k (drop j (c # cs)) = None)"
        then obtain i where i: "i \<le> length (c # cs)" "newline \<notin> set (take i (c # cs))" "k (drop i (c # cs)) = Some r" by blast
        have "i = 0"
        proof (cases i)
          case 0 then show ?thesis .
        next
          case (Suc m)
          then have "k (drop m cs) = None" using N i by auto
          then show ?thesis using i Suc by simp
        qed
        then show "re_dotstar k (c # cs) = Some r" using i eq by simp
      qed
    next
      case (Some r')
      then have eq: "re_dotstar k (c # cs) = Some r'" using False by simp
      from Some Cons.IH[of ] have IH': "re_dotstar k cs = Some r \<longleftrightarrow> (\<exists>i \<le> length cs. newline \<notin> set (take i cs) \<and> k (drop i cs) = Some r
         \<and> (\<forall>j. i < j \<and> j \<le> length cs \<and> newline \<notin> set (take j cs) \<longrightarrow> k (drop j cs) = None))"
        using Cons.IH by blast
      show ?thesis
      proof
        assume "re_dotstar k (c # cs) = Some r"
        then have "re_dotstar k cs = Some r" using eq Some by simp
        then obtain i where i: "i \<le> length cs" "newline \<notin> set (take i cs)" "k (drop i cs) = Some r"
          "\<forall>j. i < j \<and> j \<le> length cs \<and> newline \<notin> set (take j cs) \<longrightarrow> k (drop j cs) = None"
          using IH' by blast
        have "\<forall>j. Suc i < j \<and> j \<le> length (c # cs) \<and> newline \<notin> set (take j (c # cs)) \<longrightarrow> k (drop j (c # cs)) = None"
        proof (intro allI impI)
          fix j assume "Suc i < j \<and> j \<le> length (c # cs) \<and> newline \<notin> set (take j (c # cs))"
          then show "k (drop j (c # cs)) = None" using i(4) by (cases j) auto
        qed
        then show "\<exists>i \<le> length (c # cs). newline \<notin> set (take i (c # cs)) \<and> k (drop i (c # cs)) = Some r
         \<and> (\<forall>j. i < j \<and> j \<le> length (c # cs) \<and> newline \<notin> set (take j (c # cs)) \<longrightarrow> k (drop j (c # cs)) = None)"
          using i False by (intro exI[of _ "Suc i"]) simp
      next
        assume "\<exists>i \<le> length (c # cs). newline \<notin> set (take i (c # cs)) \<and> k (drop i (c # cs)) = Some r
         \<and> (\<forall>j. i < j \<and> j \<le> length (c # cs) \<and> newline \<notin> set (take j (c # cs)) \<longrightarrow> k (drop j (c # cs)) = None)"
        then obtain i where i: "i \<le> length (c # cs)" "newline \<notin> set (take i (c # cs))" "k (drop i (c # cs)) = Some r"
          "\<forall>j. i < j \<and> j \<le> length (c # cs) \<and> newline \<notin> set (take j (c # cs)) \<longrightarrow> k (drop j (c # cs)) = None" by blast
        from Some obtain i' where i': "i' \<le> length cs" "newline \<notin> set (take i' cs)" "k (drop i' cs) \<noteq> None"
          using re_dotstar_None_iff[of k cs] by auto
        have "i \<noteq> 0"
        proof
          assume "i = 0"
          then have "k (drop (Suc i') (c # cs)) = None"
            using i(4)[rule_format, of "Suc i'"] i' False by simp
          then show False using i' by simp
        qed
        then obtain m where m: "i = Suc m" by (cases i) auto
        have "\<forall>j. m < j \<and> j \<le> length cs \<and> newline \<notin> set (take j cs) \<longrightarrow> k (drop j cs) = None"
        proof (intro allI impI)
          fix j assume "m < j \<and> j \<le> length cs \<and> newline \<notin> set (take j cs)"
          then show "k (drop j cs) = None" using i(4)[rule_format, of "Suc j"] m False by simp
        qed
        then have "re_dotstar k cs = Some r" using IH' i m by auto
        then show "re_dotstar k (c # cs) = Some r" using False by simp
      qed
    qed
  qed
qed


lemma re_lit_1: "re_lit [a] k s = (if take 1 s = [a] then k (drop 1 s) else None)"
  by (simp add: re_lit_def startswith_def)

lemma re_lit_2: "re_lit [a, b] k s = (if take 2 s = [a, b] then k (drop 2 s) else None)"
  by (simp add: re_lit_def startswith_def numeral_2_eq_2)


section \<open>Properties of the lane parser\<close>

lemma lane_pattern_sthlm_eq:
  "lane_pattern_sthlm s = (if sthlm_format s then Some (slice s 0 1) else None)"
  unfolding lane_pattern_sthlm_def sthlm_format_def slice_def
  by (auto simp add: re_group_class re_lit_1 re_rep_class re_dotstar_accept numeral_2_eq_2[symmetric])

lemma lane_token_k_eq:
  "lane_token_k t = (if 5 \<le> length t \<and> take 2 t = ''_L'' \<and> list_all is_digit (take 3 (drop 2 t))
                     then Some (take 3 (drop 2 t)) else None)"
  unfolding lane_token_k_def
  by (auto simp add: re_lit_2 re_group_rep_class re_dotstar_accept)

lemma lane_token_iff:
  "lane_token s i \<longleftrightarrow> i \<le> length s \<and> newline \<notin> set (take i s) \<and> lane_token_k (drop i s) \<noteq> None"
  by (auto simp: lane_token_def lane_token_k_eq slice_def)

lemma lane_pattern_illumina_k: "lane_pattern_illumina = re_dotstar lane_token_k"
  by (simp add: lane_pattern_illumina_def lane_token_k_def fun_eq_iff)

lemma lane_pattern_illumina_None:
  "lane_pattern_illumina s = None \<longleftrightarrow> (\<forall>i. \<not> lane_token s i)"
  unfolding lane_pattern_illumina_k re_dotstar_None_iff lane_token_iff
  by auto

lemma lane_pattern_illumina_last:
  assumes "lane_token s i" and "\<forall>j. lane_token s j \<longrightarrow> j \<le> i"
  shows "lane_pattern_illumina s = Some (slice s (i + 2) 3)"
proof -
  from assms(1) have i: "i \<le> length s" "newline \<notin> set (take i s)"
    and k: "lane_token_k (drop i s) = Some (slice s (i + 2) 3)"
    by (auto simp: lane_token_def lane_token_k_eq slice_def add.commute)
  have later: "\<forall>j. i < j \<and> j \<le> length s \<and> newline \<notin> set (take j s) \<longrightarrow> lane_token_k (drop j s) = None"
  proof (intro allI impI)
    fix j assume j: "i < j \<and> j \<le> length s \<and> newline \<notin> set (take j s)"
    show "lane_token_k (drop j s) = None"
    proof (rule ccontr)
      assume "lane_token_k (drop j s) \<noteq> None"
      with j have "lane_token s j" by (simp add: lane_token_iff)
      with assms(2) j show False by auto
    qed
  qed
  show ?thesis
    unfolding lane_pattern_illumina_k re_dotstar_Some_iff
    using i k later by blast
qed

lemma slice_occurs: "slice s i (length p) = p \<Longrightarrow> i + length p \<le> length s \<Longrightarrow> occurs p s"
proof (induction s arbitrary: i)
  case Nil
  then show ?case by (simp add: slice_def)
next
  case (Cons c cs)
  show ?case
  proof (cases i)
    case 0
    with Cons.prems show ?thesis by (simp add: slice_def startswith_def)
  next
    case (Suc j)
    with Cons.prems have "slice cs j (length p) = p" "j + length p \<le> length cs"
      by (simp_all add: slice_def)
    then have "occurs p cs" by (rule Cons.IH)
    then show ?thesis by simp
  qed
qed

lemma lane_token_occurs: "lane_token s j \<Longrightarrow> n \<le> j \<Longrightarrow> occurs ''_L'' (drop n s)"
proof -
  assume a: "lane_token s j" "n \<le> j"
  then have "slice (drop n s) (j - n) (length ''_L'') = ''_L''" "(j - n) + length ''_L'' \<le> length (drop n s)"
    by (auto simp: lane_token_def slice_def numeral_2_eq_2)
  then show ?thesis by (rule slice_occurs)
qed

lemma claimed_lane_token_occurs: "claimed_lane_token s j \<Longrightarrow> occurs ''_L'' s"
proof -
  assume a: "claimed_lane_token s j"
  then have "slice s j (length ''_L'') = ''_L''" "j + length ''_L'' \<le> length s"
    by (auto simp: claimed_lane_token_def slice_def numeral_2_eq_2)
  then show ?thesis by (rule slice_occurs)
qed

lemmas char_class_defs = is_digit_def is_word_def is_alnum_def is_upper_def is_lower_def
lemmas lane_eval = parse_lane_from_filename_def lane_pattern_sthlm_def lane_pattern_illumina_def
      re_group_def re_class_def re_lit_def re_rep_def re_accept_def startswith_def
      newline_def eval_nat_numeral

text \<open>
  C7 (as amended). The lane parser first tries the pattern
  \<^verbatim>\<open><lane digit>_<6 digits>_<10 word characters>_P<3 digits>_<3 digits>...\<close> at the start of the
  name, where a word character is a letter, a digit or an underscore, and returns the lane
  digit. Otherwise it returns the three digits of the last \<^verbatim>\<open>_L###\<close> token that has no
  newline before it. A name with neither raises \<^verbatim>\<open>ValueError\<close>. The two names of the
  specification give lane \<^verbatim>\<open>1\<close> and lane \<^verbatim>\<open>001\<close>.
\<close>

theorem parse_lane_from_filename_conventions:
  "(sthlm_format s \<longrightarrow> parse_lane_from_filename s = Inr (slice s 0 1))
   \<and> (\<not> sthlm_format s \<and> lane_token s i \<and> (\<forall>j. lane_token s j \<longrightarrow> j \<le> i)
        \<longrightarrow> parse_lane_from_filename s = Inr (slice s (i + 2) 3))
   \<and> (\<not> sthlm_format s \<and> (\<forall>j. \<not> lane_token s j)
        \<longrightarrow> (\<exists>msg. parse_lane_from_filename s = Inl (ValueError msg)))
   \<and> parse_lane_from_filename ''1_140220_AH8AMJADXX_P673_101_1.fastq.gz'' = Inr ''1''
   \<and> parse_lane_from_filename ''P567_102_AAAAAA_L001_R1_001.fastq.gz'' = Inr ''001''"
proof (intro conjI impI)
  assume "sthlm_format s"
  then show "parse_lane_from_filename s = Inr (slice s 0 1)"
    by (simp add: parse_lane_from_filename_def lane_pattern_sthlm_eq)
next
  assume a: "\<not> sthlm_format s \<and> lane_token s i \<and> (\<forall>j. lane_token s j \<longrightarrow> j \<le> i)"
  then have "lane_pattern_illumina s = Some (slice s (i + 2) 3)"
    using lane_pattern_illumina_last by blast
  with a show "parse_lane_from_filename s = Inr (slice s (i + 2) 3)"
    by (simp add: parse_lane_from_filename_def lane_pattern_sthlm_eq)
next
  assume a: "\<not> sthlm_format s \<and> (\<forall>j. \<not> lane_token s j)"
  then have "lane_pattern_illumina s = None"
    by (simp add: lane_pattern_illumina_None)
  with a show "\<exists>msg. parse_lane_from_filename s = Inl (ValueError msg)"
    by (simp add: parse_lane_from_filename_def lane_pattern_sthlm_eq)
next
  show "parse_lane_from_filename ''1_140220_AH8AMJADXX_P673_101_1.fastq.gz'' = Inr ''1''"
    by (simp add: lane_eval char_class_defs)
next
  show "parse_lane_from_filename ''P567_102_AAAAAA_L001_R1_001.fastq.gz'' = Inr ''001''"
    by (simp add: lane_eval char_class_defs)
qed


theorem parse_lane_from_filename_conventions_witness:
  "sthlm_format ''1_140220_AH8AMJADXX_P673_101_1.fastq.gz''
   \<and> parse_lane_from_filename ''1_140220_AH8AMJADXX_P673_101_1.fastq.gz'' = Inr ''1''
   \<and> \<not> sthlm_format ''P567_102_AAAAAA_L001_R1_001.fastq.gz''
   \<and> lane_token ''P567_102_AAAAAA_L001_R1_001.fastq.gz'' 15
   \<and> parse_lane_from_filename ''P567_102_AAAAAA_L001_R1_001.fastq.gz'' = Inr ''001''
   \<and> \<not> sthlm_format ''sample.fastq.gz''
   \<and> (\<exists>msg. parse_lane_from_filename ''sample.fastq.gz'' = Inl (ValueError msg))"
proof -
  let ?A = "''1_140220_AH8AMJADXX_P673_101_1.fastq.gz''"
  let ?B = "''P567_102_AAAAAA_L001_R1_001.fastq.gz''"
  let ?C = "''sample.fastq.gz''"
  have a: "sthlm_format ?A"
    by (simp add: sthlm_format_def slice_def char_class_defs)
  have b1: "\<not> sthlm_format ?B"
    by (simp add: sthlm_format_def slice_def char_class_defs)
  have b2: "lane_token ?B 15"
    by (simp add: lane_token_def slice_def char_class_defs newline_def)
  have b3: "\<forall>j. lane_token ?B j \<longrightarrow> j \<le> 15"
  proof (intro allI impI)
    fix j assume t: "lane_token ?B j"
    show "j \<le> 15"
    proof (rule ccontr)
      assume "\<not> j \<le> 15"
      then have "16 \<le> j" by simp
      with t have "occurs ''_L'' (drop 16 ?B)" by (rule lane_token_occurs)
      then show False by (simp add: startswith_def)
    qed
  qed
  have c1: "\<not> sthlm_format ?C"
    by (simp add: sthlm_format_def)
  have c2: "\<forall>j. \<not> lane_token ?C j"
  proof (intro allI notI)
    fix j assume t: "lane_token ?C j"
    then have "occurs ''_L'' (drop 0 ?C)" by (rule lane_token_occurs) simp
    then show False by (simp add: startswith_def)
  qed
  from parse_lane_from_filename_conventions [of ?A 0] parse_lane_from_filename_conventions [of ?B 15]
       parse_lane_from_filename_conventions [of ?C 0] a b1 b2 b3 c1 c2
  show ?thesis by (simp add: slice_def)
qed


text \<open>
  C7 as the specification states it fails: in the name below the run code holds an
  underscore, so the name matches neither convention as worded (ten alphanumeric
  characters; an \<^verbatim>\<open>_L###\<close> token), and yet the parser returns lane \<^verbatim>\<open>1\<close> instead of
  raising \<^verbatim>\<open>ValueError\<close>.
\<close>

theorem lane_underscore_counterexample:
  "\<not> claimed_sthlm_format ''1_140220_AH8_MJADXX_P673_101_1.fastq.gz''
   \<and> (\<forall>i. \<not> claimed_lane_token ''1_140220_AH8_MJADXX_P673_101_1.fastq.gz'' i)
   \<and> parse_lane_from_filename ''1_140220_AH8_MJADXX_P673_101_1.fastq.gz'' = Inr ''1''"
proof (intro conjI allI)
  show "\<not> claimed_sthlm_format ''1_140220_AH8_MJADXX_P673_101_1.fastq.gz''"
    by (simp add: claimed_sthlm_format_def slice_def char_class_defs)
next
  fix i
  have "\<not> occurs ''_L'' ''1_140220_AH8_MJADXX_P673_101_1.fastq.gz''"
    by (simp add: startswith_def)
  then show "\<not> claimed_lane_token ''1_140220_AH8_MJADXX_P673_101_1.fastq.gz'' i"
    using claimed_lane_token_occurs by blast
next
  show "parse_lane_from_filename ''1_140220_AH8_MJADXX_P673_101_1.fastq.gz'' = Inr ''1''"
    by (simp add: lane_eval char_class_defs)
qed

section \<open>Properties of the name normalisation\<close>

lemma py_replace_no_occurrence:
  "\<not> occurs old s \<Longrightarrow> py_replace old new s = s"
  by (induction s) auto

lemma startswith_append: "startswith old (old @ rest)"
  by (simp add: startswith_def)

lemma py_replace_prefix:
  "old \<noteq> [] \<Longrightarrow> py_replace old new (old @ rest) = new @ py_replace old new rest"
proof -
  assume ne: "old \<noteq> []"
  then obtain c cs where c: "old @ rest = c # cs" by (cases old) auto
  have "startswith old (c # cs)" using c startswith_append[of old rest] by simp
  moreover have "drop (length old) (c # cs) = rest" using c[symmetric] by simp
  ultimately show ?thesis using ne c by simp
qed

lemma startswith_butlast:
  assumes "old \<noteq> []"
  shows "startswith old (c # a @ old @ b) = startswith old (c # a @ butlast old)"
proof -
  have "c # a @ old @ b = (c # a @ butlast old) @ (last old # b)"
    using assms by simp
  moreover have "length old \<le> length (c # a @ butlast old)" by simp
  ultimately have "take (length old) (c # a @ old @ b) = take (length old) (c # a @ butlast old)"
    by (metis take_append diff_is_0_eq' take_0 append_Nil2)
  then show ?thesis by (simp only: startswith_def)
qed

lemma py_replace_first:
  "old \<noteq> [] \<Longrightarrow> \<not> occurs old (a @ butlast old)
     \<Longrightarrow> py_replace old new (a @ old @ b) = a @ new @ py_replace old new b"
proof (induction a)
  case Nil
  then show ?case using py_replace_prefix[of old new b] by simp
next
  case (Cons c a)
  have n: "\<not> startswith old (c # a @ butlast old)" and r: "\<not> occurs old (a @ butlast old)"
    using Cons.prems(2) by auto
  have "\<not> startswith old (c # a @ old @ b)"
    using n startswith_butlast[OF Cons.prems(1)] by simp
  then have "py_replace old new ((c # a) @ old @ b) = c # py_replace old new (a @ old @ b)"
    by simp
  then show ?case using Cons.IH[OF Cons.prems(1) r] by simp
qed

lemma py_replace_parts:
  "old \<noteq> [] \<Longrightarrow> list_all (\<lambda>p. \<not> occurs old (p @ butlast old)) parts \<Longrightarrow> \<not> occurs old end_part
     \<Longrightarrow> py_replace old new (concat (map (\<lambda>p. p @ old) parts) @ end_part)
           = concat (map (\<lambda>p. p @ new) parts) @ end_part"
proof (induction parts)
  case Nil
  then show ?case by (simp add: py_replace_no_occurrence)
next
  case (Cons p parts)
  have p: "\<not> occurs old (p @ butlast old)" and ps: "list_all (\<lambda>p. \<not> occurs old (p @ butlast old)) parts"
    using Cons.prems(2) by auto
  have "py_replace old new (p @ old @ (concat (map (\<lambda>p. p @ old) parts) @ end_part))
          = p @ new @ py_replace old new (concat (map (\<lambda>p. p @ old) parts) @ end_part)"
    by (rule py_replace_first[OF Cons.prems(1) p])
  then show ?case using Cons.IH[OF Cons.prems(1) ps Cons.prems(3)] by simp
qed

lemma startswith_length: "startswith old s \<Longrightarrow> length old \<le> length s"
proof -
  assume "startswith old s"
  then have "length (take (length old) s) = length old" by (simp add: startswith_def)
  then show ?thesis by simp
qed

lemma occurs_length: "occurs old s \<Longrightarrow> length old \<le> length s"
proof (induction s)
  case Nil
  then show ?case by simp
next
  case (Cons c cs)
  then show ?case using startswith_length[of old "c # cs"] by auto
qed

lemma occurs_first:
  "old \<noteq> [] \<Longrightarrow> occurs old s \<Longrightarrow> \<exists>a b. s = a @ old @ b \<and> \<not> occurs old (a @ butlast old)"
proof (induction s)
  case Nil
  then show ?case by simp
next
  case (Cons c cs)
  show ?case
  proof (cases "startswith old (c # cs)")
    case True
    then have "c # cs = [] @ old @ drop (length old) (c # cs)"
      by (simp add: startswith_def) (metis append_take_drop_id)
    moreover have "\<not> occurs old ([] @ butlast old)"
      using occurs_length[of old "butlast old"] Cons.prems(1) by (auto simp: neq_Nil_conv)
    ultimately show ?thesis by blast
  next
    case False
    then have "occurs old cs" using Cons.prems(2) by simp
    then obtain a b where ab: "cs = a @ old @ b" "\<not> occurs old (a @ butlast old)"
      using Cons.IH[OF Cons.prems(1)] by blast
    have "\<not> startswith old (c # a @ butlast old)"
      using False ab(1) startswith_butlast[OF Cons.prems(1), of c a b] by simp
    then have "\<not> occurs old ((c # a) @ butlast old)" using ab(2) by simp
    moreover have "c # cs = (c # a) @ old @ b" using ab(1) by simp
    ultimately show ?thesis by blast
  qed
qed

lemma py_replace_decomposition:
  "old \<noteq> [] \<Longrightarrow> \<exists>parts end_part. s = concat (map (\<lambda>p. p @ old) parts) @ end_part
        \<and> list_all (\<lambda>p. \<not> occurs old (p @ butlast old)) parts \<and> \<not> occurs old end_part"
proof (induction "length s" arbitrary: s rule: less_induct)
  case less
  show ?case
  proof (cases "occurs old s")
    case False
    then have "s = concat (map (\<lambda>p. p @ old) []) @ s
        \<and> list_all (\<lambda>p. \<not> occurs old (p @ butlast old)) [] \<and> \<not> occurs old s" by simp
    then show ?thesis by blast
  next
    case True
    then obtain a b where ab: "s = a @ old @ b" "\<not> occurs old (a @ butlast old)"
      using occurs_first[OF less.prems] by blast
    have "length b < length s" using ab(1) less.prems by (simp add: neq_Nil_conv)
    then obtain parts e where pe: "b = concat (map (\<lambda>p. p @ old) parts) @ e"
        "list_all (\<lambda>p. \<not> occurs old (p @ butlast old)) parts" "\<not> occurs old e"
      using less.hyps[OF _ less.prems] by blast
    have "s = concat (map (\<lambda>p. p @ old) (a # parts)) @ e
        \<and> list_all (\<lambda>p. \<not> occurs old (p @ butlast old)) (a # parts) \<and> \<not> occurs old e"
      using ab pe by simp
    then show ?thesis by blast
  qed
qed

lemma py_replace_underscores_head:
  "startswith ''_'' (py_replace ''__'' ''.'' s) \<Longrightarrow> startswith ''_'' s \<and> \<not> startswith ''__'' s"
  by (cases s) (auto simp: startswith_def split: if_splits)

lemma py_replace_underscores_gone: "\<not> occurs ''__'' (py_replace ''__'' ''.'' s)"
proof (induction "''__''" "''.''" s rule: py_replace.induct)
  case 1
  then show ?case by simp
next
  case (2 c cs)
  show ?case
  proof (cases "startswith ''__'' (c # cs)")
    case True
    then have "py_replace ''__'' ''.'' (c # cs) = ''.'' @ py_replace ''__'' ''.'' (drop 2 (c # cs))"
      by (simp add: numeral_2_eq_2)
    moreover have "\<not> occurs ''__'' (py_replace ''__'' ''.'' (drop (length ''__'') (c # cs)))"
      using 2(1) True by simp
    ultimately show ?thesis by (simp add: startswith_def numeral_2_eq_2)
  next
    case False
    then have eq: "py_replace ''__'' ''.'' (c # cs) = c # py_replace ''__'' ''.'' cs" by simp
    have ih: "\<not> occurs ''__'' (py_replace ''__'' ''.'' cs)" using 2(2) False by simp
    have "\<not> startswith ''__'' (c # py_replace ''__'' ''.'' cs)"
    proof
      assume a: "startswith ''__'' (c # py_replace ''__'' ''.'' cs)"
      then have c: "c = CHR ''_''" and "startswith ''_'' (py_replace ''__'' ''.'' cs)"
        by (auto simp: startswith_def numeral_2_eq_2 split: list.splits)
      then have "startswith ''_'' cs" using py_replace_underscores_head by blast
      with c have "startswith ''__'' (c # cs)"
        by (cases cs) (auto simp: startswith_def)
      with False show False by simp
    qed
    with ih eq show ?thesis by simp
  qed
qed

text \<open>
  C9 (as amended). The name of a project or sample is the directory name with every
  occurrence of the prefix text (\<^verbatim>\<open>Project_\<close> or \<^verbatim>\<open>Sample_\<close>) removed, wherever it
  stands, and then every double underscore replaced by a dot; the occurrences are found
  from the left and do not overlap. Written out: when the name is cut at the occurrences
  found from the left, into the parts before each occurrence and the end part after the
  last (no occurrence begins inside a part, none lies in the end part), the result of the
  removal is the parts and the end part put together; and a text cut in the same way at
  its double underscores becomes the pieces, each followed by a dot, and the end part.
  Every text can be cut in this way (lemma \<open>py_replace_decomposition\<close>), so the two
  equations fix the name of every directory. When the text after the prefix holds no
  further occurrence of it, the name is the stripping of the prefix followed by the
  replacement. No double underscore is left in a name, a name without one is unchanged by
  the replacement, and \<^verbatim>\<open>Sample_P680__NR\<close> gives \<^verbatim>\<open>P680.NR\<close>.
\<close>

theorem normalize_name_replaces:
  "(prefix_text \<noteq> []
      \<and> list_all (\<lambda>p. \<not> occurs prefix_text (p @ butlast prefix_text)) parts
      \<and> \<not> occurs prefix_text end_part \<longrightarrow>
      normalize_name prefix_text (concat (map (\<lambda>p. p @ prefix_text) parts) @ end_part)
        = py_replace ''__'' ''.'' (concat parts @ end_part))
   \<and> (list_all (\<lambda>p. \<not> occurs ''__'' (p @ ''_'')) pieces \<and> \<not> occurs ''__'' tail_part \<longrightarrow>
      py_replace ''__'' ''.'' (concat (map (\<lambda>p. p @ ''__'') pieces) @ tail_part)
        = concat (map (\<lambda>p. p @ ''.'') pieces) @ tail_part)
   \<and> (\<not> occurs ''Sample_'' rest \<longrightarrow>
      normalize_name ''Sample_'' (''Sample_'' @ rest) = py_replace ''__'' ''.'' rest)
   \<and> (\<not> occurs ''Project_'' rest \<longrightarrow>
      normalize_name ''Project_'' (''Project_'' @ rest) = py_replace ''__'' ''.'' rest)
   \<and> \<not> occurs ''__'' (normalize_name prefix_text base)
   \<and> (\<not> occurs ''__'' base \<longrightarrow> py_replace ''__'' ''.'' base = base)
   \<and> normalize_name ''Sample_'' ''Sample_P680__NR'' = ''P680.NR''"
proof (intro conjI impI)
  assume h: "prefix_text \<noteq> []
      \<and> list_all (\<lambda>p. \<not> occurs prefix_text (p @ butlast prefix_text)) parts
      \<and> \<not> occurs prefix_text end_part"
  have "py_replace prefix_text [] (concat (map (\<lambda>p. p @ prefix_text) parts) @ end_part)
          = concat (map (\<lambda>p. p @ []) parts) @ end_part"
    using h by (intro py_replace_parts) simp_all
  then show "normalize_name prefix_text (concat (map (\<lambda>p. p @ prefix_text) parts) @ end_part)
        = py_replace ''__'' ''.'' (concat parts @ end_part)"
    by (simp add: normalize_name_def)
next
  assume h: "list_all (\<lambda>p. \<not> occurs ''__'' (p @ ''_'')) pieces \<and> \<not> occurs ''__'' tail_part"
  show "py_replace ''__'' ''.'' (concat (map (\<lambda>p. p @ ''__'') pieces) @ tail_part)
        = concat (map (\<lambda>p. p @ ''.'') pieces) @ tail_part"
    using h by (intro py_replace_parts) simp_all
next
  assume "\<not> occurs ''Sample_'' rest"
  then have "py_replace ''Sample_'' [] rest = rest"
    by (rule py_replace_no_occurrence)
  moreover have "py_replace ''Sample_'' [] (''Sample_'' @ rest) = [] @ py_replace ''Sample_'' [] rest"
    by (rule py_replace_prefix) simp
  ultimately have "py_replace ''Sample_'' [] (''Sample_'' @ rest) = rest"
    by (simp only: append_Nil)
  then show "normalize_name ''Sample_'' (''Sample_'' @ rest) = py_replace ''__'' ''.'' rest"
    unfolding normalize_name_def by (rule arg_cong)
next
  assume "\<not> occurs ''Project_'' rest"
  then have "py_replace ''Project_'' [] rest = rest"
    by (rule py_replace_no_occurrence)
  moreover have "py_replace ''Project_'' [] (''Project_'' @ rest) = [] @ py_replace ''Project_'' [] rest"
    by (rule py_replace_prefix) simp
  ultimately have "py_replace ''Project_'' [] (''Project_'' @ rest) = rest"
    by (simp only: append_Nil)
  then show "normalize_name ''Project_'' (''Project_'' @ rest) = py_replace ''__'' ''.'' rest"
    unfolding normalize_name_def by (rule arg_cong)
next
  show "\<not> occurs ''__'' (normalize_name prefix_text base)"
    by (simp add: normalize_name_def py_replace_underscores_gone)
next
  assume "\<not> occurs ''__'' base"
  then show "py_replace ''__'' ''.'' base = base" by (rule py_replace_no_occurrence)
next
  show "normalize_name ''Sample_'' ''Sample_P680__NR'' = ''P680.NR''"
    by (simp add: normalize_name_def startswith_def)
qed

theorem normalize_name_replaces_witness:
  "list_all (\<lambda>p. \<not> occurs ''Sample_'' (p @ butlast ''Sample_'')) [[], ''A_'']
   \<and> \<not> occurs ''Sample_'' ''B''
   \<and> normalize_name ''Sample_'' ''Sample_A_Sample_B'' = ''A_B''
   \<and> list_all (\<lambda>p. \<not> occurs ''__'' (p @ ''_'')) [''P680'', ''NR'']
   \<and> \<not> occurs ''__'' ''x_''
   \<and> py_replace ''__'' ''.'' ''P680__NR__x_'' = ''P680.NR.x_''
   \<and> \<not> occurs ''Sample_'' ''P680__NR''
   \<and> normalize_name ''Sample_'' (''Sample_'' @ ''P680__NR'') = ''P680.NR''
   \<and> \<not> occurs ''Project_'' ''J__Bjork_13_02''
   \<and> normalize_name ''Project_'' (''Project_'' @ ''J__Bjork_13_02'') = ''J.Bjork_13_02''
   \<and> \<not> occurs ''__'' ''S1''
   \<and> py_replace ''__'' ''.'' ''S1'' = ''S1''"
proof -
  have p: "list_all (\<lambda>p. \<not> occurs ''Sample_'' (p @ butlast ''Sample_'')) [[], ''A_'']"
    by (simp add: startswith_def)
  have q: "\<not> occurs ''Sample_'' ''B''" by (simp add: startswith_def)
  have r: "list_all (\<lambda>p. \<not> occurs ''__'' (p @ ''_'')) [''P680'', ''NR'']"
    by (simp add: startswith_def)
  have s: "\<not> occurs ''__'' ''x_''" by (simp add: startswith_def)
  have a: "\<not> occurs ''Sample_'' ''P680__NR''" by (simp add: startswith_def)
  have b: "\<not> occurs ''Project_'' ''J__Bjork_13_02''" by (simp add: startswith_def)
  have c: "\<not> occurs ''__'' ''S1''" by (simp add: startswith_def)
  have d: "py_replace ''__'' ''.'' ''P680__NR'' = ''P680.NR''" by (simp add: startswith_def)
  have e: "py_replace ''__'' ''.'' ''J__Bjork_13_02'' = ''J.Bjork_13_02''" by (simp add: startswith_def)
  have f: "py_replace ''__'' ''.'' ''A_B'' = ''A_B''" by (simp add: startswith_def)
  from normalize_name_replaces [where prefix_text = "''Sample_''" and parts = "[[], ''A_'']"
         and end_part = "''B''" and pieces = "[''P680'', ''NR'']" and tail_part = "''x_''"
         and rest = "''P680__NR''" and base = "''S1''"]
       normalize_name_replaces [where prefix_text = "''Project_''" and parts = "[]"
         and end_part = "[]" and pieces = "[]" and tail_part = "[]"
         and rest = "''J__Bjork_13_02''" and base = "''S1''"] p q r s a b c d e f
  show ?thesis by simp
qed

text \<open>
  C9 as the specification states it fails: in \<^verbatim>\<open>Sample_A_Sample_B\<close> the text \<^verbatim>\<open>Sample_\<close>
  is removed twice, so the name is \<^verbatim>\<open>A_B\<close>, where stripping the prefix gives
  \<^verbatim>\<open>A_Sample_B\<close>.
\<close>

theorem normalize_name_counterexample:
  "normalize_name ''Sample_'' ''Sample_A_Sample_B'' = ''A_B''
   \<and> claimed_normalize ''Sample_'' ''Sample_A_Sample_B'' = ''A_Sample_B''"
  by (simp add: normalize_name_def claimed_normalize_def startswith_def)

section \<open>Properties of the flowcell parser and of the read-pair resolver\<close>

lemma flowcell_pattern_compile_fails:
  "flowcell_pattern_compile = Inl (ReError ''bad character in group name'')"
  by (simp add: flowcell_pattern_compile_def flowcell_pattern_text_def startswith_def
        isname_def isident_def is_lower_def is_upper_def)

text \<open>
  C6. The claim does not hold of the code: the pattern text does not compile, because
  \<^verbatim>\<open>(?P=<fcid>...)\<close> is read as a reference to a group named \<^verbatim>\<open><fcid>[A-Z0-9]{10}\<close>, so
  every call ends in the error of \<^verbatim>\<open>re.compile\<close>, whatever the path, and neither a
  flowcell id nor \<^verbatim>\<open>ValueError\<close> is ever the outcome.
\<close>

theorem get_flowcell_id_from_dirtree_always_fails:
  "get_flowcell_id_from_dirtree path = Inl (ReError ''bad character in group name'')"
  by (simp add: get_flowcell_id_from_dirtree_def flowcell_pattern_compile_fails)

theorem get_flowcell_id_from_dirtree_always_fails_witness:
  "get_flowcell_id_from_dirtree ''G.Spong_13_03/P673_101/140220_AH8AMJADXX/1_140220_AH8AMJADXX_P673_101_1.fastq.gz''
     = Inl (ReError ''bad character in group name'')"
  using get_flowcell_id_from_dirtree_always_fails
          [of "''G.Spong_13_03/P673_101/140220_AH8AMJADXX/1_140220_AH8AMJADXX_P673_101_1.fastq.gz''"]
  by simp

text \<open>
  C5. The claim does not hold of the code: a file list that is not empty makes the first
  test of the function raise \<^verbatim>\<open>RuntimeError\<close>, whatever the directory argument, so no
  file list is ever grouped.
\<close>

theorem find_fastq_read_pairs_file_list_raises:
  "find_fastq_read_pairs ev fs (PyList (x # xs)) directory
     = Inl (RuntimeError ''Must specify either a list of files or a directory path (in kw format.'')"
  by (simp add: find_fastq_read_pairs_def truthy_def)

theorem find_fastq_read_pairs_file_list_raises_witness:
  "find_fastq_read_pairs example_env example_fs
     (PyList [PyStr ''1_131129_BH7VPTADXX_P602_101_1.fastq.gz'',
              PyStr ''1_131129_BH7VPTADXX_P602_101_2.fastq.gz'']) PyNone
     = Inl (RuntimeError ''Must specify either a list of files or a directory path (in kw format.'')"
  using find_fastq_read_pairs_file_list_raises
          [of example_env example_fs "PyStr ''1_131129_BH7VPTADXX_P602_101_1.fastq.gz''"
              "[PyStr ''1_131129_BH7VPTADXX_P602_101_2.fastq.gz'']" PyNone]
  by simp

text \<open>
  Given a directory instead, a sequence file whose name has no read indicator makes the
  function raise \<^verbatim>\<open>NameError\<close>: the file is neither grouped under a fallback key nor
  skipped.
\<close>

lemma find_fastq_read_pairs_unpaired_raises:
  "find_fastq_read_pairs example_env example_pair_fs PyNone (PyStr ''/d'')
     = Inl (NameError ''file_fullname'')"
  by (simp add: find_fastq_read_pairs_def pairs_in_directory_def truthy_def example_pair_fs_def
        glob_glob_def has_magic_def path_dirname_def path_split_def glob_in_def glob1_def
        listdir_def path_basename_def path_join_def startswith_def endswith_def
        fastq_pattern_match_def file_format_pattern_def re_lit_def re_alt_def re_opt_def
        re_eol_def re_accept_def re_group_def re_class_def newline_def is_digit_def)

section \<open>Properties of the source tree parser\<close>

lemma parse_samples_step:
  "parse_samples ev fs fc (d # rest) acc =
     (if \<not> log_name_ok fc d then Inl (IndexError ''list index out of range'')
      else if bad_sample ev fs d then Inl (AssertionError (assertion_message d))
      else parse_samples ev fs fc rest
             (acc @ [\<lparr>sample_dir = path_basename d,
                      sample_name = normalize_name ''Sample_'' (path_basename d),
                      files = map path_basename (glob_glob ev fs d (StarSuffix ''.fastq.gz'')),
                      samplesheet = path_basename (hd (samplesheets ev fs d))\<rparr>]))"
proof (cases "samplesheets ev fs d")
  case Nil
  then show ?thesis by (simp add: bad_sample_def assertion_message_def)
next
  case (Cons x xs)
  then show ?thesis by (cases xs) (simp_all add: bad_sample_def assertion_message_def)
qed

lemma parse_samples_Inl:
  "parse_samples ev fs fc dirs acc = Inl e \<Longrightarrow>
     (\<exists>d \<in> set dirs. \<not> log_name_ok fc d)
     \<or> (\<exists>d \<in> set dirs. bad_sample ev fs d \<and> e = AssertionError (assertion_message d))"
proof (induction dirs arbitrary: acc)
  case Nil
  then show ?case by simp
next
  case (Cons d rest)
  show ?case
  proof (cases "\<not> log_name_ok fc d \<or> bad_sample ev fs d")
    case True
    with Cons.prems show ?thesis
      by (auto simp add: parse_samples_step simp del: parse_samples.simps split: if_splits)
  next
    case False
    with Cons.prems obtain acc' where "parse_samples ev fs fc rest acc' = Inl e"
      by (simp add: parse_samples_step del: parse_samples.simps)
    from Cons.IH[OF this] show ?thesis by auto
  qed
qed

lemma parse_samples_bad:
  "d \<in> set dirs \<Longrightarrow> bad_sample ev fs d \<Longrightarrow> \<exists>e. parse_samples ev fs fc dirs acc = Inl e"
proof (induction dirs arbitrary: acc)
  case Nil
  then show ?case by simp
next
  case (Cons d' rest)
  show ?case
  proof (cases "\<not> log_name_ok fc d' \<or> bad_sample ev fs d'")
    case True
    then show ?thesis by (auto simp add: parse_samples_step simp del: parse_samples.simps)
  next
    case False
    with Cons.prems have "d \<in> set rest" by auto
    from Cons.IH[OF this Cons.prems(2)] False show ?thesis
      by (simp add: parse_samples_step del: parse_samples.simps)
  qed
qed

lemma parse_projects_Inl:
  "parse_projects ev fs fc pds acc = Inl e \<Longrightarrow>
     (\<exists>pd \<in> set pds. \<not> log_name_ok fc pd \<or> (\<exists>d \<in> set (sample_dirs ev fs pd). \<not> log_name_ok fc d))
     \<or> (\<exists>pd \<in> set pds. \<exists>d \<in> set (sample_dirs ev fs pd).
            bad_sample ev fs d \<and> e = AssertionError (assertion_message d))"
proof (induction pds arbitrary: acc)
  case Nil
  then show ?case by simp
next
  case (Cons pd rest)
  show ?case
  proof (cases "log_name_ok fc pd")
    case False
    then show ?thesis by auto
  next
    case True
    show ?thesis
    proof (cases "parse_samples ev fs fc (sample_dirs ev fs pd) []")
      case (Inl e')
      with Cons.prems True have "e = e'" by simp
      with Inl have "parse_samples ev fs fc (sample_dirs ev fs pd) [] = Inl e" by simp
      from parse_samples_Inl[OF this] show ?thesis by auto
    next
      case (Inr sds)
      with Cons.prems True obtain acc' where "parse_projects ev fs fc rest acc' = Inl e" by simp
      from Cons.IH[OF this] show ?thesis by auto
    qed
  qed
qed

lemma parse_projects_bad:
  "pd \<in> set pds \<Longrightarrow> d \<in> set (sample_dirs ev fs pd) \<Longrightarrow> bad_sample ev fs d
     \<Longrightarrow> \<exists>e. parse_projects ev fs fc pds acc = Inl e"
proof (induction pds arbitrary: acc)
  case Nil
  then show ?case by simp
next
  case (Cons pd' rest)
  show ?case
  proof (cases "log_name_ok fc pd'")
    case False
    then show ?thesis by simp
  next
    case True
    show ?thesis
    proof (cases "parse_samples ev fs fc (sample_dirs ev fs pd') []")
      case (Inl e')
      with True show ?thesis by simp
    next
      case (Inr sds)
      have "pd \<noteq> pd'"
      proof
        assume "pd = pd'"
        with Cons.prems obtain e where "parse_samples ev fs fc (sample_dirs ev fs pd') [] = Inl e"
          using parse_samples_bad by blast
        with Inr show False by simp
      qed
      with Cons.prems have "pd \<in> set rest" by auto
      from Cons.IH[OF this Cons.prems(2,3)] Inr True show ?thesis by simp
    qed
  qed
qed

lemma parse_casava_directory_Inl:
  assumes "parse_projects ev fs (abspath ev root) (project_dirs ev fs (abspath ev root)) [] = Inl e"
  shows "\<exists>e'. parse_casava_directory ev fs root = Inl e'"
  using assms
  by (auto simp add: parse_casava_directory_def Let_def split: sum.splits option.splits prod.splits)

text \<open>
  C1 (as amended). When, for some sample directory that \<^verbatim>\<open>glob\<close> finds in some project
  directory that \<^verbatim>\<open>glob\<close> finds in the tree, the \<^verbatim>\<open>glob\<close> for \<^verbatim>\<open>*.csv\<close> in the sample
  directory returns no path or more than one path, parsing the source tree fails as a
  whole: it raises, and returns no RunDescription, so no sibling sample and no other
  project is returned. (For a sample directory whose path holds none of \<^verbatim>\<open>*?[\<close> that
  \<^verbatim>\<open>glob\<close> returns the files of the directory that end in \<^verbatim>\<open>.csv\<close> and do not start with
  a dot.) When moreover the run metrics are parsed and hold the flowcell, the date and the
  position, and every project and sample directory of the tree can be logged, that is,
  its path contains the parent directory of the flowcell directory followed by a slash
  (it does unless the flowcell directory lies directly below the root: there the logging
  raises \<^verbatim>\<open>IndexError\<close> first), then the failure is the \<^verbatim>\<open>AssertionError\<close> of the assertion,
  with a message that names a sample directory for which \<^verbatim>\<open>glob\<close> did not return exactly
  one path.
\<close>

theorem parse_casava_directory_aborts:
  assumes "pd \<in> set (project_dirs ev fs (abspath ev root))"
    and "d \<in> set (sample_dirs ev fs pd)"
    and "length (samplesheets ev fs d) \<noteq> 1"
  shows "(\<exists>e. parse_casava_directory ev fs root = Inl e)
       \<and> (run_metrics ev (abspath ev root) = Inr (run_info, runparams)
          \<and> run_info ''Flowcell'' = Some flowcell \<and> run_info ''Date'' = Some date
          \<and> runparams ''FCPosition'' = Some fc_pos
          \<and> tree_loggable ev fs (abspath ev root)
          \<longrightarrow> (\<exists>pd' d'. pd' \<in> set (project_dirs ev fs (abspath ev root))
                  \<and> d' \<in> set (sample_dirs ev fs pd')
                  \<and> length (samplesheets ev fs d') \<noteq> 1
                  \<and> parse_casava_directory ev fs root
                      = Inl (AssertionError
                              (''Error: could not unambiguously locate samplesheet in '' @ d'))))"
proof (intro conjI impI)
  from assms obtain e
    where e: "parse_projects ev fs (abspath ev root) (project_dirs ev fs (abspath ev root)) [] = Inl e"
    using parse_projects_bad[where pd = pd and d = d and ev = ev and fs = fs and fc = "abspath ev root"
                                and acc = "[]"]
    by (auto simp: bad_sample_def)
  then show "\<exists>e. parse_casava_directory ev fs root = Inl e"
    by (rule parse_casava_directory_Inl)
  assume m: "run_metrics ev (abspath ev root) = Inr (run_info, runparams)
          \<and> run_info ''Flowcell'' = Some flowcell \<and> run_info ''Date'' = Some date
          \<and> runparams ''FCPosition'' = Some fc_pos
          \<and> tree_loggable ev fs (abspath ev root)"
  then have "\<forall>pd \<in> set (project_dirs ev fs (abspath ev root)).
               log_name_ok (abspath ev root) pd
               \<and> (\<forall>d \<in> set (sample_dirs ev fs pd). log_name_ok (abspath ev root) d)"
    by (simp add: tree_loggable_def list_all_iff)
  with parse_projects_Inl[OF e]
  obtain pd' d' where "pd' \<in> set (project_dirs ev fs (abspath ev root))" "d' \<in> set (sample_dirs ev fs pd')"
    "bad_sample ev fs d'" "e = AssertionError (assertion_message d')"
    by blast
  moreover have "parse_casava_directory ev fs root = Inl e"
    using m e by (simp add: parse_casava_directory_def Let_def)
  ultimately show "\<exists>pd' d'. pd' \<in> set (project_dirs ev fs (abspath ev root))
                  \<and> d' \<in> set (sample_dirs ev fs pd')
                  \<and> length (samplesheets ev fs d') \<noteq> 1
                  \<and> parse_casava_directory ev fs root
                      = Inl (AssertionError
                              (''Error: could not unambiguously locate samplesheet in '' @ d'))"
    by (auto simp: bad_sample_def assertion_message_def)
qed

lemmas fs_eval = glob_glob_def has_magic_def path_dirname_def path_split_def glob_in_def glob1_def
  listdir_def path_basename_def path_join_def startswith_def endswith_def path_exists_def

lemma example_bad_project_dirs: "project_dirs example_env example_bad_fs ''/s/r3'' = [''/s/r3/Unaligned/Project_A'']"
  by (simp add: project_dirs_def unaligned_dirs_def example_bad_fs_def fs_eval)

lemma example_bad_sample_dirs:
  "sample_dirs example_env example_bad_fs ''/s/r3/Unaligned/Project_A''
     = [''/s/r3/Unaligned/Project_A/Sample_S1'', ''/s/r3/Unaligned/Project_A/Sample_S2'']"
  by (simp add: sample_dirs_def example_bad_fs_def fs_eval)

lemma example_bad_sheets1:
  "samplesheets example_env example_bad_fs ''/s/r3/Unaligned/Project_A/Sample_S1''
     = [''/s/r3/Unaligned/Project_A/Sample_S1/S.csv'']"
  by (simp add: samplesheets_def example_bad_fs_def fs_eval)

lemma example_bad_sheets2:
  "samplesheets example_env example_bad_fs ''/s/r3/Unaligned/Project_A/Sample_S2'' = []"
  by (simp add: samplesheets_def example_bad_fs_def fs_eval)

lemma example_abspath: "abspath example_env p = p"
  by (simp add: example_env_def)

lemma example_metrics_r3:
  "run_metrics example_env ''/s/r3''
     = Inr ([''Flowcell'' \<mapsto> ''C2PUYACXX'', ''Date'' \<mapsto> ''131030''], [''FCPosition'' \<mapsto> ''B''])"
  by (simp add: example_env_def)

lemma example_bad_log:
  "log_name_ok ''/s/r3'' ''/s/r3/Unaligned/Project_A''"
  "log_name_ok ''/s/r3'' ''/s/r3/Unaligned/Project_A/Sample_S1''"
  "log_name_ok ''/s/r3'' ''/s/r3/Unaligned/Project_A/Sample_S2''"
  by (simp_all add: log_name_ok_def path_dirname_def path_split_def path_basename_def startswith_def)

lemma example_bad_loggable: "tree_loggable example_env example_bad_fs ''/s/r3''"
  by (simp add: tree_loggable_def example_bad_project_dirs example_bad_sample_dirs example_bad_log)

theorem parse_casava_directory_aborts_witness:
  "''/s/r3/Unaligned/Project_A'' \<in> set (project_dirs example_env example_bad_fs (abspath example_env ''/s/r3''))
   \<and> ''/s/r3/Unaligned/Project_A/Sample_S2'' \<in> set (sample_dirs example_env example_bad_fs ''/s/r3/Unaligned/Project_A'')
   \<and> length (samplesheets example_env example_bad_fs ''/s/r3/Unaligned/Project_A/Sample_S2'') \<noteq> 1
   \<and> run_metrics example_env (abspath example_env ''/s/r3'')
       = Inr ([''Flowcell'' \<mapsto> ''C2PUYACXX'', ''Date'' \<mapsto> ''131030''], [''FCPosition'' \<mapsto> ''B''])
   \<and> tree_loggable example_env example_bad_fs (abspath example_env ''/s/r3'')
   \<and> (\<exists>e. parse_casava_directory example_env example_bad_fs ''/s/r3'' = Inl e)
   \<and> (\<exists>pd' d'. pd' \<in> set (project_dirs example_env example_bad_fs (abspath example_env ''/s/r3''))
          \<and> d' \<in> set (sample_dirs example_env example_bad_fs pd')
          \<and> length (samplesheets example_env example_bad_fs d') \<noteq> 1
          \<and> parse_casava_directory example_env example_bad_fs ''/s/r3''
               = Inl (AssertionError (''Error: could not unambiguously locate samplesheet in '' @ d')))"
proof -
  have m: "run_metrics example_env (abspath example_env ''/s/r3'')
             = Inr ([''Flowcell'' \<mapsto> ''C2PUYACXX'', ''Date'' \<mapsto> ''131030''], [''FCPosition'' \<mapsto> ''B''])"
    by (simp add: example_env_def)
  have k1: "[''Flowcell'' \<mapsto> ''C2PUYACXX'', ''Date'' \<mapsto> ''131030''] ''Flowcell'' = Some ''C2PUYACXX''"
    by simp
  have k2: "[''Flowcell'' \<mapsto> ''C2PUYACXX'', ''Date'' \<mapsto> ''131030''] ''Date'' = Some ''131030''"
    by simp
  have k3: "[''FCPosition'' \<mapsto> ''B''] ''FCPosition'' = Some ''B''"
    by simp
  have a: "abspath example_env ''/s/r3'' = ''/s/r3''"
    by (simp add: example_env_def)
  have pd: "''/s/r3/Unaligned/Project_A'' \<in> set (project_dirs example_env example_bad_fs (abspath example_env ''/s/r3''))"
    by (simp add: a example_bad_project_dirs)
  have d: "''/s/r3/Unaligned/Project_A/Sample_S2'' \<in> set (sample_dirs example_env example_bad_fs ''/s/r3/Unaligned/Project_A'')"
    by (simp add: example_bad_sample_dirs)
  have bad: "length (samplesheets example_env example_bad_fs ''/s/r3/Unaligned/Project_A/Sample_S2'') \<noteq> 1"
    by (simp add: example_bad_sheets2)
  have lg: "tree_loggable example_env example_bad_fs (abspath example_env ''/s/r3'')"
    by (simp add: a example_bad_loggable)
  from parse_casava_directory_aborts
         [OF pd d bad, of "[''Flowcell'' \<mapsto> ''C2PUYACXX'', ''Date'' \<mapsto> ''131030'']"
             "[''FCPosition'' \<mapsto> ''B'']" "''C2PUYACXX''" "''131030''" "''B''"]
       m k1 k2 k3 pd d bad lg
  show ?thesis by blast
qed

text \<open>
  C1 as the specification states it fails: in \<^verbatim>\<open>/s/r3\<close> the sample \<^verbatim>\<open>Sample_S2\<close> has no
  samplesheet and its sibling \<^verbatim>\<open>Sample_S1\<close> has exactly one, and parsing returns no
  RunDescription at all, so \<^verbatim>\<open>Sample_S1\<close> is not returned either.
\<close>

theorem parse_casava_directory_sibling_counterexample:
  "sample_dirs example_env example_bad_fs ''/s/r3/Unaligned/Project_A''
     = [''/s/r3/Unaligned/Project_A/Sample_S1'', ''/s/r3/Unaligned/Project_A/Sample_S2'']
   \<and> length (samplesheets example_env example_bad_fs ''/s/r3/Unaligned/Project_A/Sample_S1'') = 1
   \<and> length (samplesheets example_env example_bad_fs ''/s/r3/Unaligned/Project_A/Sample_S2'') = 0
   \<and> parse_casava_directory example_env example_bad_fs ''/s/r3''
       = Inl (AssertionError
               ''Error: could not unambiguously locate samplesheet in /s/r3/Unaligned/Project_A/Sample_S2'')"
proof -
  have "parse_samples example_env example_bad_fs ''/s/r3'' (sample_dirs example_env example_bad_fs ''/s/r3/Unaligned/Project_A'') []
          = Inl (AssertionError
               ''Error: could not unambiguously locate samplesheet in /s/r3/Unaligned/Project_A/Sample_S2'')"
    by (simp add: example_bad_sample_dirs example_bad_sheets1 example_bad_sheets2 example_bad_log)
  then have "parse_casava_directory example_env example_bad_fs ''/s/r3''
       = Inl (AssertionError
               ''Error: could not unambiguously locate samplesheet in /s/r3/Unaligned/Project_A/Sample_S2'')"
    by (simp add: parse_casava_directory_def example_bad_project_dirs example_bad_log
          example_abspath example_metrics_r3)
  then show ?thesis
    by (simp add: example_bad_sample_dirs example_bad_sheets1 example_bad_sheets2)
qed

section \<open>Properties of the reconciler\<close>

lemma do_rsync_ok:
  "transfers_succeed ev \<Longrightarrow> \<exists>copied fs'. do_rsync ev srcs dst fs = Inr (copied, fs')"
  by (auto simp: transfers_succeed_def do_rsync_def split: option.splits)

lemma copy_basecall_stats_ok:
  "transfers_succeed ev \<Longrightarrow> \<exists>fs'. copy_basecall_stats ev dirs dest fs = Inr fs'"
proof (induction dirs arbitrary: fs)
  case Nil
  then show ?case by simp
next
  case (Cons d rest)
  let ?fs1 = "safe_makedir (path_join dest (path_basename d)) fs"
  let ?found = "glob_glob ev ?fs1 d (StarSuffix ''.htm'')
                  @ glob_glob ev ?fs1 d (StarSuffix ''.metrics'')
                  @ glob_glob ev ?fs1 d (StarSuffix ''.xml'')
                  @ glob_glob ev ?fs1 d (StarSuffix ''.xsl'')
                  @ filter (path_exists ?fs1) [path_join d ''Plots'', path_join d ''css'']"
  from do_rsync_ok[OF Cons.prems] obtain copied fs2
    where "do_rsync ev ?found (path_join dest (path_basename d)) ?fs1 = Inr (copied, fs2)"
    by blast
  then show ?case using Cons.IH[OF Cons.prems, of fs2] by (simp add: Let_def)
qed

lemma setup_sample_heap:
  assumes "transfers_succeed ev"
    and "rs = [] \<or> py_replace ''__'' ''.'' (sample_name sample) \<in> set rs"
  shows "(case setup_sample ev fcs project dpd pobj rs sample w of
            Inl e \<Rightarrow> Inl e | Inr w' \<Rightarrow> Inr (w_heap w'))
         = sample_heap_effect pobj (py_replace ''__'' ''.'' (sample_name sample)) (fc_run_id fcs)
             (files sample) (w_heap w)"
proof -
  have t: "\<And>srcs dst fs. \<exists>fs'. transfer ev srcs dst fs = Some fs'"
    using assms(1) by (auto simp: transfers_succeed_def)
  show ?thesis
    using assms(2)
    apply (simp add: setup_sample_def sample_heap_effect_def Let_def do_rsync_def
                split: sum.splits prod.splits option.splits)
    using t apply (metis option.distinct(1))
    done
qed


lemmas heap_eval = add_subitem_def heap_alloc_def heap_update_def add_fastq_files_def
  NGIProject_init_def NGISample_init_def NGIFCID_init_def fastqs_def

lemma sample_heap_effect_fresh:
  assumes "subitems (cells h p) = SubDict []"
    and "subitem_type (cells h p) = Some NGISample"
    and "p < next_free h"
  shows "\<exists>h'. sample_heap_effect p nm rid fl h = Inr h'
           \<and> next_free h' = next_free h + 2
           \<and> subitems (cells h' p) = SubDict [(nm, next_free h)]
           \<and> subitems (cells h' (next_free h)) = SubDict [(rid, next_free h + 1)]
           \<and> subitem_type (cells h' (next_free h)) = Some NGIFCID
           \<and> fastqs h' (next_free h + 1) = map PyStr (filter fastq_pattern_match fl)
           \<and> is_run h' (next_free h + 1)"
  using assms
  by (simp add: sample_heap_effect_def heap_eval is_run_def Let_def)

lemma sample_heap_effect_second_run:
  assumes "subitems (cells h p) = SubDict [(nm, s)]"
    and "subitems (cells h s) = SubDict [(rid1, f1)]"
    and "subitem_type (cells h s) = Some NGIFCID"
    and "rid \<noteq> rid1"
    and "p \<noteq> s" and "f1 \<noteq> s" and "f1 \<noteq> p"
    and "p < next_free h" and "s < next_free h" and "f1 < next_free h"
  shows "\<exists>h'. sample_heap_effect p nm rid fl h = Inr h'
           \<and> subitems (cells h' p) = SubDict [(nm, s)]
           \<and> subitems (cells h' s) = SubDict [(rid1, f1), (rid, next_free h)]
           \<and> cells h' f1 = cells h f1
           \<and> fastqs h' (next_free h) = map PyStr (filter fastq_pattern_match fl)
           \<and> is_run h' (next_free h)"
  using assms
  by (simp add: sample_heap_effect_def heap_eval is_run_def Let_def)


lemma re_lit_Some: "re_lit lit k s = Some r \<longleftrightarrow> (\<exists>rest. s = lit @ rest \<and> k rest = Some r)"
proof
  assume a: "re_lit lit k s = Some r"
  then have "startswith lit s" "k (drop (length lit) s) = Some r"
    by (auto simp: re_lit_def split: if_splits)
  then have "s = lit @ drop (length lit) s \<and> k (drop (length lit) s) = Some r"
    by (metis append_take_drop_id startswith_def)
  then show "\<exists>rest. s = lit @ rest \<and> k rest = Some r" by blast
next
  assume "\<exists>rest. s = lit @ rest \<and> k rest = Some r"
  then show "re_lit lit k s = Some r" by (auto simp: re_lit_def startswith_def)
qed

lemma fastq_tail_last:
  assumes "fastq_tail t = Some r"
  shows "t \<noteq> [] \<and> last t \<in> set ''qzp2'' \<union> {newline}"
  using assms
  by (auto simp: fastq_tail_def re_lit_Some re_alt_def re_opt_def re_eol_def re_accept_def
           split: option.splits if_splits)

lemma fastq_pattern_match_last:
  assumes "fastq_pattern_match s"
  shows "s \<noteq> [] \<and> last s \<in> set ''qzp2'' \<union> {newline}"
proof -
  from assms obtain r where "re_dotstar fastq_tail s = Some r"
    by (auto simp: fastq_pattern_match_def fastq_tail_def)
  then obtain i where i: "i \<le> length s" "fastq_tail (drop i s) = Some r"
    unfolding re_dotstar_Some_iff by blast
  then have t: "drop i s \<noteq> [] \<and> last (drop i s) \<in> set ''qzp2'' \<union> {newline}"
    using fastq_tail_last by blast
  then have lt: "i < length s" by auto
  then have ne: "s \<noteq> []" by auto
  have eq: "last (drop i s) = last s" using lt by (rule last_drop)
  from t have "last (drop i s) \<in> set ''qzp2'' \<union> {newline}" by (rule conjunct2)
  then have "last s \<in> set ''qzp2'' \<union> {newline}" unfolding eq .
  with ne show ?thesis by (rule conjI)
qed

lemma fastq_pattern_match_not_csv:
  "fastq_pattern_match s \<Longrightarrow> \<not> endswith ''.csv'' s"
proof
  assume m: "fastq_pattern_match s" and e: "endswith ''.csv'' s"
  from e have len: "length ''.csv'' \<le> length s"
    and d: "drop (length s - length ''.csv'') s = ''.csv''"
    by (simp_all add: endswith_def)
  from len have "length s - length ''.csv'' < length s" by simp
  then have "last (drop (length s - length ''.csv'') s) = last s" by (rule last_drop)
  with d have "last s = CHR ''v''" by simp
  with fastq_pattern_match_last[OF m] show False by (simp add: newline_def)
qed


lemma setup_sample_result:
  assumes "transfers_succeed ev"
    and "rs = [] \<or> py_replace ''__'' ''.'' (sample_name sample) \<in> set rs"
    and "sample_heap_effect pobj (py_replace ''__'' ''.'' (sample_name sample)) (fc_run_id fcs)
             (files sample) (w_heap w) = Inr h'"
  shows "\<exists>w'. setup_sample ev fcs project dpd pobj rs sample w = Inr w' \<and> w_heap w' = h'"
proof -
  from setup_sample_heap[OF assms(1,2), of fcs project dpd pobj w] assms(3)
  have "(case setup_sample ev fcs project dpd pobj rs sample w of
            Inl e \<Rightarrow> Inl e | Inr w' \<Rightarrow> Inr (w_heap w')) = Inr h'"
    by simp
  then show ?thesis by (cases "setup_sample ev fcs project dpd pobj rs sample w") auto
qed

text \<open>
  C4. Two RunDescriptions that each name one project and one sample, the same project and
  the same sample, with two distinct run ids, are reconciled one after the other into a
  hierarchy that starts empty, with transfers that succeed and restrictions that let the
  project and the sample through. The result is a dict with exactly one Project, which
  owns exactly one Sample, which owns exactly two Runs, one per run id. The file list of
  each Run is exactly the list of the files of its own RunDescription that match the
  sequence file pattern, in their order, and none of them ends in \<^verbatim>\<open>.csv\<close>.
\<close>

theorem reconcile_two_runs:
  assumes "transfers_succeed ev"
    and "projects rd1 = [\<lparr>data_dir = dd1, project_dir = pd1, project_name = P,
                           samples = [\<lparr>sample_dir = sd1, sample_name = S, files = fl1, samplesheet = ss1\<rparr>]\<rparr>]"
    and "projects rd2 = [\<lparr>data_dir = dd2, project_dir = pd2, project_name = P,
                           samples = [\<lparr>sample_dir = sd2, sample_name = S, files = fl2, samplesheet = ss2\<rparr>]\<rparr>]"
    and "fc_run_id rd1 \<noteq> fc_run_id rd2"
    and "rp = [] \<or> P \<in> set rp"
    and "rs = [] \<or> py_replace ''__'' ''.'' S \<in> set rs"
    and "n = next_free (w_heap w)"
  shows "\<exists>st1 w'. reconcile ev rd1 top_dir rp rs (ProjDict [], w) = Inr st1
           \<and> reconcile ev rd2 top_dir rp rs st1 = Inr (ProjDict [(path_join top_dir P, n)], w')
           \<and> subitems (cells (w_heap w') n) = SubDict [(py_replace ''__'' ''.'' S, n + 1)]
           \<and> subitems (cells (w_heap w') (n + 1))
                = SubDict [(fc_run_id rd1, n + 2), (fc_run_id rd2, n + 3)]
           \<and> is_run (w_heap w') (n + 2) \<and> is_run (w_heap w') (n + 3)
           \<and> fastqs (w_heap w') (n + 2) = map PyStr (filter fastq_pattern_match fl1)
           \<and> fastqs (w_heap w') (n + 3) = map PyStr (filter fastq_pattern_match fl2)
           \<and> (\<forall>f. PyStr f \<in> set (fastqs (w_heap w') (n + 2)) \<union> set (fastqs (w_heap w') (n + 3))
                  \<longrightarrow> \<not> endswith ''.csv'' f)"
proof -
  let ?k = "path_join top_dir P"
  let ?S = "py_replace ''__'' ''.'' S"
  let ?p1 = "\<lparr>data_dir = dd1, project_dir = pd1, project_name = P,
               samples = [\<lparr>sample_dir = sd1, sample_name = S, files = fl1, samplesheet = ss1\<rparr>]\<rparr>"
  let ?s1 = "\<lparr>sample_dir = sd1, sample_name = S, files = fl1, samplesheet = ss1\<rparr>"
  let ?p2 = "\<lparr>data_dir = dd2, project_dir = pd2, project_name = P,
               samples = [\<lparr>sample_dir = sd2, sample_name = S, files = fl2, samplesheet = ss2\<rparr>]\<rparr>"
  let ?s2 = "\<lparr>sample_dir = sd2, sample_name = S, files = fl2, samplesheet = ss2\<rparr>"
  \<comment> \<open>the first run\<close>
  obtain fsA where A: "copy_basecall_stats ev (map (path_join (fc_dir rd1)) (basecall_stats_dir rd1))
                         top_dir (w_fs w) = Inr fsA"
    using copy_basecall_stats_ok[OF assms(1)] by blast
  define hA where "hA = snd (heap_alloc (NGIProject_init P P top_dir) (w_heap w))"
  have hA: "subitems (cells hA n) = SubDict []" "subitem_type (cells hA n) = Some NGISample"
    "n < next_free hA" "next_free hA = n + 1"
    by (simp_all add: hA_def heap_eval assms(7))
  from sample_heap_effect_fresh[OF hA(1,2,3), of ?S "fc_run_id rd1" fl1]
  obtain h1 where h1: "sample_heap_effect n ?S (fc_run_id rd1) fl1 hA = Inr h1"
    "next_free h1 = n + 3"
    "subitems (cells h1 n) = SubDict [(?S, n + 1)]"
    "subitems (cells h1 (n + 1)) = SubDict [(fc_run_id rd1, n + 2)]"
    "subitem_type (cells h1 (n + 1)) = Some NGIFCID"
    "fastqs h1 (n + 2) = map PyStr (filter fastq_pattern_match fl1)"
    "is_run h1 (n + 2)"
    by (auto simp: hA(4) add.assoc)
  let ?wA = "\<lparr>w_fs = ensure_dir ?k fsA, w_heap = hA\<rparr>"
  from setup_sample_result[OF assms(1), of rs ?s1 n rd1 ?wA h1 ?p1 ?k] assms(6) h1(1)
  obtain w1 where w1: "setup_sample ev rd1 ?p1 ?k n rs ?s1 ?wA = Inr w1" "w_heap w1 = h1"
    by auto
  have R1: "reconcile ev rd1 top_dir rp rs (ProjDict [], w) = Inr (ProjDict [(?k, n)], w1)"
    using A w1(1) assms(2,5,7)
    by (auto simp add: reconcile_def setup_project_def Let_def hA_def heap_alloc_def)
  \<comment> \<open>the second run\<close>
  obtain fsB where B: "copy_basecall_stats ev (map (path_join (fc_dir rd2)) (basecall_stats_dir rd2))
                         top_dir (w_fs w1) = Inr fsB"
    using copy_basecall_stats_ok[OF assms(1)] by blast
  have "\<exists>h'. sample_heap_effect n ?S (fc_run_id rd2) fl2 h1 = Inr h'
           \<and> subitems (cells h' n) = SubDict [(?S, n + 1)]
           \<and> subitems (cells h' (n + 1)) = SubDict [(fc_run_id rd1, n + 2), (fc_run_id rd2, next_free h1)]
           \<and> cells h' (n + 2) = cells h1 (n + 2)
           \<and> fastqs h' (next_free h1) = map PyStr (filter fastq_pattern_match fl2)
           \<and> is_run h' (next_free h1)"
    by (rule sample_heap_effect_second_run)
       (use h1 assms(4) in \<open>simp_all\<close>)
  then obtain h2 where h2: "sample_heap_effect n ?S (fc_run_id rd2) fl2 h1 = Inr h2"
    "subitems (cells h2 n) = SubDict [(?S, n + 1)]"
    "subitems (cells h2 (n + 1)) = SubDict [(fc_run_id rd1, n + 2), (fc_run_id rd2, n + 3)]"
    "cells h2 (n + 2) = cells h1 (n + 2)"
    "fastqs h2 (n + 3) = map PyStr (filter fastq_pattern_match fl2)"
    "is_run h2 (n + 3)"
    by (auto simp: h1(2))
  let ?wB = "\<lparr>w_fs = ensure_dir ?k fsB, w_heap = h1\<rparr>"
  from setup_sample_result[OF assms(1), of rs ?s2 n rd2 ?wB h2 ?p2 ?k] assms(6) h2(1)
  obtain w2 where w2: "setup_sample ev rd2 ?p2 ?k n rs ?s2 ?wB = Inr w2" "w_heap w2 = h2"
    by auto
  have R2: "reconcile ev rd2 top_dir rp rs (ProjDict [(?k, n)], w1) = Inr (ProjDict [(?k, n)], w2)"
    using B w2(1) w1(2) assms(3,5)
    by (auto simp add: reconcile_def setup_project_def Let_def)
  have f1: "fastqs h2 (n + 2) = map PyStr (filter fastq_pattern_match fl1)"
    using h2(4) h1(6) by (simp add: fastqs_def)
  have r1: "is_run h2 (n + 2)"
    using h2(4) h1(7) by (simp add: is_run_def)
  have csv: "\<forall>f. PyStr f \<in> set (fastqs h2 (n + 2)) \<union> set (fastqs h2 (n + 3)) \<longrightarrow> \<not> endswith ''.csv'' f"
  proof (intro allI impI)
    fix f
    assume "PyStr f \<in> set (fastqs h2 (n + 2)) \<union> set (fastqs h2 (n + 3))"
    then have "PyStr f \<in> set (map PyStr (filter fastq_pattern_match fl1))
                       \<union> set (map PyStr (filter fastq_pattern_match fl2))"
      unfolding f1 h2(5) .
    then have "fastq_pattern_match f" by auto
    then show "\<not> endswith ''.csv'' f" by (rule fastq_pattern_match_not_csv)
  qed
  show ?thesis
    using R1 R2 h2(2,3,5,6) f1 r1 csv w2(2) by blast
qed

text \<open>The parser gives the two RunDescriptions of the example for \<^verbatim>\<open>/s/r1\<close> and \<^verbatim>\<open>/s/r2\<close>.\<close>

lemma example_parse_r1:
  "parse_casava_directory example_env example_fs ''/s/r1'' = Inr example_rd1"
  by (simp add: parse_casava_directory_def example_env_def example_fs_def project_dirs_def
      unaligned_dirs_def sample_dirs_def samplesheets_def fs_eval normalize_name_def relpath_def
      log_name_ok_def example_rd1_def example_project_def example_sample_def)

lemma example_parse_r2:
  "parse_casava_directory example_env example_fs ''/s/r2'' = Inr example_rd2"
  by (simp add: parse_casava_directory_def example_env_def example_fs_def project_dirs_def
      unaligned_dirs_def sample_dirs_def samplesheets_def fs_eval normalize_name_def relpath_def
      log_name_ok_def example_rd2_def)

lemmas re_eval = re_lit_def re_alt_def re_opt_def re_eol_def re_accept_def re_group_def
  re_class_def re_rep_def newline_def

lemma example_fastq_filter:
  "filter fastq_pattern_match [''x_1.fastq.gz'', ''x_2.fastq.gz'', ''S.csv'']
     = [''x_1.fastq.gz'', ''x_2.fastq.gz'']"
  "filter fastq_pattern_match [''z_1.fastq.gz'', ''z_2.fastq.gz''] = [''z_1.fastq.gz'', ''z_2.fastq.gz'']"
  "filter fastq_pattern_match [''x_1.fastq.gz'', ''x_2.fastq.gz''] = [''x_1.fastq.gz'', ''x_2.fastq.gz'']"
  by (simp_all add: fastq_pattern_match_def re_eval startswith_def)

theorem reconcile_two_runs_witness:
  "transfers_succeed example_env
   \<and> fc_run_id example_rd1 \<noteq> fc_run_id example_rd2
   \<and> (\<exists>st1 w'. reconcile example_env example_rd1 ''/a'' [] [] (ProjDict [], example_world) = Inr st1
          \<and> reconcile example_env example_rd2 ''/a'' [] [] st1 = Inr (ProjDict [(''/a/A_13_02'', 0)], w')
          \<and> subitems (cells (w_heap w') 0) = SubDict [(''S1'', 1)]
          \<and> subitems (cells (w_heap w') 1)
               = SubDict [(''140220_AH8AMJADXX'', 2), (''140221_BH8AMJADXX'', 3)]
          \<and> fastqs (w_heap w') 2 = [PyStr ''x_1.fastq.gz'', PyStr ''x_2.fastq.gz'']
          \<and> fastqs (w_heap w') 3 = [PyStr ''z_1.fastq.gz'', PyStr ''z_2.fastq.gz''])"
proof -
  have ts: "transfers_succeed example_env"
    by (simp add: transfers_succeed_def example_env_def)
  have p1: "projects example_rd1 =
      [\<lparr>data_dir = ''Unaligned'', project_dir = ''Project_A_13_02'', project_name = ''A_13_02'',
        samples = [\<lparr>sample_dir = ''Sample_S1'', sample_name = ''S1'',
                    files = [''x_1.fastq.gz'', ''x_2.fastq.gz''], samplesheet = ''S.csv''\<rparr>]\<rparr>]"
    by (simp add: example_rd1_def example_project_def example_sample_def)
  have p2: "projects example_rd2 =
      [\<lparr>data_dir = ''Unaligned'', project_dir = ''Project_A_13_02'', project_name = ''A_13_02'',
        samples = [\<lparr>sample_dir = ''Sample_S1'', sample_name = ''S1'',
                    files = [''z_1.fastq.gz'', ''z_2.fastq.gz''], samplesheet = ''S.csv''\<rparr>]\<rparr>]"
    by (simp add: example_rd2_def)
  have id1: "fc_run_id example_rd1 = ''140220_AH8AMJADXX''"
    by (simp add: fc_run_id_def example_rd1_def)
  have id2: "fc_run_id example_rd2 = ''140221_BH8AMJADXX''"
    by (simp add: fc_run_id_def example_rd2_def)
  have ne: "fc_run_id example_rd1 \<noteq> fc_run_id example_rd2"
    by (simp add: id1 id2)
  have rp: "([]::string list) = [] \<or> ''A_13_02'' \<in> set []" by simp
  have rs: "([]::string list) = [] \<or> py_replace ''__'' ''.'' ''S1'' \<in> set []" by simp
  have n: "(0::nat) = next_free (w_heap example_world)"
    by (simp add: example_world_def empty_heap_def)
  have k: "path_join ''/a'' ''A_13_02'' = ''/a/A_13_02''"
    by (simp add: path_join_def startswith_def endswith_def)
  have s: "py_replace ''__'' ''.'' ''S1'' = ''S1''"
    by (simp add: startswith_def)
  note run = reconcile_two_runs [OF ts p1 p2 ne rp rs n, of "''/a''",
                unfolded k s id1 id2 example_fastq_filter]
  have "\<exists>st1 w'. reconcile example_env example_rd1 ''/a'' [] [] (ProjDict [], example_world) = Inr st1
          \<and> reconcile example_env example_rd2 ''/a'' [] [] st1 = Inr (ProjDict [(''/a/A_13_02'', 0)], w')
          \<and> subitems (cells (w_heap w') 0) = SubDict [(''S1'', 1)]
          \<and> subitems (cells (w_heap w') 1)
               = SubDict [(''140220_AH8AMJADXX'', 2), (''140221_BH8AMJADXX'', 3)]
          \<and> fastqs (w_heap w') 2 = [PyStr ''x_1.fastq.gz'', PyStr ''x_2.fastq.gz'']
          \<and> fastqs (w_heap w') 3 = [PyStr ''z_1.fastq.gz'', PyStr ''z_2.fastq.gz'']"
    using run by (elim exE conjE) (intro exI conjI, simp_all add: numeral_2_eq_2)
  with ts ne show ?thesis by blast
qed

lemma map_of_snoc_new: "map_of d k = None \<Longrightarrow> map_of (d @ [(k, a)]) k = Some a"
  by (induction d) auto

lemma setup_project_keys:
  assumes "setup_project ev fcs top_dir rp rs project (ProjDict d, w) = Inr (pta', w')"
  shows "\<exists>d'. pta' = ProjDict d'
           \<and> (d' = d \<or> ((\<exists>a. d' = d @ [(path_join top_dir (project_name project), a)])
                        \<and> (rp = [] \<or> project_name project \<in> set rp)))
           \<and> (rp = [] \<or> project_name project \<in> set rp
                 \<longrightarrow> map_of d' (path_join top_dir (project_name project)) \<noteq> None)"
proof (cases "rp \<noteq> [] \<and> project_name project \<notin> set rp")
  case True
  with assms have "pta' = ProjDict d" by (simp add: setup_project_def)
  with True show ?thesis by auto
next
  case False
  let ?k = "path_join top_dir (project_name project)"
  show ?thesis
  proof (cases "map_of d ?k")
    case (Some a)
    with assms False have "pta' = ProjDict d"
      by (auto simp add: setup_project_def Let_def split: sum.splits)
    with Some show ?thesis by auto
  next
    case None
    with assms False have "pta' = ProjDict (d @ [(?k, next_free (w_heap w))])"
      by (auto simp add: setup_project_def Let_def heap_alloc_def split: sum.splits)
    moreover have "map_of (d @ [(?k, next_free (w_heap w))]) ?k = Some (next_free (w_heap w))"
      using None by (rule map_of_snoc_new)
    ultimately show ?thesis using False by auto
  qed
qed

lemma setup_projects_keys:
  assumes "setup_projects ev fcs top_dir rp rs ps (ProjDict d, w) = Inr (pta', w')"
    and "rp \<noteq> []"
  shows "\<exists>d'. pta' = ProjDict d' \<and> fst ` set d' \<subseteq> fst ` set d \<union> path_join top_dir ` set rp"
  using assms
proof (induction ps arbitrary: d w)
  case Nil
  then have "pta' = ProjDict d" by auto
  then show ?case by blast
next
  case (Cons p ps)
  let ?k = "path_join top_dir (project_name p)"
  show ?case
  proof (cases "setup_project ev fcs top_dir rp rs p (ProjDict d, w)")
    case (Inl e)
    with Cons.prems(1) show ?thesis by simp
  next
    case (Inr st1)
    obtain pta1 w1 where st1: "st1 = (pta1, w1)" by (cases st1)
    from Inr Cons.prems(1) have rest: "setup_projects ev fcs top_dir rp rs ps (pta1, w1) = Inr (pta', w')"
      by (simp add: st1)
    from Inr have step: "setup_project ev fcs top_dir rp rs p (ProjDict d, w) = Inr (pta1, w1)"
      by (simp add: st1)
    from setup_project_keys[OF step] obtain d1 where d1: "pta1 = ProjDict d1"
      and alt: "d1 = d \<or> ((\<exists>a. d1 = d @ [(?k, a)]) \<and> (rp = [] \<or> project_name p \<in> set rp))"
      by blast
    have sub1: "fst ` set d1 \<subseteq> fst ` set d \<union> path_join top_dir ` set rp"
    proof (cases "d1 = d")
      case True
      then show ?thesis by simp
    next
      case False
      with alt Cons.prems(2) obtain a where "d1 = d @ [(?k, a)]" and "project_name p \<in> set rp"
        by blast
      then show ?thesis by auto
    qed
    from rest d1 have "setup_projects ev fcs top_dir rp rs ps (ProjDict d1, w1) = Inr (pta', w')"
      by simp
    from Cons.IH[OF this Cons.prems(2)] obtain d' where d': "pta' = ProjDict d'"
      and sub2: "fst ` set d' \<subseteq> fst ` set d1 \<union> path_join top_dir ` set rp"
      by blast
    from sub1 sub2 have "fst ` set d' \<subseteq> fst ` set d \<union> path_join top_dir ` set rp"
      by blast
    with d' show ?thesis by blast
  qed
qed

subsection \<open>The store only grows\<close>

lemma heap_closed_iff:
  "heap_closed h \<longleftrightarrow>
     (\<forall>a d nm c. a < next_free h \<longrightarrow> subitems (cells h a) = SubDict d \<longrightarrow> (nm, c) \<in> set d
        \<longrightarrow> c < next_free h)"
  by (fastforce simp: heap_closed_def list_all_iff split: subitems_val.splits)

lemma heap_ext_iff:
  "heap_ext h h' \<longleftrightarrow>
     (next_free h \<le> next_free h'
      \<and> (\<forall>a < next_free h. grown (subitems (cells h a)) (subitems (cells h' a))))"
  by (auto simp: heap_ext_def list_all_iff)

lemma grown_refl: "grown x x"
  by (simp add: grown_def split: subitems_val.splits)

lemma grown_trans: "grown x y \<Longrightarrow> grown y z \<Longrightarrow> grown x z"
proof (cases x)
  case (SubDict d)
  assume a: "grown x y" and b: "grown y z"
  from a SubDict obtain d' where y: "y = SubDict d'" and 1: "take (length d) d' = d"
    by (auto simp: grown_def split: subitems_val.splits)
  from b y obtain d'' where z: "z = SubDict d''" and 2: "take (length d') d'' = d'"
    by (auto simp: grown_def split: subitems_val.splits)
  have "length d \<le> length d'" using 1 by (metis length_take min.cobounded1)
  then have "take (length d) d'' = take (length d) (take (length d') d'')"
    by (simp add: min_def)
  with 1 2 have "take (length d) d'' = d" by simp
  with SubDict z show ?thesis by (simp add: grown_def)
next
  case (SubList d)
  assume a: "grown x y" and b: "grown y z"
  from a SubList obtain d' where y: "y = SubList d'" and 1: "take (length d) d' = d"
    by (auto simp: grown_def split: subitems_val.splits)
  from b y obtain d'' where z: "z = SubList d''" and 2: "take (length d') d'' = d'"
    by (auto simp: grown_def split: subitems_val.splits)
  have "length d \<le> length d'" using 1 by (metis length_take min.cobounded1)
  then have "take (length d) d'' = take (length d) (take (length d') d'')"
    by (simp add: min_def)
  with 1 2 have "take (length d) d'' = d" by simp
  with SubList z show ?thesis by (simp add: grown_def)
qed

lemma heap_ext_refl: "heap_ext h h"
  by (simp add: heap_ext_iff grown_refl)

lemma heap_ext_trans: "heap_ext h1 h2 \<Longrightarrow> heap_ext h2 h3 \<Longrightarrow> heap_ext h1 h3"
  unfolding heap_ext_iff
  by (meson grown_trans le_trans less_le_trans)

lemma map_of_take: "take (length d) d' = d \<Longrightarrow> map_of d k = Some v \<Longrightarrow> map_of d' k = Some v"
proof -
  assume a: "take (length d) d' = d" and b: "map_of d k = Some v"
  have "d' = d @ drop (length d) d'" using a by (metis append_take_drop_id)
  then have "map_of d' k = map_of (d @ drop (length d) d') k" by simp
  also have "\<dots> = Some v" using b by (simp add: map_add_def)
  finally show ?thesis .
qed

lemma heap_ext_child:
  assumes "heap_ext h h'" and "a < next_free h" and "child_of h a nm = Some c"
  shows "child_of h' a nm = Some c"
proof -
  from assms(1,2) have g: "grown (subitems (cells h a)) (subitems (cells h' a))"
    by (simp add: heap_ext_iff)
  from assms(3) obtain d where d: "subitems (cells h a) = SubDict d" and m: "map_of d nm = Some c"
    by (auto simp: child_of_def split: subitems_val.splits)
  from g d obtain d' where d': "subitems (cells h' a) = SubDict d'" and t: "take (length d) d' = d"
    by (auto simp: grown_def split: subitems_val.splits)
  from map_of_take[OF t m] d' show ?thesis by (simp add: child_of_def)
qed

lemma heap_ext_fastqs:
  assumes "heap_ext h h'" and "a < next_free h" and "is_run h a"
  shows "is_run h' a \<and> set (fastqs h a) \<subseteq> set (fastqs h' a)"
proof -
  from assms(1,2) have g: "grown (subitems (cells h a)) (subitems (cells h' a))"
    by (simp add: heap_ext_iff)
  from assms(3) obtain fs where d: "subitems (cells h a) = SubList fs"
    by (auto simp: is_run_def split: subitems_val.splits)
  from g d obtain fs' where d': "subitems (cells h' a) = SubList fs'" and t: "take (length fs) fs' = fs"
    by (auto simp: grown_def split: subitems_val.splits)
  have "set fs \<subseteq> set fs'" using t by (metis set_take_subset)
  with d d' show ?thesis by (simp add: is_run_def fastqs_def)
qed

lemma add_subitem_found:
  assumes "add_subitem self nm dn h = Inr (c, h')"
    and "subitems (cells h self) = SubDict d" and "map_of d nm = Some child"
  shows "c = child \<and> h' = h"
  using assms by (simp add: add_subitem_def)

lemma add_subitem_new:
  assumes "add_subitem self nm dn h = Inr (c, h')"
    and "subitems (cells h self) = SubDict d" and "map_of d nm = None"
  shows "\<exists>obj. call_subitem_type (subitem_type (cells h self)) nm dn = Inr obj
           \<and> c = next_free h \<and> next_free h' = Suc (next_free h)
           \<and> subitems (cells h' self) = SubDict (d @ [(nm, c)])
           \<and> (self \<noteq> next_free h \<longrightarrow> cells h' (next_free h) = obj)
           \<and> (\<forall>a. a \<noteq> self \<and> a \<noteq> next_free h \<longrightarrow> cells h' a = cells h a)"
proof (cases "call_subitem_type (subitem_type (cells h self)) nm dn")
  case (Inl e)
  then have "add_subitem self nm dn h = Inl e" using assms(2,3) by (simp add: add_subitem_def)
  with assms(1) show ?thesis by simp
next
  case (Inr obj)
  let ?h1 = "h\<lparr>cells := (cells h)(next_free h := obj), next_free := Suc (next_free h)\<rparr>"
  have "add_subitem self nm dn h
          = Inr (next_free h,
                 heap_update self ((cells ?h1 self)\<lparr>subitems := SubDict (d @ [(nm, next_free h)])\<rparr>) ?h1)"
    using assms(2,3) Inr by (simp add: add_subitem_def heap_alloc_def)
  from trans[OF sym[OF assms(1)] this] have c: "c = next_free h"
    and h': "h' = heap_update self ((cells ?h1 self)\<lparr>subitems := SubDict (d @ [(nm, next_free h)])\<rparr>) ?h1"
    by (simp_all only: sum.inject prod.inject)
  have "next_free h' = Suc (next_free h)" by (simp add: h' heap_update_def)
  moreover have "subitems (cells h' self) = SubDict (d @ [(nm, c)])"
    by (simp add: h' c heap_update_def)
  moreover have "self \<noteq> next_free h \<longrightarrow> cells h' (next_free h) = obj"
    by (simp add: h' heap_update_def)
  moreover have "\<forall>a. a \<noteq> self \<and> a \<noteq> next_free h \<longrightarrow> cells h' a = cells h a"
    by (simp add: h' heap_update_def)
  ultimately show ?thesis using Inr c by blast
qed

lemma add_subitem_grows:
  assumes "add_subitem self nm dn h = Inr (c, h')"
  shows "heap_ext h h' \<and> child_of h' self nm = Some c"
proof -
  from assms obtain d where d: "subitems (cells h self) = SubDict d"
    by (cases "subitems (cells h self)") (simp_all add: add_subitem_def)
  show ?thesis
  proof (cases "map_of d nm")
    case (Some child)
    from add_subitem_found[OF assms d Some] have "c = child" "h' = h" by simp_all
    with Some d show ?thesis by (simp add: heap_ext_refl child_of_def)
  next
    case None
    from add_subitem_new[OF assms d None] have
      nf: "next_free h' = Suc (next_free h)"
      and sf: "subitems (cells h' self) = SubDict (d @ [(nm, c)])"
      and ot: "\<forall>a. a \<noteq> self \<and> a \<noteq> next_free h \<longrightarrow> cells h' a = cells h a"
      by blast+
    have 1: "child_of h' self nm = Some c"
      using None sf by (simp add: child_of_def map_add_def)
    have 2: "heap_ext h h'"
      unfolding heap_ext_iff
    proof (intro conjI allI impI)
      show "next_free h \<le> next_free h'" by (simp add: nf)
    next
      fix a assume a: "a < next_free h"
      show "grown (subitems (cells h a)) (subitems (cells h' a))"
      proof (cases "a = self")
        case True
        then show ?thesis using d sf by (simp add: grown_def)
      next
        case False
        with a ot have "cells h' a = cells h a" by simp
        then show ?thesis by (simp add: grown_refl)
      qed
    qed
    from 1 2 show ?thesis by simp
  qed
qed

lemma add_subitem_closed:
  assumes "add_subitem self nm dn h = Inr (c, h')"
    and "heap_closed h" and "self < next_free h"
  shows "heap_closed h' \<and> c < next_free h'"
proof -
  from assms(1) obtain d where d: "subitems (cells h self) = SubDict d"
    by (cases "subitems (cells h self)") (simp_all add: add_subitem_def)
  show ?thesis
  proof (cases "map_of d nm")
    case (Some child)
    from add_subitem_found[OF assms(1) d Some] have e: "c = child" "h' = h" by simp_all
    from Some have "(nm, child) \<in> set d" by (rule map_of_SomeD)
    with assms(2,3) d have "child < next_free h" unfolding heap_closed_iff by blast
    with e assms(2) show ?thesis by simp
  next
    case None
    from add_subitem_new[OF assms(1) d None] obtain obj where
      obj: "call_subitem_type (subitem_type (cells h self)) nm dn = Inr obj"
      and c: "c = next_free h"
      and nf: "next_free h' = Suc (next_free h)"
      and sf: "subitems (cells h' self) = SubDict (d @ [(nm, c)])"
      and nw: "self \<noteq> next_free h \<longrightarrow> cells h' (next_free h) = obj"
      and ot: "\<forall>a. a \<noteq> self \<and> a \<noteq> next_free h \<longrightarrow> cells h' a = cells h a"
      by blast
    have fresh: "subitems obj = SubDict [] \<or> subitems obj = SubList []"
    proof (cases "subitem_type (cells h self)")
      case None
      with obj show ?thesis by simp
    next
      case (Some k)
      with obj show ?thesis
        by (cases k) (auto simp: NGISample_init_def NGIFCID_init_def)
    qed
    have "heap_closed h'"
      unfolding heap_closed_iff
    proof (intro allI impI)
      fix a d' k x
      assume a: "a < next_free h'" and s: "subitems (cells h' a) = SubDict d'" and m: "(k, x) \<in> set d'"
      show "x < next_free h'"
      proof (cases "a = self")
        case True
        with s sf have "d' = d @ [(nm, c)]" by simp
        with m have "(k, x) \<in> set d \<or> x = c" by auto
        moreover have "(k, x) \<in> set d \<Longrightarrow> x < next_free h"
          using assms(2,3) d unfolding heap_closed_iff by blast
        ultimately show ?thesis using c nf by auto
      next
        case False
        show ?thesis
        proof (cases "a = next_free h")
          case True
          with nw assms(3) have "cells h' a = obj" by simp
          with s have "subitems obj = SubDict d'" by simp
          with fresh m show ?thesis by auto
        next
          case F2: False
          with False ot have "cells h' a = cells h a" by simp
          with s have "subitems (cells h a) = SubDict d'" by simp
          moreover have "a < next_free h" using a nf F2 by simp
          ultimately have "x < next_free h" using m assms(2) unfolding heap_closed_iff by blast
          with nf show ?thesis by simp
        qed
      qed
    qed
    with c nf show ?thesis by simp
  qed
qed

lemma add_fastq_files_grows:
  assumes "add_fastq_files self (PyList xs) h = Inr h'"
  shows "heap_ext h h' \<and> next_free h' = next_free h \<and> is_run h' self
         \<and> fastqs h' self = fastqs h self @ xs
         \<and> (\<forall>a nm. child_of h' a nm = child_of h a nm)
         \<and> (heap_closed h \<longrightarrow> heap_closed h')"
proof -
  from assms obtain fs where fs: "subitems (cells h self) = SubList fs"
    by (cases "subitems (cells h self)") (simp_all add: add_fastq_files_def)
  with assms have h': "h' = heap_update self ((cells h self)\<lparr>subitems := SubList (fs @ xs)\<rparr>) h"
    by (simp add: add_fastq_files_def)
  have nf: "next_free h' = next_free h" by (simp add: h' heap_update_def)
  have sf: "subitems (cells h' self) = SubList (fs @ xs)" by (simp add: h' heap_update_def)
  have ot: "\<And>a. a \<noteq> self \<Longrightarrow> cells h' a = cells h a" by (simp add: h' heap_update_def)
  have 1: "heap_ext h h'"
    unfolding heap_ext_iff
  proof (intro conjI allI impI)
    show "next_free h \<le> next_free h'" by (simp add: nf)
  next
    fix a assume "a < next_free h"
    show "grown (subitems (cells h a)) (subitems (cells h' a))"
    proof (cases "a = self")
      case True
      then show ?thesis using fs sf by (simp add: grown_def)
    next
      case False
      then show ?thesis using ot by (simp add: grown_refl)
    qed
  qed
  have 2: "\<forall>a nm. child_of h' a nm = child_of h a nm"
  proof (intro allI)
    fix a nm
    show "child_of h' a nm = child_of h a nm"
    proof (cases "a = self")
      case True
      then show ?thesis using fs sf by (simp add: child_of_def)
    next
      case False
      then show ?thesis using ot by (simp add: child_of_def)
    qed
  qed
  have 3: "heap_closed h \<longrightarrow> heap_closed h'"
  proof
    assume cl: "heap_closed h"
    show "heap_closed h'"
      unfolding heap_closed_iff
    proof (intro allI impI)
      fix a d nm c
      assume a: "a < next_free h'" and s: "subitems (cells h' a) = SubDict d" and m: "(nm, c) \<in> set d"
      from s sf have "a \<noteq> self" by auto
      with ot s have "subitems (cells h a) = SubDict d" by simp
      with a m cl nf show "c < next_free h'" unfolding heap_closed_iff by (metis)
    qed
  qed
  show ?thesis using 1 2 3 fs sf nf by (simp add: is_run_def fastqs_def)
qed

lemma path_exists_ensure_dir: "path_exists (ensure_dir p fs) p"
  by (simp add: ensure_dir_def safe_makedir_def path_exists_def)

lemma path_exists_ensure_dir_mono: "path_exists fs q \<Longrightarrow> path_exists (ensure_dir p fs) q"
  by (auto simp: ensure_dir_def safe_makedir_def path_exists_def)

text \<open>The steps of a body of the sample loop that returns.\<close>

lemma setup_sample_steps:
  assumes "setup_sample ev fcs project dpd pobj rs sample w = Inr w'"
    and "rs = [] \<or> py_replace ''__'' ''.'' (sample_name sample) \<in> set rs"
  shows "\<exists>so h1 fo h2.
           add_sample pobj (py_replace ''__'' ''.'' (sample_name sample))
              (py_replace ''__'' ''.'' (sample_name sample)) (w_heap w) = Inr (so, h1)
           \<and> add_fcid so (fc_run_id fcs) (fc_run_id fcs) h1 = Inr (fo, h2)
           \<and> transfer ev
                (map (path_join (path_join (path_join (path_join (fc_dir fcs) (data_dir project))
                                   (project_dir project)) (sample_dir sample))) (files sample))
                (path_join (path_join dpd (py_replace ''__'' ''.'' (sample_name sample))) (fc_run_id fcs))
                (ensure_dir (path_join (path_join dpd (py_replace ''__'' ''.'' (sample_name sample)))
                               (fc_run_id fcs))
                   (ensure_dir (path_join dpd (py_replace ''__'' ''.'' (sample_name sample))) (w_fs w)))
               = Some (w_fs w')
           \<and> add_fastq_files fo (PyList (map PyStr (filter fastq_pattern_match (files sample)))) h2
               = Inr (w_heap w')"
  using assms
  by (auto simp: setup_sample_def Let_def do_rsync_def split: sum.splits prod.splits option.splits)

lemma heap_alloc_closed:
  assumes "heap_closed h" and "subitems obj = SubDict []"
  shows "heap_closed (snd (heap_alloc obj h))"
  unfolding heap_closed_iff
proof (intro allI impI)
  fix a d nm c
  assume a: "a < next_free (snd (heap_alloc obj h))"
    and s: "subitems (cells (snd (heap_alloc obj h)) a) = SubDict d" and m: "(nm, c) \<in> set d"
  show "c < next_free (snd (heap_alloc obj h))"
  proof (cases "a = next_free h")
    case True
    with s assms(2) have "d = []" by (simp add: heap_alloc_def)
    with m show ?thesis by simp
  next
    case False
    with a s have "a < next_free h" "subitems (cells h a) = SubDict d"
      by (simp_all add: heap_alloc_def)
    with m assms(1) have "c < next_free h" unfolding heap_closed_iff by blast
    then show ?thesis by (simp add: heap_alloc_def)
  qed
qed

text \<open>
  What a body of the sample loop that does not skip its sample leaves behind: the Sample
  under the Project, the Run under the Sample, the sequence files at the end of the file
  list of the Run, and the two destination directories in the file system that the
  transfer was given.
\<close>

lemma setup_sample_allowed:
  assumes "rs = [] \<or> py_replace ''__'' ''.'' (sample_name sample) \<in> set rs"
    and "pobj < next_free (w_heap w)"
    and "setup_sample ev fcs project dpd pobj rs sample w = Inr w'"
  shows "\<exists>so fo old fs2.
           child_of (w_heap w') pobj (py_replace ''__'' ''.'' (sample_name sample)) = Some so
           \<and> child_of (w_heap w') so (fc_run_id fcs) = Some fo
           \<and> fastqs (w_heap w') fo = old @ map PyStr (filter fastq_pattern_match (files sample))
           \<and> path_exists fs2 (path_join dpd (py_replace ''__'' ''.'' (sample_name sample)))
           \<and> path_exists fs2
                (path_join (path_join dpd (py_replace ''__'' ''.'' (sample_name sample))) (fc_run_id fcs))
           \<and> transfer ev
                (map (path_join (path_join (path_join (path_join (fc_dir fcs) (data_dir project))
                                   (project_dir project)) (sample_dir sample))) (files sample))
                (path_join (path_join dpd (py_replace ''__'' ''.'' (sample_name sample))) (fc_run_id fcs))
                fs2 = Some (w_fs w')"
proof -
  let ?nm = "py_replace ''__'' ''.'' (sample_name sample)"
  let ?d1 = "path_join dpd ?nm"
  let ?d2 = "path_join ?d1 (fc_run_id fcs)"
  let ?fs2 = "ensure_dir ?d2 (ensure_dir ?d1 (w_fs w))"
  from setup_sample_steps[OF assms(3,1)] obtain so h1 fo h2 where
    s1: "add_sample pobj ?nm ?nm (w_heap w) = Inr (so, h1)"
    and s2: "add_fcid so (fc_run_id fcs) (fc_run_id fcs) h1 = Inr (fo, h2)"
    and s3: "transfer ev
                (map (path_join (path_join (path_join (path_join (fc_dir fcs) (data_dir project))
                                   (project_dir project)) (sample_dir sample))) (files sample))
                ?d2 ?fs2 = Some (w_fs w')"
    and s4: "add_fastq_files fo (PyList (map PyStr (filter fastq_pattern_match (files sample)))) h2
               = Inr (w_heap w')"
    by blast
  from add_subitem_grows[OF s1] have e1: "heap_ext (w_heap w) h1" and c1: "child_of h1 pobj ?nm = Some so"
    by simp_all
  from add_subitem_grows[OF s2] have e2: "heap_ext h1 h2" and c2: "child_of h2 so (fc_run_id fcs) = Some fo"
    by simp_all
  have "pobj < next_free h1" using e1 assms(2) by (simp add: heap_ext_iff)
  from heap_ext_child[OF e2 this c1] have c1': "child_of h2 pobj ?nm = Some so" .
  from add_fastq_files_grows[OF s4]
  have f: "fastqs (w_heap w') fo = fastqs h2 fo @ map PyStr (filter fastq_pattern_match (files sample))"
    and same: "\<forall>a nm. child_of (w_heap w') a nm = child_of h2 a nm"
    by simp_all
  have p1: "path_exists ?fs2 ?d1"
    by (rule path_exists_ensure_dir_mono) (rule path_exists_ensure_dir)
  have p2: "path_exists ?fs2 ?d2" by (rule path_exists_ensure_dir)
  from c1' c2 same f p1 p2 s3 show ?thesis by force
qed

text \<open>A body of the sample loop that returns keeps the store closed and only lets it grow.\<close>

lemma setup_sample_inv:
  assumes "setup_sample ev fcs project dpd pobj rs sample w = Inr w'"
    and "heap_closed (w_heap w)" and "pobj < next_free (w_heap w)"
  shows "heap_ext (w_heap w) (w_heap w') \<and> heap_closed (w_heap w')
         \<and> (rs = [] \<or> py_replace ''__'' ''.'' (sample_name sample) \<in> set rs \<longrightarrow>
              (\<exists>so fo. child_of (w_heap w') pobj (py_replace ''__'' ''.'' (sample_name sample)) = Some so
                 \<and> child_of (w_heap w') so (fc_run_id fcs) = Some fo
                 \<and> so < next_free (w_heap w') \<and> fo < next_free (w_heap w')
                 \<and> is_run (w_heap w') fo
                 \<and> set (map PyStr (filter fastq_pattern_match (files sample)))
                      \<subseteq> set (fastqs (w_heap w') fo)))"
proof (cases "rs = [] \<or> py_replace ''__'' ''.'' (sample_name sample) \<in> set rs")
  case False
  with assms(1) have "w' = w" by (simp add: setup_sample_def)
  with False assms(2) show ?thesis by (simp add: heap_ext_refl)
next
  case True
  let ?nm = "py_replace ''__'' ''.'' (sample_name sample)"
  from setup_sample_steps[OF assms(1) True] obtain so h1 fo h2 where
    s1: "add_sample pobj ?nm ?nm (w_heap w) = Inr (so, h1)"
    and s2: "add_fcid so (fc_run_id fcs) (fc_run_id fcs) h1 = Inr (fo, h2)"
    and s4: "add_fastq_files fo (PyList (map PyStr (filter fastq_pattern_match (files sample)))) h2
               = Inr (w_heap w')"
    by blast
  from add_subitem_grows[OF s1] have e1: "heap_ext (w_heap w) h1" and c1: "child_of h1 pobj ?nm = Some so"
    by simp_all
  from add_subitem_closed[OF s1 assms(2,3)] have k1: "heap_closed h1" and l1: "so < next_free h1"
    by simp_all
  from add_subitem_grows[OF s2] have e2: "heap_ext h1 h2" and c2: "child_of h2 so (fc_run_id fcs) = Some fo"
    by simp_all
  from add_subitem_closed[OF s2 k1 l1] have k2: "heap_closed h2" and l2: "fo < next_free h2"
    by simp_all
  have "pobj < next_free h1" using e1 assms(3) by (simp add: heap_ext_iff)
  from heap_ext_child[OF e2 this c1] have c1': "child_of h2 pobj ?nm = Some so" .
  have l1': "so < next_free h2" using e2 l1 by (simp add: heap_ext_iff)
  from add_fastq_files_grows[OF s4]
  have e3: "heap_ext h2 (w_heap w')" and nf: "next_free (w_heap w') = next_free h2"
    and r: "is_run (w_heap w') fo"
    and f: "fastqs (w_heap w') fo = fastqs h2 fo @ map PyStr (filter fastq_pattern_match (files sample))"
    and same: "\<forall>a nm. child_of (w_heap w') a nm = child_of h2 a nm"
    and k3: "heap_closed (w_heap w')"
    using k2 by simp_all
  have ext: "heap_ext (w_heap w) (w_heap w')"
    using heap_ext_trans[OF heap_ext_trans[OF e1 e2] e3] .
  have sub: "set (map PyStr (filter fastq_pattern_match (files sample))) \<subseteq> set (fastqs (w_heap w') fo)"
    by (simp only: f set_append) blast
  from c1' c2 same have "child_of (w_heap w') pobj ?nm = Some so"
    "child_of (w_heap w') so (fc_run_id fcs) = Some fo" by simp_all
  with ext k3 l1' l2 nf r sub show ?thesis by auto
qed

lemma setup_samples_inv:
  assumes "setup_samples ev fcs project dpd pobj rs ss w = Inr w'"
    and "heap_closed (w_heap w)" and "pobj < next_free (w_heap w)"
  shows "heap_ext (w_heap w) (w_heap w') \<and> heap_closed (w_heap w')
         \<and> (\<forall>s \<in> set ss. rs = [] \<or> py_replace ''__'' ''.'' (sample_name s) \<in> set rs \<longrightarrow>
              (\<exists>so fo. child_of (w_heap w') pobj (py_replace ''__'' ''.'' (sample_name s)) = Some so
                 \<and> child_of (w_heap w') so (fc_run_id fcs) = Some fo
                 \<and> is_run (w_heap w') fo
                 \<and> set (map PyStr (filter fastq_pattern_match (files s)))
                      \<subseteq> set (fastqs (w_heap w') fo)))"
  using assms
proof (induction ss arbitrary: w)
  case Nil
  then have "w' = w" by simp
  with Nil show ?case by (simp add: heap_ext_refl)
next
  case (Cons x xs)
  from Cons.prems(1) obtain w1 where
    st: "setup_sample ev fcs project dpd pobj rs x w = Inr w1"
    and rest: "setup_samples ev fcs project dpd pobj rs xs w1 = Inr w'"
    by (cases "setup_sample ev fcs project dpd pobj rs x w") simp_all
  note inv1 = setup_sample_inv[OF st Cons.prems(2,3)]
  from inv1 have e1: "heap_ext (w_heap w) (w_heap w1)" and k1: "heap_closed (w_heap w1)" by simp_all
  have p1: "pobj < next_free (w_heap w1)" using e1 Cons.prems(3) by (simp add: heap_ext_iff)
  note inv2 = Cons.IH[OF rest k1 p1]
  from inv2 have e2: "heap_ext (w_heap w1) (w_heap w')" and k2: "heap_closed (w_heap w')" by simp_all
  have head: "rs = [] \<or> py_replace ''__'' ''.'' (sample_name x) \<in> set rs \<Longrightarrow>
              \<exists>so fo. child_of (w_heap w') pobj (py_replace ''__'' ''.'' (sample_name x)) = Some so
                 \<and> child_of (w_heap w') so (fc_run_id fcs) = Some fo
                 \<and> is_run (w_heap w') fo
                 \<and> set (map PyStr (filter fastq_pattern_match (files x)))
                      \<subseteq> set (fastqs (w_heap w') fo)"
  proof -
    assume "rs = [] \<or> py_replace ''__'' ''.'' (sample_name x) \<in> set rs"
    with inv1 obtain so fo where
      a: "child_of (w_heap w1) pobj (py_replace ''__'' ''.'' (sample_name x)) = Some so"
      and b: "child_of (w_heap w1) so (fc_run_id fcs) = Some fo"
      and c: "so < next_free (w_heap w1)" and d: "fo < next_free (w_heap w1)"
      and e: "is_run (w_heap w1) fo"
      and f: "set (map PyStr (filter fastq_pattern_match (files x))) \<subseteq> set (fastqs (w_heap w1) fo)"
      by blast
    from heap_ext_child[OF e2 p1 a] have a': "child_of (w_heap w') pobj (py_replace ''__'' ''.'' (sample_name x)) = Some so" .
    from heap_ext_child[OF e2 c b] have b': "child_of (w_heap w') so (fc_run_id fcs) = Some fo" .
    from heap_ext_fastqs[OF e2 d e] have e': "is_run (w_heap w') fo"
      and g: "set (fastqs (w_heap w1) fo) \<subseteq> set (fastqs (w_heap w') fo)" by simp_all
    from f g have "set (map PyStr (filter fastq_pattern_match (files x))) \<subseteq> set (fastqs (w_heap w') fo)"
      by (rule subset_trans)
    with a' b' e' show ?thesis by blast
  qed
  have "heap_ext (w_heap w) (w_heap w')" using heap_ext_trans[OF e1 e2] .
  moreover have "\<forall>s \<in> set (x # xs). rs = [] \<or> py_replace ''__'' ''.'' (sample_name s) \<in> set rs \<longrightarrow>
              (\<exists>so fo. child_of (w_heap w') pobj (py_replace ''__'' ''.'' (sample_name s)) = Some so
                 \<and> child_of (w_heap w') so (fc_run_id fcs) = Some fo
                 \<and> is_run (w_heap w') fo
                 \<and> set (map PyStr (filter fastq_pattern_match (files s)))
                      \<subseteq> set (fastqs (w_heap w') fo))"
  proof (intro ballI impI)
    fix s assume s: "s \<in> set (x # xs)"
      and al: "rs = [] \<or> py_replace ''__'' ''.'' (sample_name s) \<in> set rs"
    show "\<exists>so fo. child_of (w_heap w') pobj (py_replace ''__'' ''.'' (sample_name s)) = Some so
                 \<and> child_of (w_heap w') so (fc_run_id fcs) = Some fo
                 \<and> is_run (w_heap w') fo
                 \<and> set (map PyStr (filter fastq_pattern_match (files s)))
                      \<subseteq> set (fastqs (w_heap w') fo)"
    proof (cases "s = x")
      case True
      with al head show ?thesis by simp
    next
      case False
      with s have "s \<in> set xs" by simp
      with inv2 al show ?thesis by blast
    qed
  qed
  ultimately show ?case using k2 by blast
qed

lemma sample_present_iff:
  "sample_present h po nm rid fl \<longleftrightarrow>
     (\<exists>so fo. child_of h po nm = Some so \<and> child_of h so rid = Some fo \<and> is_run h fo
        \<and> set (map PyStr fl) \<subseteq> set (fastqs h fo))"
  by (auto simp: sample_present_def list_all_iff split: option.splits)

lemma heap_closed_child:
  assumes "heap_closed h" and "a < next_free h" and "child_of h a nm = Some c"
  shows "c < next_free h"
proof -
  from assms(3) obtain d where d: "subitems (cells h a) = SubDict d" and m: "map_of d nm = Some c"
    by (auto simp: child_of_def split: subitems_val.splits)
  from m have "(nm, c) \<in> set d" by (rule map_of_SomeD)
  with assms(1,2) d show ?thesis unfolding heap_closed_iff by blast
qed

lemma sample_present_ext:
  assumes "heap_ext h h'" and "heap_closed h" and "po < next_free h"
    and "sample_present h po nm rid fl"
  shows "sample_present h' po nm rid fl"
proof -
  from assms(4) obtain so fo where a: "child_of h po nm = Some so"
    and b: "child_of h so rid = Some fo" and c: "is_run h fo"
    and d: "set (map PyStr fl) \<subseteq> set (fastqs h fo)"
    unfolding sample_present_iff by blast
  from heap_closed_child[OF assms(2,3) a] have so: "so < next_free h" .
  from heap_closed_child[OF assms(2) so b] have fo: "fo < next_free h" .
  from heap_ext_child[OF assms(1,3) a] have a': "child_of h' po nm = Some so" .
  from heap_ext_child[OF assms(1) so b] have b': "child_of h' so rid = Some fo" .
  from heap_ext_fastqs[OF assms(1) fo c] have c': "is_run h' fo"
    and g: "set (fastqs h fo) \<subseteq> set (fastqs h' fo)" by simp_all
  from d g have "set (map PyStr fl) \<subseteq> set (fastqs h' fo)" by (rule subset_trans)
  with a' b' c' show ?thesis unfolding sample_present_iff by blast
qed

lemma heap_alloc_ext: "heap_ext h (snd (heap_alloc obj h))"
  unfolding heap_ext_iff by (simp add: heap_alloc_def grown_refl)

lemma take_take_prefix:
  assumes "take (length d) d1 = d" and "take (length d1) d2 = d1"
  shows "take (length d) d2 = d"
proof -
  have "length d \<le> length d1" using assms(1) by (metis length_take min.cobounded1)
  then have "take (length d) d2 = take (length d) (take (length d1) d2)"
    by (simp add: min_def)
  with assms show ?thesis by simp
qed

text \<open>
  A body of the project loop that returns: the store has only grown, the dict has only
  grown at its end, and a project that was not skipped is bound in the dict, with every
  sample of it that the sample list lets through under it.
\<close>

lemma setup_project_inv:
  assumes "setup_project ev fcs top_dir rp rs project (ProjDict d, w) = Inr (pta', w')"
    and "heap_closed (w_heap w)"
    and "list_all (\<lambda>a. a < next_free (w_heap w)) (map snd d)"
  shows "heap_ext (w_heap w) (w_heap w') \<and> heap_closed (w_heap w')
         \<and> (\<exists>d'. pta' = ProjDict d' \<and> take (length d) d' = d
              \<and> list_all (\<lambda>a. a < next_free (w_heap w')) (map snd d')
              \<and> (rp = [] \<or> project_name project \<in> set rp \<longrightarrow>
                   (\<exists>po. map_of d' (path_join top_dir (project_name project)) = Some po
                      \<and> (\<forall>s \<in> set (samples project).
                            rs = [] \<or> py_replace ''__'' ''.'' (sample_name s) \<in> set rs \<longrightarrow>
                            sample_present (w_heap w') po (py_replace ''__'' ''.'' (sample_name s))
                              (fc_run_id fcs) (filter fastq_pattern_match (files s))))))"
proof (cases "rp = [] \<or> project_name project \<in> set rp")
  case False
  with assms(1) have "pta' = ProjDict d" "w' = w" by (simp_all add: setup_project_def)
  with False assms(2,3) show ?thesis by (simp add: heap_ext_refl)
next
  case True
  let ?k = "path_join top_dir (project_name project)"
  let ?fs1 = "ensure_dir ?k (w_fs w)"
  have bound: "\<And>a. a \<in> set (map snd d) \<Longrightarrow> a < next_free (w_heap w)"
    using assms(3) by (auto simp: list_all_iff)
  show ?thesis
  proof (cases "map_of d ?k")
    case (Some a)
    from assms(1) True Some
    have run: "setup_samples ev fcs project ?k a rs (samples project) \<lparr>w_fs = ?fs1, w_heap = w_heap w\<rparr> = Inr w'"
      and pta: "pta' = ProjDict d"
      by (auto simp: setup_project_def Let_def split: sum.splits)
    from Some have "(?k, a) \<in> set d" by (rule map_of_SomeD)
    then have "a \<in> set (map snd d)" by force
    then have lt: "a < next_free (w_heap w)" by (rule bound)
    from setup_samples_inv[OF run] assms(2) lt
    have e: "heap_ext (w_heap w) (w_heap w')" and k: "heap_closed (w_heap w')"
      and all: "\<forall>s \<in> set (samples project).
                  rs = [] \<or> py_replace ''__'' ''.'' (sample_name s) \<in> set rs \<longrightarrow>
                  sample_present (w_heap w') a (py_replace ''__'' ''.'' (sample_name s))
                    (fc_run_id fcs) (filter fastq_pattern_match (files s))"
      unfolding sample_present_iff by simp_all
    have "list_all (\<lambda>a. a < next_free (w_heap w')) (map snd d)"
      unfolding list_all_iff using bound e by (fastforce simp: heap_ext_iff)
    with e k all pta Some show ?thesis by simp
  next
    case None
    let ?obj = "NGIProject_init (project_name project) (project_name project) top_dir"
    let ?h1 = "snd (heap_alloc ?obj (w_heap w))"
    let ?a = "next_free (w_heap w)"
    from assms(1) True None
    have run: "setup_samples ev fcs project ?k ?a rs (samples project) \<lparr>w_fs = ?fs1, w_heap = ?h1\<rparr> = Inr w'"
      and pta: "pta' = ProjDict (d @ [(?k, ?a)])"
      by (auto simp: setup_project_def Let_def heap_alloc_def split: sum.splits)
    have k1: "heap_closed ?h1"
      by (rule heap_alloc_closed[OF assms(2)]) (simp add: NGIProject_init_def)
    have lt: "?a < next_free ?h1" by (simp add: heap_alloc_def)
    have m: "map_of (d @ [(?k, ?a)]) ?k = Some ?a" using None by (rule map_of_snoc_new)
    from setup_samples_inv[OF run] k1 lt
    have e1: "heap_ext ?h1 (w_heap w')" and k: "heap_closed (w_heap w')"
      and all: "\<forall>s \<in> set (samples project).
                  rs = [] \<or> py_replace ''__'' ''.'' (sample_name s) \<in> set rs \<longrightarrow>
                  sample_present (w_heap w') ?a (py_replace ''__'' ''.'' (sample_name s))
                    (fc_run_id fcs) (filter fastq_pattern_match (files s))"
      unfolding sample_present_iff by simp_all
    have e: "heap_ext (w_heap w) (w_heap w')"
      using heap_ext_trans[OF heap_alloc_ext e1] .
    have nf: "next_free ?h1 \<le> next_free (w_heap w')" using e1 by (simp add: heap_ext_iff)
    have "list_all (\<lambda>a. a < next_free (w_heap w')) (map snd (d @ [(?k, ?a)]))"
      unfolding list_all_iff using bound nf lt by fastforce
    with e k all pta m show ?thesis by simp
  qed
qed

lemma setup_projects_inv:
  assumes "setup_projects ev fcs top_dir rp rs ps (ProjDict d, w) = Inr (pta', w')"
    and "heap_closed (w_heap w)"
    and "list_all (\<lambda>a. a < next_free (w_heap w)) (map snd d)"
  shows "heap_ext (w_heap w) (w_heap w') \<and> heap_closed (w_heap w')
         \<and> (\<exists>d'. pta' = ProjDict d' \<and> take (length d) d' = d
              \<and> list_all (\<lambda>a. a < next_free (w_heap w')) (map snd d')
              \<and> (\<forall>p \<in> set ps. rp = [] \<or> project_name p \<in> set rp \<longrightarrow>
                   (\<exists>po. map_of d' (path_join top_dir (project_name p)) = Some po
                      \<and> (\<forall>s \<in> set (samples p).
                            rs = [] \<or> py_replace ''__'' ''.'' (sample_name s) \<in> set rs \<longrightarrow>
                            sample_present (w_heap w') po (py_replace ''__'' ''.'' (sample_name s))
                              (fc_run_id fcs) (filter fastq_pattern_match (files s))))))"
  using assms
proof (induction ps arbitrary: d w)
  case Nil
  then have "pta' = ProjDict d" "w' = w" by simp_all
  with Nil show ?case by (simp add: heap_ext_refl)
next
  case (Cons x xs)
  from Cons.prems(1) obtain st1 where
    st: "setup_project ev fcs top_dir rp rs x (ProjDict d, w) = Inr st1"
    and rest0: "setup_projects ev fcs top_dir rp rs xs st1 = Inr (pta', w')"
    by (cases "setup_project ev fcs top_dir rp rs x (ProjDict d, w)") simp_all
  obtain pta1 w1 where st1: "st1 = (pta1, w1)" by (cases st1)
  note inv1 = setup_project_inv[OF st[unfolded st1] Cons.prems(2,3)]
  from inv1 obtain d1 where e1: "heap_ext (w_heap w) (w_heap w1)" and k1: "heap_closed (w_heap w1)"
    and d1: "pta1 = ProjDict d1" and t1: "take (length d) d1 = d"
    and b1: "list_all (\<lambda>a. a < next_free (w_heap w1)) (map snd d1)"
    and h1: "rp = [] \<or> project_name x \<in> set rp \<longrightarrow>
                   (\<exists>po. map_of d1 (path_join top_dir (project_name x)) = Some po
                      \<and> (\<forall>s \<in> set (samples x).
                            rs = [] \<or> py_replace ''__'' ''.'' (sample_name s) \<in> set rs \<longrightarrow>
                            sample_present (w_heap w1) po (py_replace ''__'' ''.'' (sample_name s))
                              (fc_run_id fcs) (filter fastq_pattern_match (files s))))"
    by blast
  from rest0 st1 d1 have rest: "setup_projects ev fcs top_dir rp rs xs (ProjDict d1, w1) = Inr (pta', w')"
    by simp
  note inv2 = Cons.IH[OF rest k1 b1]
  from inv2 obtain d' where e2: "heap_ext (w_heap w1) (w_heap w')" and k2: "heap_closed (w_heap w')"
    and d': "pta' = ProjDict d'" and t2: "take (length d1) d' = d1"
    and b2: "list_all (\<lambda>a. a < next_free (w_heap w')) (map snd d')"
    and h2: "\<forall>p \<in> set xs. rp = [] \<or> project_name p \<in> set rp \<longrightarrow>
                   (\<exists>po. map_of d' (path_join top_dir (project_name p)) = Some po
                      \<and> (\<forall>s \<in> set (samples p).
                            rs = [] \<or> py_replace ''__'' ''.'' (sample_name s) \<in> set rs \<longrightarrow>
                            sample_present (w_heap w') po (py_replace ''__'' ''.'' (sample_name s))
                              (fc_run_id fcs) (filter fastq_pattern_match (files s))))"
    by blast
  have head: "rp = [] \<or> project_name x \<in> set rp \<Longrightarrow>
                   \<exists>po. map_of d' (path_join top_dir (project_name x)) = Some po
                      \<and> (\<forall>s \<in> set (samples x).
                            rs = [] \<or> py_replace ''__'' ''.'' (sample_name s) \<in> set rs \<longrightarrow>
                            sample_present (w_heap w') po (py_replace ''__'' ''.'' (sample_name s))
                              (fc_run_id fcs) (filter fastq_pattern_match (files s)))"
  proof -
    assume "rp = [] \<or> project_name x \<in> set rp"
    with h1 obtain po where m: "map_of d1 (path_join top_dir (project_name x)) = Some po"
      and sp: "\<forall>s \<in> set (samples x).
                            rs = [] \<or> py_replace ''__'' ''.'' (sample_name s) \<in> set rs \<longrightarrow>
                            sample_present (w_heap w1) po (py_replace ''__'' ''.'' (sample_name s))
                              (fc_run_id fcs) (filter fastq_pattern_match (files s))"
      by blast
    from map_of_take[OF t2 m] have m': "map_of d' (path_join top_dir (project_name x)) = Some po" .
    from m have "(path_join top_dir (project_name x), po) \<in> set d1" by (rule map_of_SomeD)
    then have "po \<in> set (map snd d1)" by force
    with b1 have lt: "po < next_free (w_heap w1)" by (auto simp: list_all_iff)
    have "\<forall>s \<in> set (samples x).
                            rs = [] \<or> py_replace ''__'' ''.'' (sample_name s) \<in> set rs \<longrightarrow>
                            sample_present (w_heap w') po (py_replace ''__'' ''.'' (sample_name s))
                              (fc_run_id fcs) (filter fastq_pattern_match (files s))"
      using sp sample_present_ext[OF e2 k1 lt] by blast
    with m' show ?thesis by blast
  qed
  have all: "\<forall>p \<in> set (x # xs). rp = [] \<or> project_name p \<in> set rp \<longrightarrow>
                   (\<exists>po. map_of d' (path_join top_dir (project_name p)) = Some po
                      \<and> (\<forall>s \<in> set (samples p).
                            rs = [] \<or> py_replace ''__'' ''.'' (sample_name s) \<in> set rs \<longrightarrow>
                            sample_present (w_heap w') po (py_replace ''__'' ''.'' (sample_name s))
                              (fc_run_id fcs) (filter fastq_pattern_match (files s))))"
  proof (intro ballI impI)
    fix p assume p: "p \<in> set (x # xs)" and al: "rp = [] \<or> project_name p \<in> set rp"
    show "\<exists>po. map_of d' (path_join top_dir (project_name p)) = Some po
                      \<and> (\<forall>s \<in> set (samples p).
                            rs = [] \<or> py_replace ''__'' ''.'' (sample_name s) \<in> set rs \<longrightarrow>
                            sample_present (w_heap w') po (py_replace ''__'' ''.'' (sample_name s))
                              (fc_run_id fcs) (filter fastq_pattern_match (files s)))"
    proof (cases "p = x")
      case True
      with al head show ?thesis by simp
    next
      case False
      with p have "p \<in> set xs" by simp
      with h2 al show ?thesis by blast
    qed
  qed
  have "heap_ext (w_heap w) (w_heap w')" using heap_ext_trans[OF e1 e2] .
  moreover have "take (length d) d' = d" using take_take_prefix[OF t1 t2] .
  ultimately show ?case using k2 d' b2 all by blast
qed

text \<open>The same of a whole reconciliation that returns.\<close>

lemma reconcile_allowed:
  assumes "reconcile ev fcs top_dir rp rs (ProjDict d, w) = Inr (pta', w')"
    and "heap_closed (w_heap w)"
    and "list_all (\<lambda>a. a < next_free (w_heap w)) (map snd d)"
  shows "\<exists>d'. pta' = ProjDict d'
           \<and> (\<forall>p \<in> set (projects fcs). rp = [] \<or> project_name p \<in> set rp \<longrightarrow>
                (\<exists>po. map_of d' (path_join top_dir (project_name p)) = Some po
                   \<and> (\<forall>s \<in> set (samples p).
                         rs = [] \<or> py_replace ''__'' ''.'' (sample_name s) \<in> set rs \<longrightarrow>
                         sample_present (w_heap w') po (py_replace ''__'' ''.'' (sample_name s))
                           (fc_run_id fcs) (filter fastq_pattern_match (files s)))))"
proof -
  from assms(1) obtain fs1 where
    run: "setup_projects ev fcs top_dir rp rs (projects fcs) (ProjDict d, w\<lparr>w_fs := fs1\<rparr>) = Inr (pta', w')"
    by (auto simp: reconcile_def Let_def split: sum.splits)
  have "heap_closed (w_heap (w\<lparr>w_fs := fs1\<rparr>))"
    "list_all (\<lambda>a. a < next_free (w_heap (w\<lparr>w_fs := fs1\<rparr>))) (map snd d)"
    using assms(2,3) by simp_all
  from setup_projects_inv[OF run this] show ?thesis by blast
qed

text \<open>
  C8. With a non-empty project allow-list, the loop body of a project whose name is not in
  the list returns the dict, the file system and the object store as they were: no
  directory is created and no node is made; and every key that the project loop adds to
  the dict is the destination directory of an allowed name. Likewise the loop body of a
  sample whose normalised name is not in a non-empty sample allow-list changes nothing.
  With an empty list every project and every sample is handled as one that the list
  allows, and a project handled with success is bound in the dict.

  A sample that is let through (the list is empty or holds its normalised name) is
  handled: when its loop body returns, on a Project that the store holds, the Sample is
  under the Project, the Run of the flowcell is under the Sample, the sequence files of
  the sample are the end of the file list of the Run, and the transfer ran on a file
  system in which the sample directory and the run directory exist. And when a whole
  reconciliation returns, from a dict whose Projects the store holds, every project of
  the RunDescription that is let through is bound in the dict to a Project under which
  every sample of it that is let through has its Sample, its Run and its sequence files.
\<close>

theorem restrictions_skip:
  "(rp \<noteq> [] \<and> project_name project \<notin> set rp
      \<longrightarrow> setup_project ev fcs top_dir rp rs project st = Inr st)
   \<and> (rs \<noteq> [] \<and> py_replace ''__'' ''.'' (sample_name sample) \<notin> set rs
      \<longrightarrow> setup_sample ev fcs project dpd pobj rs sample w = Inr w)
   \<and> (rp \<noteq> [] \<and> setup_projects ev fcs top_dir rp rs ps (ProjDict d, w) = Inr (pta', w')
      \<longrightarrow> (\<exists>d'. pta' = ProjDict d' \<and> fst ` set d' \<subseteq> fst ` set d \<union> path_join top_dir ` set rp))
   \<and> setup_project ev fcs top_dir [] rs project st
       = setup_project ev fcs top_dir [project_name project] rs project st
   \<and> setup_sample ev fcs project dpd pobj [] sample w
       = setup_sample ev fcs project dpd pobj [py_replace ''__'' ''.'' (sample_name sample)] sample w
   \<and> (setup_project ev fcs top_dir [] rs project (ProjDict d, w) = Inr (pta', w')
      \<longrightarrow> (\<exists>d'. pta' = ProjDict d' \<and> map_of d' (path_join top_dir (project_name project)) \<noteq> None))
   \<and> ((rs = [] \<or> py_replace ''__'' ''.'' (sample_name sample) \<in> set rs)
        \<and> pobj < next_free (w_heap ws)
        \<and> setup_sample ev fcs project dpd pobj rs sample ws = Inr ws'
      \<longrightarrow> (\<exists>so fo old fs2.
             child_of (w_heap ws') pobj (py_replace ''__'' ''.'' (sample_name sample)) = Some so
           \<and> child_of (w_heap ws') so (fc_run_id fcs) = Some fo
           \<and> fastqs (w_heap ws') fo = old @ map PyStr (filter fastq_pattern_match (files sample))
           \<and> path_exists fs2 (path_join dpd (py_replace ''__'' ''.'' (sample_name sample)))
           \<and> path_exists fs2
                (path_join (path_join dpd (py_replace ''__'' ''.'' (sample_name sample))) (fc_run_id fcs))
           \<and> transfer ev
                (map (path_join (path_join (path_join (path_join (fc_dir fcs) (data_dir project))
                                   (project_dir project)) (sample_dir sample))) (files sample))
                (path_join (path_join dpd (py_replace ''__'' ''.'' (sample_name sample))) (fc_run_id fcs))
                fs2 = Some (w_fs ws')))
   \<and> (heap_closed (w_heap wr) \<and> list_all (\<lambda>a. a < next_free (w_heap wr)) (map snd dr)
        \<and> reconcile ev fcs top_dir rp rs (ProjDict dr, wr) = Inr (ptar, wr')
      \<longrightarrow> (\<exists>d'. ptar = ProjDict d'
           \<and> (\<forall>p \<in> set (projects fcs). rp = [] \<or> project_name p \<in> set rp \<longrightarrow>
                (\<exists>po. map_of d' (path_join top_dir (project_name p)) = Some po
                   \<and> (\<forall>s \<in> set (samples p).
                         rs = [] \<or> py_replace ''__'' ''.'' (sample_name s) \<in> set rs \<longrightarrow>
                         sample_present (w_heap wr') po (py_replace ''__'' ''.'' (sample_name s))
                           (fc_run_id fcs) (filter fastq_pattern_match (files s)))))))"
proof (intro conjI impI)
  assume "rp \<noteq> [] \<and> project_name project \<notin> set rp"
  then show "setup_project ev fcs top_dir rp rs project st = Inr st"
    by (simp add: setup_project_def)
next
  assume "rs \<noteq> [] \<and> py_replace ''__'' ''.'' (sample_name sample) \<notin> set rs"
  then show "setup_sample ev fcs project dpd pobj rs sample w = Inr w"
    by (simp add: setup_sample_def)
next
  assume "rp \<noteq> [] \<and> setup_projects ev fcs top_dir rp rs ps (ProjDict d, w) = Inr (pta', w')"
  then show "\<exists>d'. pta' = ProjDict d' \<and> fst ` set d' \<subseteq> fst ` set d \<union> path_join top_dir ` set rp"
    using setup_projects_keys by blast
next
  show "setup_project ev fcs top_dir [] rs project st
       = setup_project ev fcs top_dir [project_name project] rs project st"
    by (simp add: setup_project_def)
next
  show "setup_sample ev fcs project dpd pobj [] sample w
       = setup_sample ev fcs project dpd pobj [py_replace ''__'' ''.'' (sample_name sample)] sample w"
    by (simp add: setup_sample_def)
next
  assume "setup_project ev fcs top_dir [] rs project (ProjDict d, w) = Inr (pta', w')"
  from setup_project_keys[OF this]
  show "\<exists>d'. pta' = ProjDict d' \<and> map_of d' (path_join top_dir (project_name project)) \<noteq> None"
    by blast
next
  assume h: "(rs = [] \<or> py_replace ''__'' ''.'' (sample_name sample) \<in> set rs)
        \<and> pobj < next_free (w_heap ws)
        \<and> setup_sample ev fcs project dpd pobj rs sample ws = Inr ws'"
  then have a: "rs = [] \<or> py_replace ''__'' ''.'' (sample_name sample) \<in> set rs"
    and b: "pobj < next_free (w_heap ws)"
    and c: "setup_sample ev fcs project dpd pobj rs sample ws = Inr ws'"
    by simp_all
  show "\<exists>so fo old fs2.
             child_of (w_heap ws') pobj (py_replace ''__'' ''.'' (sample_name sample)) = Some so
           \<and> child_of (w_heap ws') so (fc_run_id fcs) = Some fo
           \<and> fastqs (w_heap ws') fo = old @ map PyStr (filter fastq_pattern_match (files sample))
           \<and> path_exists fs2 (path_join dpd (py_replace ''__'' ''.'' (sample_name sample)))
           \<and> path_exists fs2
                (path_join (path_join dpd (py_replace ''__'' ''.'' (sample_name sample))) (fc_run_id fcs))
           \<and> transfer ev
                (map (path_join (path_join (path_join (path_join (fc_dir fcs) (data_dir project))
                                   (project_dir project)) (sample_dir sample))) (files sample))
                (path_join (path_join dpd (py_replace ''__'' ''.'' (sample_name sample))) (fc_run_id fcs))
                fs2 = Some (w_fs ws')"
    by (rule setup_sample_allowed[OF a b c])
next
  assume h: "heap_closed (w_heap wr) \<and> list_all (\<lambda>a. a < next_free (w_heap wr)) (map snd dr)
        \<and> reconcile ev fcs top_dir rp rs (ProjDict dr, wr) = Inr (ptar, wr')"
  then have a: "heap_closed (w_heap wr)"
    and b: "list_all (\<lambda>a. a < next_free (w_heap wr)) (map snd dr)"
    and c: "reconcile ev fcs top_dir rp rs (ProjDict dr, wr) = Inr (ptar, wr')"
    by simp_all
  show "\<exists>d'. ptar = ProjDict d'
           \<and> (\<forall>p \<in> set (projects fcs). rp = [] \<or> project_name p \<in> set rp \<longrightarrow>
                (\<exists>po. map_of d' (path_join top_dir (project_name p)) = Some po
                   \<and> (\<forall>s \<in> set (samples p).
                         rs = [] \<or> py_replace ''__'' ''.'' (sample_name s) \<in> set rs \<longrightarrow>
                         sample_present (w_heap wr') po (py_replace ''__'' ''.'' (sample_name s))
                           (fc_run_id fcs) (filter fastq_pattern_match (files s)))))"
    by (rule reconcile_allowed[OF c a b])
qed

lemma example_transfers_succeed: "transfers_succeed example_env"
  by (simp add: transfers_succeed_def example_env_def)

lemma example_sample_allowed:
  "[''S1''] = [] \<or> py_replace ''__'' ''.'' (sample_name example_sample) \<in> set [''S1'']"
  by (simp add: example_sample_def startswith_def)

lemma example_setup_sample:
  "\<exists>w'. setup_sample example_env example_rd1 example_project ''/a/A_13_02'' 0 [''S1''] example_sample
           \<lparr>w_fs = fs, w_heap = snd (heap_alloc (NGIProject_init ''A_13_02'' ''A_13_02'' ''/a'') empty_heap)\<rparr>
         = Inr w'"
proof -
  let ?h0 = "snd (heap_alloc (NGIProject_init ''A_13_02'' ''A_13_02'' ''/a'') empty_heap)"
  have "subitems (cells ?h0 0) = SubDict []" "subitem_type (cells ?h0 0) = Some NGISample"
    "0 < next_free ?h0"
    by (simp_all add: heap_alloc_def NGIProject_init_def empty_heap_def)
  from sample_heap_effect_fresh[OF this] obtain h' where
    "sample_heap_effect 0 (py_replace ''__'' ''.'' (sample_name example_sample)) (fc_run_id example_rd1)
       (files example_sample) ?h0 = Inr h'"
    by blast
  then have "sample_heap_effect 0 (py_replace ''__'' ''.'' (sample_name example_sample))
       (fc_run_id example_rd1) (files example_sample)
       (w_heap \<lparr>w_fs = fs, w_heap = ?h0\<rparr>) = Inr h'"
    by simp
  from setup_sample_result[OF example_transfers_succeed example_sample_allowed this]
  show ?thesis by blast
qed

lemma example_reconcile:
  "\<exists>w'. reconcile example_env example_rd1 ''/a'' [''A_13_02''] [''S1''] (ProjDict [], example_world)
         = Inr (ProjDict [(''/a/A_13_02'', 0)], w')"
proof -
  let ?h0 = "snd (heap_alloc (NGIProject_init ''A_13_02'' ''A_13_02'' ''/a'') empty_heap)"
  let ?fs = "ensure_dir ''/a/A_13_02'' example_fs"
  have k: "path_join ''/a'' ''A_13_02'' = ''/a/A_13_02''"
    by (simp add: path_join_def startswith_def endswith_def)
  from example_setup_sample[of ?fs] obtain w1 where
    w1: "setup_sample example_env example_rd1 example_project ''/a/A_13_02'' 0 [''S1''] example_sample
           \<lparr>w_fs = ?fs, w_heap = ?h0\<rparr> = Inr w1"
    by blast
  have n: "next_free empty_heap = 0" by (simp add: empty_heap_def)
  have p: "projects example_rd1 = [example_project]" "basecall_stats_dir example_rd1 = []"
    by (simp_all add: example_rd1_def)
  have q: "project_name example_project = ''A_13_02''" "samples example_project = [example_sample]"
    by (simp_all add: example_project_def)
  have a: "fst (heap_alloc (NGIProject_init ''A_13_02'' ''A_13_02'' ''/a'') empty_heap) = 0"
    by (simp add: heap_alloc_def n)
  have "setup_project example_env example_rd1 ''/a'' [''A_13_02''] [''S1''] example_project
          (ProjDict [], example_world) = Inr (ProjDict [(''/a/A_13_02'', 0)], w1)"
    by (simp add: setup_project_def q k example_world_def split_beta a w1)
  then show ?thesis by (simp add: reconcile_def p example_world_def)
qed

lemma example_closed: "heap_closed (w_heap example_world)"
  by (simp add: heap_closed_def example_world_def empty_heap_def)

theorem restrictions_skip_witness:
  "setup_project example_env example_rd1 ''/a'' [''B''] [''S9''] example_project (ProjDict [], example_world)
     = Inr (ProjDict [], example_world)
   \<and> setup_sample example_env example_rd1 example_project ''/a/A_13_02'' 0 [''S9''] example_sample
         \<lparr>w_fs = example_fs, w_heap = example_project_heap\<rparr>
     = Inr \<lparr>w_fs = example_fs, w_heap = example_project_heap\<rparr>
   \<and> setup_projects example_env example_rd1 ''/a'' [''B''] [''S9''] [example_project] (ProjDict [], example_world)
     = Inr (ProjDict [], example_world)
   \<and> setup_project example_env example_rd1 ''/a'' [] [] example_empty_project (ProjDict [], example_world)
     = Inr (ProjDict [(''/a/B'', 0)],
            \<lparr>w_fs = safe_makedir ''/a/B'' example_fs,
             w_heap = snd (heap_alloc (NGIProject_init ''B'' ''B'' ''/a'') empty_heap)\<rparr>)
   \<and> (\<exists>d'. ProjDict [(''/a/B'', 0 :: addr)] = ProjDict d' \<and> map_of d' ''/a/B'' \<noteq> None)
   \<and> (\<exists>ws'. setup_sample example_env example_rd1 example_project ''/a/A_13_02'' 0 [''S1''] example_sample
               \<lparr>w_fs = example_fs,
                w_heap = snd (heap_alloc (NGIProject_init ''A_13_02'' ''A_13_02'' ''/a'') empty_heap)\<rparr>
             = Inr ws'
        \<and> (\<exists>so fo old fs2.
              child_of (w_heap ws') 0 ''S1'' = Some so
            \<and> child_of (w_heap ws') so ''140220_AH8AMJADXX'' = Some fo
            \<and> fastqs (w_heap ws') fo = old @ [PyStr ''x_1.fastq.gz'', PyStr ''x_2.fastq.gz'']
            \<and> path_exists fs2 ''/a/A_13_02/S1''
            \<and> path_exists fs2 ''/a/A_13_02/S1/140220_AH8AMJADXX''
            \<and> transfer example_env
                 [''/s/r1/Unaligned/Project_A_13_02/Sample_S1/x_1.fastq.gz'',
                  ''/s/r1/Unaligned/Project_A_13_02/Sample_S1/x_2.fastq.gz'']
                 ''/a/A_13_02/S1/140220_AH8AMJADXX'' fs2 = Some (w_fs ws')))
   \<and> heap_closed (w_heap example_world)
   \<and> (\<exists>d' wr'. reconcile example_env example_rd1 ''/a'' [''A_13_02''] [''S1''] (ProjDict [], example_world)
                  = Inr (ProjDict d', wr')
        \<and> (\<exists>po. map_of d' ''/a/A_13_02'' = Some po
              \<and> sample_present (w_heap wr') po ''S1'' ''140220_AH8AMJADXX''
                  [''x_1.fastq.gz'', ''x_2.fastq.gz'']))"
proof -
  have p: "[''B''] \<noteq> [] \<and> project_name example_project \<notin> set [''B'']"
    by (simp add: example_project_def)
  have s: "[''S9''] \<noteq> [] \<and> py_replace ''__'' ''.'' (sample_name example_sample) \<notin> set [''S9'']"
    by (simp add: example_sample_def startswith_def)
  note r = restrictions_skip [where rp = "[''B'']" and project = example_project and ev = example_env
             and fcs = example_rd1 and top_dir = "''/a''" and rs = "[''S9'']"
             and st = "(ProjDict [], example_world)" and sample = example_sample
             and dpd = "''/a/A_13_02''" and pobj = 0
             and w = "\<lparr>w_fs = example_fs, w_heap = example_project_heap\<rparr>"]
  have one: "setup_project example_env example_rd1 ''/a'' [''B''] [''S9''] example_project
                        (ProjDict [], example_world) = Inr (ProjDict [], example_world)"
    by (rule mp[OF r[THEN conjunct1] p])
  have two: "setup_sample example_env example_rd1 example_project ''/a/A_13_02'' 0 [''S9'']
         example_sample \<lparr>w_fs = example_fs, w_heap = example_project_heap\<rparr>
     = Inr \<lparr>w_fs = example_fs, w_heap = example_project_heap\<rparr>"
    by (rule mp[OF r[THEN conjunct2, THEN conjunct1] s])
  have three: "setup_projects example_env example_rd1 ''/a'' [''B''] [''S9''] [example_project]
                 (ProjDict [], example_world) = Inr (ProjDict [], example_world)"
    by (simp add: one)
  have k: "path_join ''/a'' ''B'' = ''/a/B''"
    by (simp add: path_join_def startswith_def endswith_def)
  have four: "setup_project example_env example_rd1 ''/a'' [] [] example_empty_project
                (ProjDict [], example_world)
     = Inr (ProjDict [(''/a/B'', 0)],
            \<lparr>w_fs = safe_makedir ''/a/B'' example_fs,
             w_heap = snd (heap_alloc (NGIProject_init ''B'' ''B'' ''/a'') empty_heap)\<rparr>)"
    by (simp add: setup_project_def example_empty_project_def k ensure_dir_def path_exists_def
          example_fs_def example_world_def heap_alloc_def empty_heap_def Let_def)
  note r2 = restrictions_skip [where rp = "[]" and project = example_empty_project and ev = example_env
              and fcs = example_rd1 and top_dir = "''/a''" and rs = "[]" and d = "[]"
              and w = example_world and pta' = "ProjDict [(''/a/B'', 0)]"
              and w' = "\<lparr>w_fs = safe_makedir ''/a/B'' example_fs,
                w_heap = snd (heap_alloc (NGIProject_init ''B'' ''B'' ''/a'') empty_heap)\<rparr>"]
  have five: "\<exists>d'. ProjDict [(''/a/B'', 0 :: addr)] = ProjDict d'
       \<and> map_of d' (path_join ''/a'' (project_name example_empty_project)) \<noteq> None"
    by (rule mp[OF r2[THEN conjunct2, THEN conjunct2, THEN conjunct2, THEN conjunct2, THEN conjunct2,
                      THEN conjunct1] four])
  have nm: "path_join ''/a'' (project_name example_empty_project) = ''/a/B''"
    by (simp add: example_empty_project_def k)
  let ?h0 = "snd (heap_alloc (NGIProject_init ''A_13_02'' ''A_13_02'' ''/a'') empty_heap)"
  from example_setup_sample[of example_fs] obtain ws' where
    run: "setup_sample example_env example_rd1 example_project ''/a/A_13_02'' 0 [''S1''] example_sample
           \<lparr>w_fs = example_fs, w_heap = ?h0\<rparr> = Inr ws'"
    by blast
  have lt: "0 < next_free (w_heap \<lparr>w_fs = example_fs, w_heap = ?h0\<rparr>)"
    by (simp add: heap_alloc_def)
  have e1: "py_replace ''__'' ''.'' (sample_name example_sample) = ''S1''"
    by (simp add: example_sample_def startswith_def)
  have e2: "fc_run_id example_rd1 = ''140220_AH8AMJADXX''"
    by (simp add: fc_run_id_def example_rd1_def)
  have e0: "files example_sample = [''x_1.fastq.gz'', ''x_2.fastq.gz'']"
    by (simp add: example_sample_def)
  have e3: "filter fastq_pattern_match (files example_sample) = [''x_1.fastq.gz'', ''x_2.fastq.gz'']"
    by (simp only: e0 example_fastq_filter(3))
  have e4: "path_join ''/a/A_13_02'' ''S1'' = ''/a/A_13_02/S1''"
    "path_join ''/a/A_13_02/S1'' ''140220_AH8AMJADXX'' = ''/a/A_13_02/S1/140220_AH8AMJADXX''"
    by (simp_all add: path_join_def startswith_def endswith_def)
  have e5: "map (path_join (path_join (path_join (path_join (fc_dir example_rd1) (data_dir example_project))
                                   (project_dir example_project)) (sample_dir example_sample)))
              (files example_sample)
            = [''/s/r1/Unaligned/Project_A_13_02/Sample_S1/x_1.fastq.gz'',
               ''/s/r1/Unaligned/Project_A_13_02/Sample_S1/x_2.fastq.gz'']"
    by (simp add: example_rd1_def example_project_def example_sample_def path_join_def
          startswith_def endswith_def)
  note r3 = restrictions_skip [where rs = "[''S1'']" and sample = example_sample and ev = example_env
              and fcs = example_rd1 and project = example_project and dpd = "''/a/A_13_02''"
              and pobj = 0 and ws = "\<lparr>w_fs = example_fs, w_heap = ?h0\<rparr>" and ws' = ws']
  have "\<exists>so fo old fs2.
             child_of (w_heap ws') 0 (py_replace ''__'' ''.'' (sample_name example_sample)) = Some so
           \<and> child_of (w_heap ws') so (fc_run_id example_rd1) = Some fo
           \<and> fastqs (w_heap ws') fo = old @ map PyStr (filter fastq_pattern_match (files example_sample))
           \<and> path_exists fs2 (path_join ''/a/A_13_02'' (py_replace ''__'' ''.'' (sample_name example_sample)))
           \<and> path_exists fs2
                (path_join (path_join ''/a/A_13_02'' (py_replace ''__'' ''.'' (sample_name example_sample)))
                   (fc_run_id example_rd1))
           \<and> transfer example_env
                (map (path_join (path_join (path_join (path_join (fc_dir example_rd1) (data_dir example_project))
                                   (project_dir example_project)) (sample_dir example_sample)))
                   (files example_sample))
                (path_join (path_join ''/a/A_13_02'' (py_replace ''__'' ''.'' (sample_name example_sample)))
                   (fc_run_id example_rd1))
                fs2 = Some (w_fs ws')"
    by (rule mp[OF r3[THEN conjunct2, THEN conjunct2, THEN conjunct2, THEN conjunct2, THEN conjunct2,
                      THEN conjunct2, THEN conjunct1]
                   conjI[OF example_sample_allowed conjI[OF lt run]]])
  then have six: "\<exists>so fo old fs2.
              child_of (w_heap ws') 0 ''S1'' = Some so
            \<and> child_of (w_heap ws') so ''140220_AH8AMJADXX'' = Some fo
            \<and> fastqs (w_heap ws') fo = old @ [PyStr ''x_1.fastq.gz'', PyStr ''x_2.fastq.gz'']
            \<and> path_exists fs2 ''/a/A_13_02/S1''
            \<and> path_exists fs2 ''/a/A_13_02/S1/140220_AH8AMJADXX''
            \<and> transfer example_env
                 [''/s/r1/Unaligned/Project_A_13_02/Sample_S1/x_1.fastq.gz'',
                  ''/s/r1/Unaligned/Project_A_13_02/Sample_S1/x_2.fastq.gz'']
                 ''/a/A_13_02/S1/140220_AH8AMJADXX'' fs2 = Some (w_fs ws')"
    by (simp only: e1 e2 e3 e4 e5 list.map)
  from example_reconcile obtain wr' where
    rec: "reconcile example_env example_rd1 ''/a'' [''A_13_02''] [''S1''] (ProjDict [], example_world)
            = Inr (ProjDict [(''/a/A_13_02'', 0)], wr')"
    by blast
  have bd: "list_all (\<lambda>a. a < next_free (w_heap example_world)) (map snd ([] :: (string \<times> addr) list))"
    by simp
  note r4 = restrictions_skip [where rp = "[''A_13_02'']" and rs = "[''S1'']" and ev = example_env
              and fcs = example_rd1 and top_dir = "''/a''" and dr = "[]" and wr = example_world
              and ptar = "ProjDict [(''/a/A_13_02'', 0)]" and wr' = wr']
  have all: "\<exists>d'. ProjDict [(''/a/A_13_02'', 0)] = ProjDict d'
           \<and> (\<forall>p \<in> set (projects example_rd1). [''A_13_02''] = [] \<or> project_name p \<in> set [''A_13_02''] \<longrightarrow>
                (\<exists>po. map_of d' (path_join ''/a'' (project_name p)) = Some po
                   \<and> (\<forall>s \<in> set (samples p).
                         [''S1''] = [] \<or> py_replace ''__'' ''.'' (sample_name s) \<in> set [''S1''] \<longrightarrow>
                         sample_present (w_heap wr') po (py_replace ''__'' ''.'' (sample_name s))
                           (fc_run_id example_rd1) (filter fastq_pattern_match (files s)))))"
    by (rule mp[OF r4[THEN conjunct2, THEN conjunct2, THEN conjunct2, THEN conjunct2, THEN conjunct2,
                      THEN conjunct2, THEN conjunct2]
                   conjI[OF example_closed conjI[OF bd rec]]])
  then obtain d' where dd: "ProjDict [(''/a/A_13_02'', 0)] = ProjDict d'"
    and ball: "\<forall>p \<in> set (projects example_rd1). [''A_13_02''] = [] \<or> project_name p \<in> set [''A_13_02''] \<longrightarrow>
                (\<exists>po. map_of d' (path_join ''/a'' (project_name p)) = Some po
                   \<and> (\<forall>s \<in> set (samples p).
                         [''S1''] = [] \<or> py_replace ''__'' ''.'' (sample_name s) \<in> set [''S1''] \<longrightarrow>
                         sample_present (w_heap wr') po (py_replace ''__'' ''.'' (sample_name s))
                           (fc_run_id example_rd1) (filter fastq_pattern_match (files s))))"
    by (elim exE conjE)
  from dd have dd': "d' = [(''/a/A_13_02'', 0)]" by simp
  have pin: "example_project \<in> set (projects example_rd1)" by (simp add: example_rd1_def)
  have sin: "example_sample \<in> set (samples example_project)" by (simp add: example_project_def)
  have pal: "[''A_13_02''] = [] \<or> project_name example_project \<in> set [''A_13_02'']"
    by (simp add: example_project_def)
  have k2: "path_join ''/a'' (project_name example_project) = ''/a/A_13_02''"
    by (simp add: example_project_def path_join_def startswith_def endswith_def)
  from mp[OF bspec[OF ball pin] pal] obtain po where
    m: "map_of d' (path_join ''/a'' (project_name example_project)) = Some po"
    and sp: "\<forall>s \<in> set (samples example_project).
                         [''S1''] = [] \<or> py_replace ''__'' ''.'' (sample_name s) \<in> set [''S1''] \<longrightarrow>
                         sample_present (w_heap wr') po (py_replace ''__'' ''.'' (sample_name s))
                           (fc_run_id example_rd1) (filter fastq_pattern_match (files s))"
    by (elim exE conjE)
  have "sample_present (w_heap wr') po (py_replace ''__'' ''.'' (sample_name example_sample))
          (fc_run_id example_rd1) (filter fastq_pattern_match (files example_sample))"
    by (rule mp[OF bspec[OF sp sin] example_sample_allowed])
  then have sp': "sample_present (w_heap wr') po ''S1'' ''140220_AH8AMJADXX''
                    [''x_1.fastq.gz'', ''x_2.fastq.gz'']"
    by (simp only: e1 e2 e3)
  from m have m': "map_of [(''/a/A_13_02'', 0 :: addr)] ''/a/A_13_02'' = Some po"
    by (simp only: k2 dd')
  have seven:
    "\<exists>d' wr'. reconcile example_env example_rd1 ''/a'' [''A_13_02''] [''S1''] (ProjDict [], example_world)
                  = Inr (ProjDict d', wr')
        \<and> (\<exists>po. map_of d' ''/a/A_13_02'' = Some po
              \<and> sample_present (w_heap wr') po ''S1'' ''140220_AH8AMJADXX''
                  [''x_1.fastq.gz'', ''x_2.fastq.gz''])"
    by (rule exI[of _ "[(''/a/A_13_02'', 0)]"], rule exI[of _ wr'], rule conjI[OF rec], rule exI[of _ po],
        rule conjI[OF m' sp'])
  have six': "\<exists>ws'. setup_sample example_env example_rd1 example_project ''/a/A_13_02'' 0 [''S1''] example_sample
               \<lparr>w_fs = example_fs, w_heap = ?h0\<rparr> = Inr ws'
        \<and> (\<exists>so fo old fs2.
              child_of (w_heap ws') 0 ''S1'' = Some so
            \<and> child_of (w_heap ws') so ''140220_AH8AMJADXX'' = Some fo
            \<and> fastqs (w_heap ws') fo = old @ [PyStr ''x_1.fastq.gz'', PyStr ''x_2.fastq.gz'']
            \<and> path_exists fs2 ''/a/A_13_02/S1''
            \<and> path_exists fs2 ''/a/A_13_02/S1/140220_AH8AMJADXX''
            \<and> transfer example_env
                 [''/s/r1/Unaligned/Project_A_13_02/Sample_S1/x_1.fastq.gz'',
                  ''/s/r1/Unaligned/Project_A_13_02/Sample_S1/x_2.fastq.gz'']
                 ''/a/A_13_02/S1/140220_AH8AMJADXX'' fs2 = Some (w_fs ws'))"
    by (rule exI[of _ ws'], rule conjI[OF run six])
  show ?thesis
    by (intro conjI) (rule one, rule two, rule three, rule four, rule five[unfolded nm], rule six',
        rule example_closed, rule seven)
qed


section \<open>A source root that does not exist\<close>

text \<open>
  C2. The claim does not hold of the code: when the analysis directory exists and the
  flowcell directory does not, the call returns the empty list \<^verbatim>\<open>[]\<close> in place of the
  hierarchy, whatever was accumulated before; the file system and the object store are
  as before.
\<close>

theorem setup_missing_root_returns_empty_list:
  assumes "config ''analysis'' = Some analysis"
    and "analysis ''top_dir'' = Some top_dir"
    and "path_exists (w_fs w) (abspath ev top_dir)"
    and "\<not> path_exists (w_fs w) fc_dir_arg"
  shows "setup_analysis_directory_structure ev fc_dir_arg config rp rs (projects_to_analyze, w)
           = Inr (ProjList [], w)"
  using assms by (simp add: setup_analysis_directory_structure_def Let_def)

theorem setup_missing_root_returns_empty_list_witness:
  "example_config ''analysis'' = Some [''top_dir'' \<mapsto> ''/a'']
   \<and> path_exists example_fs (abspath example_env ''/a'')
   \<and> \<not> path_exists example_fs ''/missing''
   \<and> setup_analysis_directory_structure example_env ''/missing'' example_config None None
         (ProjDict [(''/a/A_13_02'', 0)], \<lparr>w_fs = example_fs, w_heap = example_project_heap\<rparr>)
       = Inr (ProjList [], \<lparr>w_fs = example_fs, w_heap = example_project_heap\<rparr>)"
proof -
  have c: "example_config ''analysis'' = Some [''top_dir'' \<mapsto> ''/a'']"
    by (simp add: example_config_def)
  have t: "[''top_dir'' \<mapsto> ''/a''] ''top_dir'' = Some ''/a''"
    by simp
  have e: "path_exists (w_fs \<lparr>w_fs = example_fs, w_heap = example_project_heap\<rparr>) (abspath example_env ''/a'')"
    by (simp add: path_exists_def example_fs_def example_env_def)
  have m: "\<not> path_exists (w_fs \<lparr>w_fs = example_fs, w_heap = example_project_heap\<rparr>) ''/missing''"
    by (simp add: path_exists_def example_fs_def)
  from setup_missing_root_returns_empty_list
         [of example_config "[''top_dir'' \<mapsto> ''/a'']" "''/a''"
             "\<lparr>w_fs = example_fs, w_heap = example_project_heap\<rparr>" example_env "''/missing''"
             None None "ProjDict [(''/a/A_13_02'', 0)]", OF c t e m] c e m
  show ?thesis by simp
qed

text \<open>
  The loop of \<^verbatim>\<open>main\<close> goes on with that list: the next tree that has a project fails
  with \<^verbatim>\<open>TypeError\<close> when it subscripts the list with the project directory.
\<close>

lemma setup_project_on_list:
  assumes "rp = [] \<or> project_name project \<in> set rp"
  shows "setup_project ev fcs top_dir rp rs project (ProjList xs, w)
           = Inl (TypeError ''list indices must be integers, not str'')"
  using assms by (auto simp add: setup_project_def Let_def)

lemma example_next_tree_crashes:
  "main_loop example_env example_config None None [''/missing'', ''/s/r2''] (ProjDict [], example_world)
     = Inl (TypeError ''list indices must be integers, not str'')"
proof -
  have c: "example_config ''analysis'' = Some [''top_dir'' \<mapsto> ''/a'']"
    by (simp add: example_config_def)
  have a: "abspath example_env ''/a'' = ''/a''" by (simp add: example_env_def)
  have e: "path_exists example_fs ''/a''" "path_exists example_fs ''/s/r2''"
    "\<not> path_exists example_fs ''/missing''"
    by (simp_all add: path_exists_def example_fs_def)
  have first: "setup_analysis_directory_structure example_env ''/missing'' example_config None None
                 (ProjDict [], example_world) = Inr (ProjList [], example_world)"
    using c a e by (simp add: setup_analysis_directory_structure_def example_world_def)
  have rec: "reconcile example_env example_rd2 ''/a'' [] [] (ProjList [], example_world)
               = Inl (TypeError ''list indices must be integers, not str'')"
    by (simp add: reconcile_def example_rd2_def setup_project_on_list)
  have second: "setup_analysis_directory_structure example_env ''/s/r2'' example_config None None
                 (ProjList [], example_world) = Inl (TypeError ''list indices must be integers, not str'')"
    using c a e rec
    by (simp add: setup_analysis_directory_structure_def example_world_def example_parse_r2)
  show ?thesis by (simp add: first second)
qed

end
